(* ===== verification/CopilotPrelude.thy ===== *)
theory CopilotPrelude
  imports Complex_Main "HOL-Library.List_Lexorder" "HOL-Library.Product_Lexorder"
    "HOL-Library.AList" "HOL-Library.Code_Target_Nat"
begin

text \<open>
  What every component shares: the types that stand for Python's built-in data, the error
  monad that stands for exceptions, and the generic lemmas on lists and association lists.

  \<^item> \<open>pystr\<close> is Python's \<open>str\<close>: a list of Unicode code points, so \<open>length\<close> counts what
    \<open>len\<close> counts. \<open>lit ''abc''\<close> is the literal \<open>"abc"\<close>; text outside ASCII is written as a list
    of code points.
  \<^item> a \<open>dict\<close> whose iteration order matters is an association list updated with
    \<open>AList.update\<close>, which replaces a key in place and appends a new one, as Python's \<open>dict\<close> does;
    a \<open>dict\<close> used only for lookup is a map.
  \<^item> \<open>float\<close> is \<open>real\<close>: rounding of binary floating point is not modelled.
  \<^item> \<open>'e + 'a\<close> is a call that raises \<open>'e\<close> or returns \<open>'a\<close>.
\<close>

named_theorems text_simps "equations of the string operations"
named_theorems result_elims "inversion of calls that returned a value"

type_synonym pystr = "nat list"
type_synonym uuid = nat

definition lit :: "string \<Rightarrow> pystr" where
  "lit s = map of_char s"

lemma lit_eq_iff [simp]: "lit a = lit b \<longleftrightarrow> a = b"
  by (auto simp: lit_def intro: map_injective [OF _ inj_of_char])

lemma lit_Nil [simp]: "lit [] = []"
  by (simp add: lit_def)

lemma lit_eq_Nil [simp]: "lit a = [] \<longleftrightarrow> a = []" "[] = lit a \<longleftrightarrow> a = []"
  by (auto simp: lit_def)

lemma length_lit [simp]: "length (lit a) = length a"
  by (simp add: lit_def)

subsection \<open>Calls that may raise\<close>

fun res_bind :: "'e + 'a \<Rightarrow> ('a \<Rightarrow> 'e + 'b) \<Rightarrow> 'e + 'b" where
  "res_bind (Inl e) f = Inl e"
| "res_bind (Inr x) f = f x"

lemma res_bind_eq_Inr [simp]:
  "res_bind r f = Inr y \<longleftrightarrow> (\<exists>x. r = Inr x \<and> f x = Inr y)"
  by (cases r) auto

lemma res_bind_eq_Inl:
  "res_bind r f = Inl e \<longleftrightarrow> r = Inl e \<or> (\<exists>x. r = Inr x \<and> f x = Inl e)"
  by (cases r) auto

text \<open>A loop that appends the result of each item and stops at the first error.\<close>

fun res_map :: "('a \<Rightarrow> 'e + 'b) \<Rightarrow> 'a list \<Rightarrow> 'e + 'b list" where
  "res_map f [] = Inr []"
| "res_map f (x # xs) =
     (case f x of Inl e \<Rightarrow> Inl e
      | Inr y \<Rightarrow> (case res_map f xs of Inl e \<Rightarrow> Inl e | Inr ys \<Rightarrow> Inr (y # ys)))"

lemma res_map_InrD: "res_map f xs = Inr ys \<Longrightarrow> list_all2 (\<lambda>x y. f x = Inr y) xs ys"
  by (induction xs arbitrary: ys) (auto split: sum.splits)

lemma res_map_total: "(\<And>x. x \<in> set xs \<Longrightarrow> f x = Inr (g x)) \<Longrightarrow> res_map f xs = Inr (map g xs)"
  by (induction xs) auto

definition guard_res :: "bool \<Rightarrow> 'e \<Rightarrow> 'e + unit" where
  "guard_res c e = (if c then Inr () else Inl e)"

lemma guard_res_Inr [simp]: "guard_res c e = Inr u \<longleftrightarrow> c"
  by (simp add: guard_res_def)

subsection \<open>Truth of optional values\<close>

text \<open>\<open>x or d\<close> on an optional number: missing and zero both give \<open>d\<close>.\<close>

definition or_default :: "'a::zero option \<Rightarrow> 'a \<Rightarrow> 'a" where
  "or_default x d = (case x of None \<Rightarrow> d | Some v \<Rightarrow> if v = 0 then d else v)"

subsection \<open>Lists, sets of list elements, ordered dictionaries\<close>

text \<open>\<open>len(set(xs)) != len(xs)\<close>\<close>

definition has_duplicates :: "'a list \<Rightarrow> bool" where
  "has_duplicates xs = (length (remdups xs) \<noteq> length xs)"

lemma has_duplicates_iff [simp]: "has_duplicates xs \<longleftrightarrow> \<not> distinct xs"
  by (auto simp: has_duplicates_def remdups_id_iff_distinct length_remdups_eq)

text \<open>\<open>list(dict.fromkeys(xs))\<close>: the first occurrence of each element, in order.\<close>

fun fromkeys :: "'a list \<Rightarrow> 'a list" where
  "fromkeys [] = []"
| "fromkeys (x # xs) = x # filter (\<lambda>y. y \<noteq> x) (fromkeys xs)"

lemma set_fromkeys [simp]: "set (fromkeys xs) = set xs"
  by (induction xs) auto

lemma distinct_fromkeys [simp]: "distinct (fromkeys xs)"
  by (induction xs) auto

lemma fromkeys_distinct: "distinct xs \<Longrightarrow> fromkeys xs = xs"
proof (induction xs)
  case (Cons x xs)
  then have "filter (\<lambda>y. y \<noteq> x) xs = xs" by (auto simp: filter_id_conv)
  with Cons show ?case by simp
qed simp

lemma length_fromkeys_le: "length (fromkeys xs) \<le> length xs"
  by (induction xs) (auto intro: order_trans [OF length_filter_le])

text \<open>\<open>sum\<close> of a generator over a list, and \<open>sum\<close> of booleans.\<close>

definition count_if :: "('a \<Rightarrow> bool) \<Rightarrow> 'a list \<Rightarrow> nat" where
  "count_if p xs = length (filter p xs)"

lemma count_if_le: "count_if p xs \<le> length xs"
  by (simp add: count_if_def)

text \<open>\<open>next((x for x in xs if p(x)), None)\<close> is the library's \<open>List.find\<close>.\<close>

lemma find_SomeD: "List.find p xs = Some x \<Longrightarrow> x \<in> set xs \<and> p x"
  by (auto simp: find_Some_iff)

lemma map_of_update [simp]: "map_of (AList.update k v al) = (map_of al)(k \<mapsto> v)"
  by (rule AList.update_conv')

text \<open>A dict comprehension or a run of \<open>d[k] = v\<close>: a later value replaces an earlier one in place.\<close>

definition dict_of :: "('k \<times> 'v) list \<Rightarrow> ('k \<times> 'v) list" where
  "dict_of kvs = foldl (\<lambda>d kv. AList.update (fst kv) (snd kv) d) [] kvs"

lemma dict_of_snoc: "dict_of (kvs @ [(k, v)]) = AList.update k v (dict_of kvs)"
  by (simp add: dict_of_def)

lemma dict_of_Nil [simp]: "dict_of [] = []"
  by (simp add: dict_of_def)

lemma map_of_dict_of: "map_of (dict_of kvs) = map_of (rev kvs)"
  by (induction kvs rule: rev_induct) (auto simp: dict_of_snoc split_paired_all)

lemma distinct_dict_of [simp]: "distinct (map fst (dict_of kvs))"
  by (induction kvs rule: rev_induct)
     (auto simp: dict_of_snoc split_paired_all intro: AList.distinct_update)

lemma keys_dict_of [simp]: "fst ` set (dict_of kvs) = fst ` set kvs"
proof -
  have "fst ` set (dict_of kvs) = dom (map_of (rev kvs))"
    by (metis dom_map_of_conv_image_fst map_of_dict_of)
  then show ?thesis by (simp add: dom_map_of_conv_image_fst)
qed

lemma set_dict_of_subset: "set (dict_of kvs) \<subseteq> set kvs"
proof
  fix kv assume "kv \<in> set (dict_of kvs)"
  then have "map_of (dict_of kvs) (fst kv) = Some (snd kv)"
    by (intro map_of_is_SomeI) simp_all
  then have "map_of (rev kvs) (fst kv) = Some (snd kv)" by (simp add: map_of_dict_of)
  from map_of_SomeD [OF this] show "kv \<in> set kvs" by simp
qed

lemma length_dict_of: "length (dict_of kvs) \<le> length kvs"
proof (induction kvs rule: rev_induct)
  case (snoc kv kvs)
  have "length (AList.update k v al) \<le> Suc (length al)" for k v and al :: "('a \<times> 'b) list"
    by (induction al) auto
  with snoc show ?case by (cases kv) (auto simp: dict_of_snoc intro: order_trans)
qed simp

lemma dict_of_distinct: "distinct (map fst kvs) \<Longrightarrow> dict_of kvs = kvs"
proof (induction kvs rule: rev_induct)
  case (snoc kv kvs)
  have "k \<notin> fst ` set al \<Longrightarrow> AList.update k v al = al @ [(k, v)]"
    for k v and al :: "('a \<times> 'b) list"
    by (induction al) auto
  with snoc show ?case by (cases kv) (auto simp: dict_of_snoc)
qed simp

lemma dict_of_map_values:
  "dict_of (map (\<lambda>x. (k x, f (v x))) xs) = map (\<lambda>(a, b). (a, f b)) (dict_of (map (\<lambda>x. (k x, v x)) xs))"
proof (induction xs rule: rev_induct)
  case (snoc x xs)
  have "AList.update a (f b) (map (\<lambda>(a, b). (a, f b)) al) = map (\<lambda>(a, b). (a, f b)) (AList.update a b al)"
    for a b al
    by (induction al) auto
  with snoc show ?case by (simp add: dict_of_snoc)
qed simp

lemma map_of_map_values: "map_of (map (\<lambda>(a, b). (a, f b)) al) k = map_option f (map_of al k)"
  by (induction al) auto

lemma res_map_cong:
  "(\<And>x. x \<in> set xs \<Longrightarrow> f x = g x) \<Longrightarrow> res_map f xs = res_map g xs"
proof (induction xs)
  case (Cons x xs)
  then have "res_map f xs = res_map g xs" "f x = g x" by auto
  then show ?case by (simp only: res_map.simps)
qed simp

lemma set_take_subset: "x \<in> set (take n xs) \<Longrightarrow> x \<in> set xs"
  by (rule in_set_takeD)

end
