(* ===== verification/PyText.thy ===== *)
theory PyText
  imports CopilotPrelude
begin

text \<open>
  Python's string operations, as far as the agent service uses them, on code-point lists.
  Whitespace and line boundaries are the exact tables of \<open>str.isspace\<close> and
  \<open>str.splitlines\<close>. Case mapping and character classes need the Unicode database: they are a
  record \<open>unidata\<close> that every definition using them takes as an argument, with the instance
  \<open>ascii_uni\<close> that is exact on ASCII.
\<close>

section \<open>The Unicode database as an argument\<close>

record unidata =
  u_lower :: "pystr \<Rightarrow> pystr"
  u_upper :: "pystr \<Rightarrow> pystr"
  u_casefold :: "pystr \<Rightarrow> pystr"
  u_isalnum :: "nat \<Rightarrow> bool"
  u_word :: "nat \<Rightarrow> bool"
  u_decimal :: "nat \<Rightarrow> nat option"   \<comment> \<open>the value of a decimal digit\<close>
  u_same_letter :: "nat \<Rightarrow> nat \<Rightarrow> bool"   \<comment> \<open>equality under \<open>re.IGNORECASE\<close>\<close>

definition ascii_lower1 :: "nat \<Rightarrow> nat" where
  "ascii_lower1 c = (if 65 \<le> c \<and> c \<le> 90 then c + 32 else c)"

definition ascii_upper1 :: "nat \<Rightarrow> nat" where
  "ascii_upper1 c = (if 97 \<le> c \<and> c \<le> 122 then c - 32 else c)"

definition ascii_digit :: "nat \<Rightarrow> bool" where
  "ascii_digit c \<longleftrightarrow> 48 \<le> c \<and> c \<le> 57"

definition ascii_alnum :: "nat \<Rightarrow> bool" where
  "ascii_alnum c \<longleftrightarrow> ascii_digit c \<or> 65 \<le> c \<and> c \<le> 90 \<or> 97 \<le> c \<and> c \<le> 122"

definition ascii_uni :: unidata where
  "ascii_uni = \<lparr>u_lower = map ascii_lower1, u_upper = map ascii_upper1,
     u_casefold = map ascii_lower1, u_isalnum = ascii_alnum,
     u_word = (\<lambda>c. ascii_alnum c \<or> c = 95),
     u_decimal = (\<lambda>c. if ascii_digit c then Some (c - 48) else None),
     u_same_letter = (\<lambda>c d. ascii_lower1 c = ascii_lower1 d)\<rparr>"

section \<open>Whitespace\<close>

definition is_space :: "nat \<Rightarrow> bool" where
  "is_space c \<longleftrightarrow> 9 \<le> c \<and> c \<le> 13 \<or> 28 \<le> c \<and> c \<le> 32 \<or> c = 133 \<or> c = 160 \<or> c = 5760
     \<or> 8192 \<le> c \<and> c \<le> 8202 \<or> c = 8232 \<or> c = 8233 \<or> c = 8239 \<or> c = 8287 \<or> c = 12288"

definition lstrip :: "pystr \<Rightarrow> pystr" where
  "lstrip s = dropWhile is_space s"

definition rstrip :: "pystr \<Rightarrow> pystr" where
  "rstrip s = rev (dropWhile is_space (rev s))"

definition strip :: "pystr \<Rightarrow> pystr" where
  "strip s = rstrip (lstrip s)"

text \<open>\<open>s.strip(chars)\<close> for a single character, and \<open>s.rstrip("/")\<close>.\<close>

definition rstrip_char :: "nat \<Rightarrow> pystr \<Rightarrow> pystr" where
  "rstrip_char c s = rev (dropWhile (\<lambda>x. x = c) (rev s))"

definition strip_char :: "nat \<Rightarrow> pystr \<Rightarrow> pystr" where
  "strip_char c s = rstrip_char c (dropWhile (\<lambda>x. x = c) s)"

text \<open>\<open>s.split()\<close>: the maximal runs of non-space characters.\<close>

fun words_from :: "pystr \<Rightarrow> pystr \<Rightarrow> pystr list" where
  "words_from [] w = (if w = [] then [] else [rev w])"
| "words_from (c # cs) w =
     (if is_space c then (if w = [] then words_from cs [] else rev w # words_from cs [])
      else words_from cs (c # w))"

definition split_ws :: "pystr \<Rightarrow> pystr list" where
  "split_ws s = words_from s []"

fun join :: "pystr \<Rightarrow> pystr list \<Rightarrow> pystr" where
  "join sep [] = []"
| "join sep [x] = x"
| "join sep (x # y # ys) = x @ sep @ join sep (y # ys)"

text \<open>\<open>" ".join(s.split())\<close>, the normalisation of questions, queries and titles.\<close>

definition squash :: "pystr \<Rightarrow> pystr" where
  "squash s = join [32] (split_ws s)"

section \<open>Splitting at a character\<close>

fun split_on :: "nat \<Rightarrow> pystr \<Rightarrow> pystr list" where
  "split_on c [] = [[]]"
| "split_on c (x # xs) =
     (if x = c then [] # split_on c xs
      else (case split_on c xs of [] \<Rightarrow> [[x]] | w # ws \<Rightarrow> (x # w) # ws))"

text \<open>\<open>s.partition(c)\<close>: the part before the first \<open>c\<close> and the part after it.\<close>

definition before_char :: "nat \<Rightarrow> pystr \<Rightarrow> pystr" where
  "before_char c s = takeWhile (\<lambda>x. x \<noteq> c) s"

definition after_char :: "nat \<Rightarrow> pystr \<Rightarrow> pystr" where
  "after_char c s = tl (dropWhile (\<lambda>x. x \<noteq> c) s)"

definition replace_char :: "nat \<Rightarrow> nat \<Rightarrow> pystr \<Rightarrow> pystr" where
  "replace_char a b s = map (\<lambda>c. if c = a then b else c) s"

section \<open>Searching\<close>

definition starts_with :: "pystr \<Rightarrow> pystr \<Rightarrow> bool" where
  "starts_with p s \<longleftrightarrow> take (length p) s = p"

fun contains :: "pystr \<Rightarrow> pystr \<Rightarrow> bool" where
  "contains n [] = (n = [])"
| "contains n (c # cs) = (starts_with n (c # cs) \<or> contains n cs)"

definition slice :: "pystr \<Rightarrow> nat \<Rightarrow> nat \<Rightarrow> pystr" where
  "slice s a b = take (b - a) (drop a s)"

text \<open>\<open>s.rfind(sub, start, end)\<close>: the last match inside \<open>s[start:end]\<close>, or \<open>-1\<close>.\<close>

definition rfind :: "pystr \<Rightarrow> pystr \<Rightarrow> nat \<Rightarrow> nat \<Rightarrow> int" where
  "rfind s sub st en =
     (case List.find (\<lambda>i. i + length sub \<le> en \<and> slice s i (i + length sub) = sub)
             (rev [st..<Suc en]) of
        None \<Rightarrow> - 1 | Some i \<Rightarrow> int i)"

section \<open>Lines\<close>

definition is_eol :: "nat \<Rightarrow> bool" where
  "is_eol c \<longleftrightarrow> 10 \<le> c \<and> c \<le> 13 \<or> 28 \<le> c \<and> c \<le> 30 \<or> c = 133 \<or> c = 8232 \<or> c = 8233"

fun lines_from :: "pystr \<Rightarrow> pystr \<Rightarrow> pystr list" where
  "lines_from [] w = (if w = [] then [] else [rev w])"
| "lines_from (c # cs) w =
     (if c = 13 then rev w # (case cs of [] \<Rightarrow> [] | d # ds \<Rightarrow>
        if d = 10 then lines_from ds [] else lines_from cs [])
      else if is_eol c then rev w # lines_from cs [] else lines_from cs (c # w))"

definition splitlines :: "pystr \<Rightarrow> pystr list" where
  "splitlines s = lines_from s []"

section \<open>Numbers as text\<close>

fun str_nat :: "nat \<Rightarrow> pystr" where
  "str_nat n = (if n < 10 then [48 + n] else str_nat (n div 10) @ [48 + n mod 10])"

declare str_nat.simps [simp del]

definition str_int :: "int \<Rightarrow> pystr" where
  "str_int i = (if i < 0 then 45 # str_nat (nat (- i)) else str_nat (nat i))"

definition hex_digit :: "nat \<Rightarrow> nat" where
  "hex_digit d = (if d < 10 then 48 + d else 87 + d)"

text \<open>The lower-case hexadecimal digits of \<open>n\<close>, padded to \<open>k\<close> places.\<close>

fun hex_pad :: "nat \<Rightarrow> nat \<Rightarrow> pystr" where
  "hex_pad 0 n = []"
| "hex_pad (Suc k) n = hex_pad k (n div 16) @ [hex_digit (n mod 16)]"

definition is_hex :: "nat \<Rightarrow> bool" where
  "is_hex c \<longleftrightarrow> ascii_digit c \<or> 97 \<le> c \<and> c \<le> 102"

text \<open>\<open>str(uuid)\<close>: 32 hexadecimal digits in groups of 8-4-4-4-12.\<close>

definition uuid_str :: "uuid \<Rightarrow> pystr" where
  "uuid_str u = (let h = hex_pad 32 u in
     slice h 0 8 @ [45] @ slice h 8 12 @ [45] @ slice h 12 16 @ [45] @ slice h 16 20 @ [45]
       @ slice h 20 32)"

text \<open>
  \<open>int(s, 16)\<close>: outer space, a sign, a prefix \<open>0x\<close> and single underscores between digits are
  allowed; outside ASCII, spaces and decimal digits count as such.
\<close>

definition hex_digit_value :: "nat \<Rightarrow> nat option" where
  "hex_digit_value c = (if ascii_digit c then Some (c - 48)
     else if 97 \<le> c \<and> c \<le> 102 then Some (c - 87) else if 65 \<le> c \<and> c \<le> 70 then Some (c - 55) else None)"

fun hex_digits_value :: "nat \<Rightarrow> pystr \<Rightarrow> nat option" where
  "hex_digits_value n [] = Some n"
| "hex_digits_value n (c # s) = (case hex_digit_value c of
     Some d \<Rightarrow> hex_digits_value (16 * n + d) s
   | None \<Rightarrow> (if c = 95 \<and> s \<noteq> [] \<and> hd s \<noteq> 95 then hex_digits_value n s else None))"

definition ascii_space :: "nat \<Rightarrow> bool" where
  "ascii_space c \<longleftrightarrow> 9 \<le> c \<and> c \<le> 13 \<or> c = 32"

definition int16_text :: "unidata \<Rightarrow> pystr \<Rightarrow> pystr" where
  "int16_text U s = (if list_all (\<lambda>c. c < 128) s then s
     else map (\<lambda>c. if c < 128 then c else if is_space c then 32
       else (case u_decimal U c of Some d \<Rightarrow> 48 + d | None \<Rightarrow> 63)) s)"

definition int16 :: "unidata \<Rightarrow> pystr \<Rightarrow> int option" where
  "int16 U s =
     (let t = dropWhile ascii_space (int16_text U s); t = rev (dropWhile ascii_space (rev t));
          neg = (t \<noteq> [] \<and> hd t = 45);
          u = (if t \<noteq> [] \<and> hd t \<in> {43, 45} then tl t else t);
          prefix = (starts_with (lit ''0x'') u \<or> starts_with (lit ''0X'') u);
          v = (if prefix then drop 2 u else u);
          w = (if prefix \<and> v \<noteq> [] \<and> hd v = 95 then tl v else v) in
      if w = [] \<or> hd w = 95 then None
      else map_option (\<lambda>n. if neg then - int n else int n) (hex_digits_value 0 w))"

text \<open>\<open>s.replace(old, "")\<close> for a text \<open>old\<close> that is not empty.\<close>

function remove_all :: "pystr \<Rightarrow> pystr \<Rightarrow> pystr" where
  "remove_all old s = (if s = [] \<or> old = [] then s
     else if starts_with old s then remove_all old (drop (length old) s)
     else hd s # remove_all old (tl s))"
  by pat_completeness auto

termination
  by (relation "measure (\<lambda>(old, s). length s)") (auto simp: neq_Nil_conv)

declare remove_all.simps [simp del]

text \<open>\<open>UUID(s)\<close>\<close>

definition uuid_of_text :: "unidata \<Rightarrow> pystr \<Rightarrow> uuid option" where
  "uuid_of_text U s =
     (let h = remove_all (lit ''uuid:'') (remove_all (lit ''urn:'') s);
          braces = (\<lambda>c. c = 123 \<or> c = 125);
          h = rev (dropWhile braces (rev (dropWhile braces h)));
          h = filter (\<lambda>c. c \<noteq> 45) h in
      if length h \<noteq> 32 then None
      else (case int16 U h of
          None \<Rightarrow> None
        | Some n \<Rightarrow> if 0 \<le> n \<and> n < 2 ^ 128 then Some (nat n) else None))"

section \<open>UTF-8\<close>

text \<open>\<open>str.encode()\<close>: \<open>None\<close> stands for \<open>UnicodeEncodeError\<close>, raised on a surrogate.\<close>

definition utf8_char :: "nat \<Rightarrow> nat list option" where
  "utf8_char c =
     (if c < 128 then Some [c]
      else if c < 2048 then Some [192 + c div 64, 128 + c mod 64]
      else if 55296 \<le> c \<and> c < 57344 then None
      else if c < 65536 then Some [224 + c div 4096, 128 + c div 64 mod 64, 128 + c mod 64]
      else Some [240 + c div 262144, 128 + c div 4096 mod 64, 128 + c div 64 mod 64,
                 128 + c mod 64])"

fun utf8_encode :: "pystr \<Rightarrow> nat list option" where
  "utf8_encode [] = Some []"
| "utf8_encode (c # cs) =
     (case utf8_char c of None \<Rightarrow> None
      | Some bs \<Rightarrow> (case utf8_encode cs of None \<Rightarrow> None | Some ds \<Rightarrow> Some (bs @ ds)))"

text \<open>\<open>bytes.decode("utf-8")\<close>, strict: \<open>None\<close> stands for \<open>UnicodeDecodeError\<close>.\<close>

definition utf8_tail :: "nat \<Rightarrow> bool" where
  "utf8_tail b \<longleftrightarrow> 128 \<le> b \<and> b < 192"

definition utf8_join :: "nat \<Rightarrow> nat list \<Rightarrow> nat" where
  "utf8_join a bs = foldl (\<lambda>n b. n * 64 + (b - 128)) a bs"

definition utf8_head :: "nat \<Rightarrow> nat list \<Rightarrow> (nat \<times> nat list) option" where
  "utf8_head a bs =
     (let k = (if a < 128 then 0 else if a < 224 then 1 else if a < 240 then 2 else 3);
          low = (if k = 0 then 0 else if k = 1 then 128 else if k = 2 then 2048 else 65536);
          c = utf8_join (if a < 128 then a else if a < 224 then a - 192
                else if a < 240 then a - 224 else a - 240) (take k bs) in
      if \<not> (128 \<le> a \<and> a < 192) \<and> k \<le> length bs \<and> list_all utf8_tail (take k bs) \<and> low \<le> c
         \<and> c < 1114112 \<and> \<not> (55296 \<le> c \<and> c < 57344)
      then Some (c, drop k bs) else None)"

lemma utf8_head_shorter: "utf8_head a bs = Some (c, rest) \<Longrightarrow> length rest \<le> length bs"
  by (auto simp: utf8_head_def Let_def split: if_splits)

function utf8_decode :: "nat list \<Rightarrow> pystr option" where
  "utf8_decode [] = Some []"
| "utf8_decode (a # bs) = (case utf8_head a bs of
     None \<Rightarrow> None | Some (c, rest) \<Rightarrow> map_option (Cons c) (utf8_decode rest))"
  by pat_completeness auto
termination by (relation "measure length") (auto dest: utf8_head_shorter)

section \<open>Lemmas\<close>

lemma strip_Nil [simp]: "strip [] = []"
  by (simp add: strip_def lstrip_def rstrip_def)

lemma rstrip_eq_Nil [simp]: "rstrip s = [] \<longleftrightarrow> (\<forall>c \<in> set s. is_space c)"
  by (simp add: rstrip_def)

lemma strip_eq_Nil: "strip s = [] \<longleftrightarrow> (\<forall>c \<in> set s. is_space c)"
  by (auto simp: strip_def lstrip_def dest: set_dropWhileD)
     (metis dropWhile_eq_Nil_conv hd_dropWhile hd_in_set)

lemma words_from_spaces: "\<forall>c \<in> set s. is_space c \<Longrightarrow> words_from s [] = []"
  by (induction s) auto

lemma words_from_nonempty: "w \<noteq> [] \<Longrightarrow> words_from s w \<noteq> []"
  by (induction s arbitrary: w) auto

lemma split_ws_eq_Nil: "split_ws s = [] \<longleftrightarrow> (\<forall>c \<in> set s. is_space c)"
proof
  show "\<forall>c \<in> set s. is_space c \<Longrightarrow> split_ws s = []"
    by (simp add: split_ws_def words_from_spaces)
  show "split_ws s = [] \<Longrightarrow> \<forall>c \<in> set s. is_space c"
    unfolding split_ws_def
    by (induction s) (auto simp: words_from_nonempty split: if_splits)
qed

lemma words_from_word:
  "x \<in> set (words_from s w) \<Longrightarrow> \<forall>c \<in> set w. \<not> is_space c \<Longrightarrow> x \<noteq> [] \<and> (\<forall>c \<in> set x. \<not> is_space c)"
proof (induction s arbitrary: w)
  case Nil
  then show ?case by (auto split: if_splits)
next
  case (Cons c s)
  show ?case
  proof (cases "is_space c")
    case True
    with Cons.prems consider "x = rev w" "w \<noteq> []" | "x \<in> set (words_from s [])"
      by (auto split: if_splits)
    then show ?thesis
    proof cases
      case 1
      with Cons.prems show ?thesis by simp
    next
      case 2
      then show ?thesis by (rule Cons.IH) simp
    qed
  next
    case False
    with Cons.prems have "x \<in> set (words_from s (c # w))" by simp
    then show ?thesis by (rule Cons.IH) (use False Cons.prems in simp)
  qed
qed

lemma split_ws_word: "x \<in> set (split_ws s) \<Longrightarrow> x \<noteq> [] \<and> (\<forall>c \<in> set x. \<not> is_space c)"
  unfolding split_ws_def by (rule words_from_word) auto

lemma join_eq_Nil: "\<forall>x \<in> set xs. x \<noteq> [] \<Longrightarrow> join sep xs = [] \<longleftrightarrow> xs = []"
  by (induction sep xs rule: join.induct) auto

lemma squash_eq_Nil: "squash s = [] \<longleftrightarrow> (\<forall>c \<in> set s. is_space c)"
  unfolding squash_def using split_ws_word
  by (subst join_eq_Nil) (auto simp: split_ws_eq_Nil)

lemma words_from_append_word:
  "\<forall>c \<in> set x. \<not> is_space c \<Longrightarrow> words_from (x @ r) w = words_from r (rev x @ w)"
  by (induction x arbitrary: w) auto

lemma words_from_join:
  assumes "\<forall>x \<in> set xs. x \<noteq> [] \<and> (\<forall>c \<in> set x. \<not> is_space c)"
  shows "words_from (join [32] xs) [] = xs"
  using assms
proof (induction "[32::nat]" xs rule: join.induct)
  case (2 x)
  then have "words_from (x @ []) [] = [x]"
    by (subst words_from_append_word) (auto simp: words_from_append_word)
  then show ?case by simp
next
  case (3 x y ys)
  have "is_space 32" by (simp add: is_space_def)
  with 3 show ?case by (auto simp: words_from_append_word)
qed simp

lemma squash_idem [simp]: "squash (squash s) = squash s"
proof -
  have "split_ws (squash s) = split_ws s"
    unfolding squash_def split_ws_def [of "join _ _"]
    by (rule words_from_join) (use split_ws_word in blast)
  then show ?thesis by (simp add: squash_def)
qed

lemma split_on_nonempty [simp]: "split_on c s \<noteq> []"
  by (induction s) (auto split: list.splits)

lemma join_split_on: "join [c] (split_on c s) = s"
proof (induction s)
  case (Cons x s)
  obtain w ws where "split_on c s = w # ws" by (cases "split_on c s") auto
  with Cons show ?case by (cases ws) auto
qed simp

lemma split_on_free: "w \<in> set (split_on c s) \<Longrightarrow> c \<notin> set w"
  by (induction s arbitrary: w) (auto split: list.splits if_splits)

lemma split_on_single: "c \<notin> set s \<Longrightarrow> split_on c s = [s]"
  by (induction s) auto

lemma split_on_append: "c \<notin> set a \<Longrightarrow> split_on c (a @ c # b) = a # split_on c b"
  by (induction a) auto

lemma starts_with_iff: "starts_with p s \<longleftrightarrow> (\<exists>r. s = p @ r)"
  unfolding starts_with_def by (metis append_eq_conv_conj append_take_drop_id)

lemma contains_iff: "contains n h \<longleftrightarrow> (\<exists>a b. h = a @ n @ b)"
proof (induction h)
  case (Cons c cs)
  show ?case
  proof
    assume "contains n (c # cs)"
    then consider "starts_with n (c # cs)" | "contains n cs" by auto
    then show "\<exists>a b. c # cs = a @ n @ b"
    proof cases
      case 1
      then show ?thesis by (auto simp: starts_with_iff intro: exI [of _ "[]"])
    next
      case 2
      with Cons.IH obtain a b where "cs = a @ n @ b" by blast
      then have "c # cs = (c # a) @ n @ b" by simp
      then show ?thesis by blast
    qed
  next
    assume "\<exists>a b. c # cs = a @ n @ b"
    then obtain a b where ab: "c # cs = a @ n @ b" by blast
    show "contains n (c # cs)"
    proof (cases a)
      case Nil
      with ab have "starts_with n (c # cs)" by (simp add: starts_with_iff)
      then show ?thesis by simp
    next
      case (Cons d ds)
      with ab have "cs = ds @ n @ b" by simp
      with Cons.IH show ?thesis by auto
    qed
  qed
qed auto

lemma length_slice [simp]: "length (slice s a b) = min (b - a) (length s - a)"
  by (simp add: slice_def)

lemma rfind_bounds:
  assumes "rfind s sub st en = int i"
  shows "st \<le> i \<and> i + length sub \<le> en"
  using assms by (auto simp: rfind_def split: option.splits dest!: find_SomeD)

lemma rfind_cases: "rfind s sub st en = - 1 \<or> (\<exists>i. rfind s sub st en = int i)"
  by (auto simp: rfind_def split: option.splits)

lemma rfind_matches:
  assumes "rfind s sub st en = int i"
  shows "slice s i (i + length sub) = sub"
  using assms by (auto simp: rfind_def split: option.splits dest!: find_SomeD)

lemma hex_digit_is_hex: "d < 16 \<Longrightarrow> is_hex (hex_digit d)"
  by (auto simp: is_hex_def hex_digit_def ascii_digit_def)

lemma length_hex_pad [simp]: "length (hex_pad k n) = k"
  by (induction k arbitrary: n) auto

lemma hex_pad_is_hex: "c \<in> set (hex_pad k n) \<Longrightarrow> is_hex c"
  by (induction k arbitrary: n) (auto simp: hex_digit_is_hex)

lemma str_nat_nonempty [simp]: "str_nat n \<noteq> []"
  by (subst str_nat.simps) simp

lemma str_nat_digits: "c \<in> set (str_nat n) \<Longrightarrow> ascii_digit c"
proof (induction n rule: str_nat.induct)
  case (1 n)
  then show ?case
    by (subst (asm) (2) str_nat.simps) (auto simp: ascii_digit_def split: if_splits)
qed

text \<open>Decimal text determines the number.\<close>

definition digits_value :: "pystr \<Rightarrow> nat" where
  "digits_value s = foldl (\<lambda>a c. 10 * a + (c - 48)) 0 s"

lemma digits_value_str_nat [simp]: "digits_value (str_nat n) = n"
proof (induction n rule: str_nat.induct)
  case (1 n)
  show ?case
  proof (cases "n < 10")
    case True
    then show ?thesis by (subst str_nat.simps) (simp add: digits_value_def)
  next
    case False
    with 1 have "digits_value (str_nat (n div 10)) = n div 10" by blast
    with False show ?thesis by (subst str_nat.simps) (simp add: digits_value_def)
  qed
qed

lemma str_nat_inject [simp]: "str_nat a = str_nat b \<longleftrightarrow> a = b"
  by (metis digits_value_str_nat)

lemma utf8_encode_append:
  "utf8_encode (a @ b) =
     (case utf8_encode a of None \<Rightarrow> None
      | Some x \<Rightarrow> (case utf8_encode b of None \<Rightarrow> None | Some y \<Rightarrow> Some (x @ y)))"
  by (induction a) (auto split: option.splits)

lemma utf8_head_char:
  assumes "utf8_char c = Some (a # bs)" and "c < 1114112"
  shows "utf8_head a (bs @ rest) = Some (c, rest)"
proof -
  have split2: "c div 64 * 64 + c mod 64 = c" by simp
  have split3: "(c div 4096 * 64 + c div 64 mod 64) * 64 + c mod 64 = c"
  proof -
    have "c div 4096 = c div 64 div 64" by (simp add: div_mult2_eq [symmetric])
    then show ?thesis by simp
  qed
  have split4: "((c div 262144 * 64 + c div 4096 mod 64) * 64 + c div 64 mod 64) * 64 + c mod 64 = c"
  proof -
    have "c div 4096 = c div 64 div 64" "c div 262144 = c div 4096 div 64"
      by (simp_all add: div_mult2_eq [symmetric])
    then show ?thesis by simp
  qed
  consider "c < 128" | "128 \<le> c" "c < 2048" | "2048 \<le> c" "c < 65536" | "65536 \<le> c" by linarith
  then show ?thesis
  proof cases
    case 1
    with assms have "a = c" "bs = []" by (simp_all add: utf8_char_def)
    with 1 show ?thesis by (simp add: utf8_head_def utf8_join_def)
  next
    case 2
    then have a: "a = 192 + c div 64" "bs = [128 + c mod 64]" "c div 64 < 32"
      using assms(1) by (auto simp: utf8_char_def)
    then have "utf8_join (a - 192) (take 1 (bs @ rest)) = c" "list_all utf8_tail (take 1 (bs @ rest))"
      using split2 by (simp_all add: utf8_join_def utf8_tail_def)
    with a(1,3) 2 show ?thesis unfolding utf8_head_def Let_def by (simp add: a(2))
  next
    case 3
    then have a: "a = 224 + c div 4096" "bs = [128 + c div 64 mod 64, 128 + c mod 64]"
      "c div 4096 < 16" "\<not> (55296 \<le> c \<and> c < 57344)"
      using assms(1) by (auto simp: utf8_char_def split: if_splits)
    then have "utf8_join (a - 224) (take 2 (bs @ rest)) = c" "list_all utf8_tail (take 2 (bs @ rest))"
      using split3 by (simp_all add: utf8_join_def utf8_tail_def)
    with a(1,3,4) 3 show ?thesis unfolding utf8_head_def Let_def by (simp add: a(2))
  next
    case 4
    then have a: "a = 240 + c div 262144"
      "bs = [128 + c div 4096 mod 64, 128 + c div 64 mod 64, 128 + c mod 64]"
      using assms(1) by (auto simp: utf8_char_def)
    then have "utf8_join (a - 240) (take 3 (bs @ rest)) = c" "list_all utf8_tail (take 3 (bs @ rest))"
      using split4 by (simp_all add: utf8_join_def utf8_tail_def)
    with a(1) 4 assms(2) show ?thesis unfolding utf8_head_def Let_def by (simp add: a(2))
  qed
qed

lemma utf8_decode_char:
  assumes "utf8_char c = Some bs" and "c < 1114112"
  shows "utf8_decode (bs @ rest) = map_option (Cons c) (utf8_decode rest)"
proof -
  from assms(1) obtain a ds where "bs = a # ds" by (auto simp: utf8_char_def split: if_splits)
  with assms utf8_head_char show ?thesis by simp
qed

lemma utf8_roundtrip:
  "utf8_encode s = Some bs \<Longrightarrow> \<forall>c \<in> set s. c < 1114112 \<Longrightarrow> utf8_decode bs = Some s"
proof (induction s arbitrary: bs)
  case (Cons c cs)
  then obtain b ds where "utf8_char c = Some b" "utf8_encode cs = Some ds" "bs = b @ ds"
    by (auto split: option.splits)
  with Cons show ?case by (simp add: utf8_decode_char)
qed simp

lemma strip_middle:
  assumes "p \<noteq> []" "\<not> is_space (hd p)" "\<not> is_space (last p)"
  shows "strip (a @ p @ b) = lstrip a @ p @ rstrip b"
proof -
  have front: "lstrip (u @ p @ v) = lstrip u @ p @ v" for u v
    using assms by (cases p; induction u) (auto simp: lstrip_def)
  have "rstrip (u @ p @ v) = u @ p @ rstrip v" for u v
  proof (induction v rule: rev_induct)
    case Nil
    from assms show ?case by (cases p rule: rev_cases) (auto simp: rstrip_def)
  next
    case (snoc x v)
    then show ?case by (auto simp: rstrip_def)
  qed
  with front show ?thesis by (simp add: strip_def)
qed

lemma strip_ends:
  assumes "strip p = p" and "p \<noteq> []"
  shows "\<not> is_space (hd p)" "\<not> is_space (last p)"
proof -
  have a: "rstrip s \<noteq> [] \<Longrightarrow> \<not> is_space (last (rstrip s))" for s
    using hd_dropWhile [of is_space "rev s"] by (auto simp: rstrip_def last_rev)
  have b: "rstrip s \<noteq> [] \<Longrightarrow> hd (rstrip s) = hd s" for s
    by (induction s rule: rev_induct) (auto simp: rstrip_def hd_append)
  have c: "lstrip s \<noteq> [] \<Longrightarrow> \<not> is_space (hd (lstrip s))" for s
    using hd_dropWhile [of is_space s] by (auto simp: lstrip_def)
  from assms have s: "rstrip (lstrip p) = p" by (simp add: strip_def)
  show "\<not> is_space (last p)" using a [of "lstrip p"] s assms(2) by simp
  from s assms(2) have "lstrip p \<noteq> []" by (auto simp: rstrip_def)
  with b [of "lstrip p"] c [of p] s assms(2) show "\<not> is_space (hd p)" by simp
qed

lemma contains_strip:
  assumes "contains p s" "strip p = p" "p \<noteq> []"
  shows "contains p (strip s)"
proof -
  from assms(1) obtain a b where "s = a @ p @ b" by (auto simp: contains_iff)
  with strip_middle [OF assms(3) strip_ends [OF assms(2,3)]]
  show ?thesis by (auto simp: contains_iff)
qed

lemma strip_sublist: "\<exists>a b. s = a @ strip s @ b"
proof -
  have "s = takeWhile is_space s @ lstrip s" by (simp add: lstrip_def)
  moreover have "t = rstrip t @ rev (takeWhile is_space (rev t))" for t
    using arg_cong [OF takeWhile_dropWhile_id [of is_space "rev t"], of rev]
    by (simp only: rstrip_def rev_append rev_rev_ident)
  ultimately show ?thesis unfolding strip_def by metis
qed

lemma length_strip: "length (strip s) \<le> length s"
  by (metis strip_sublist le_add1 le_add2 length_append order_trans)

lemma strip_idem [simp]: "strip (strip s) = strip s"
proof (cases "strip s = []")
  case False
  have rr: "rstrip (rstrip t) = rstrip t" for t by (simp add: rstrip_def)
  have ll: "lstrip (lstrip t) = lstrip t" for t by (simp add: lstrip_def)
  have lr: "lstrip t = t \<Longrightarrow> lstrip (rstrip t) = rstrip t" for t
  proof (induction t rule: rev_induct)
    case (snoc x xs)
    show ?case
    proof (cases "is_space x")
      case True
      have "lstrip xs = xs"
      proof (cases xs)
        case (Cons y ys)
        with snoc.prems have "\<not> is_space y"
          by (metis append_Cons dropWhile.simps(2) hd_dropWhile list.discI list.sel(1) lstrip_def)
        with Cons show ?thesis by (simp add: lstrip_def)
      qed (simp add: lstrip_def)
      with snoc.IH True show ?thesis by (simp add: rstrip_def)
    next
      case False
      with snoc.prems show ?thesis by (simp add: rstrip_def)
    qed
  qed (simp add: rstrip_def lstrip_def)
  show ?thesis unfolding strip_def using rr lr [OF ll] by simp
qed simp

lemma contains_trans: "contains a b \<Longrightarrow> contains b c \<Longrightarrow> contains a c"
  unfolding contains_iff by (metis append.assoc)

lemma contains_strip_self: "contains (strip s) s"
  using strip_sublist [of s] by (auto simp: contains_iff)

lemma contains_join: "x \<in> set xs \<Longrightarrow> contains x (join sep xs)"
proof (induction sep xs rule: join.induct)
  case (3 sep y z zs)
  have "contains (join sep (z # zs)) (y @ sep @ join sep (z # zs))"
    unfolding contains_iff by (metis append.assoc append_Nil2)
  moreover have "contains y (y @ sep @ join sep (z # zs))"
    unfolding contains_iff by (metis append_Nil)
  ultimately show ?case using 3 contains_trans by (auto simp del: contains.simps)
next
  case (2 sep y)
  then show ?case by (simp add: contains_iff) (metis append_Nil append_Nil2)
qed simp

end
