(* ===== verification/Errors.thy ===== *)
theory Errors
  imports PyText
begin

text \<open>
  The exception classes of the service, one datatype per module that declares them
  (\<open>query_safety/errors.py\<close>, \<open>llm/errors.py\<close>, \<open>nl2sql/errors.py\<close>, \<open>data_sources/errors.py\<close>,
  \<open>retrieval/errors.py\<close>, \<open>agent/service.py\<close>), and the built-in or library exceptions the
  handlers name. The sum \<open>exn\<close> of these families mirrors the class hierarchy: an
  \<open>except QuerySafetyError\<close> clause is a match on the constructor \<open>QuerySafety\<close>.
\<close>

datatype query_safety_error =
    SQLPolicyViolationError (sql_reason: pystr)
  | QueryTimeoutError | QueryPermissionError | QueryExecutionError | QueryResultLimitError
  | QueryAuditError
  | QueryApprovalRequiredError (approval_reason_code: pystr) (approval_cost: real)
      (approval_rows: int)

datatype llm_error =
    LLMConfigurationError | LLMAuthenticationError | LLMRequestRejectedError
  | LLMRateLimitError | LLMTimeoutError | LLMUnavailableError
  | LLMInvalidResponseError (validation_issues: "pystr list")

datatype nl2sql_error =
    NL2SQLPolicyError (policy_reason: pystr) | SchemaSelectionError
  | NL2SQLRepairExhaustedError (last_error_code: pystr)

datatype data_source_error = DataSourceUnavailableError | DataSourcePermissionError

datatype retrieval_error =
    DocumentParseError | DocumentLimitError | RetrievalStoreError | EmbeddingProfileError
  | RetrievalProviderError

datatype workflow_error = WorkflowConflictError pystr | WorkflowIdentityError pystr

text \<open>
  Library exceptions: \<open>httpx.TimeoutException\<close> and \<open>NetworkError\<close> are
  \<open>TransportError\<close>s, \<open>psycopg\<close>'s
  \<open>QueryCanceled\<close> is an \<open>OperationalError\<close>, the built-in \<open>TimeoutError\<close> is an \<open>OSError\<close>, and
  pydantic's \<open>ValidationError\<close> and \<open>json.JSONDecodeError\<close> are \<open>ValueError\<close>s.
\<close>

datatype http_error = HttpTimeout | HttpNetwork | HttpTransport | HttpStatusError int

datatype pg_error = PgQueryCanceled | PgInsufficientPrivilege | PgOperationalError | PgOther

datatype py_error =
    ValueError pystr | TypeError | KeyError | IndexError | AssertionError
  | BuiltinTimeoutError | OSError | OtherError (other_name: pystr)

datatype exn =
    QuerySafety query_safety_error | LLM llm_error | NL2SQL nl2sql_error
  | DataSource data_source_error | Retrieval retrieval_error | Workflow workflow_error
  | Http http_error | Pg pg_error | Py py_error

text \<open>
  \<open>ValueError(m)\<close>, also pydantic's \<open>ValidationError\<close> of the model \<open>m\<close>, and the
  \<open>UnicodeEncodeError\<close> of \<open>str.encode\<close>.
\<close>

definition validation_error :: "string \<Rightarrow> exn" where
  "validation_error m = Py (ValueError (lit m))"

definition encode_error :: exn where
  "encode_error = Py (ValueError (lit ''UnicodeEncodeError''))"

section \<open>Class tests\<close>

fun is_query_safety_error :: "exn \<Rightarrow> bool" where
  "is_query_safety_error (QuerySafety _) = True"
| "is_query_safety_error _ = False"

fun is_llm_error :: "exn \<Rightarrow> bool" where
  "is_llm_error (LLM _) = True"
| "is_llm_error _ = False"

fun is_os_error :: "exn \<Rightarrow> bool" where
  "is_os_error (Py OSError) = True"
| "is_os_error (Py BuiltinTimeoutError) = True"
| "is_os_error _ = False"

fun is_pg_operational :: "exn \<Rightarrow> bool" where
  "is_pg_operational (Pg PgQueryCanceled) = True"
| "is_pg_operational (Pg PgOperationalError) = True"
| "is_pg_operational _ = False"

section \<open>Class attributes\<close>

fun query_safety_code :: "query_safety_error \<Rightarrow> pystr" where
  "query_safety_code (SQLPolicyViolationError _) = lit ''SQL_POLICY_VIOLATION''"
| "query_safety_code QueryTimeoutError = lit ''QUERY_TIMEOUT''"
| "query_safety_code QueryPermissionError = lit ''QUERY_PERMISSION_DENIED''"
| "query_safety_code QueryExecutionError = lit ''QUERY_EXECUTION_FAILED''"
| "query_safety_code QueryResultLimitError = lit ''QUERY_RESULT_LIMIT_EXCEEDED''"
| "query_safety_code QueryAuditError = lit ''QUERY_AUDIT_FAILED''"
| "query_safety_code (QueryApprovalRequiredError _ _ _) = lit ''QUERY_APPROVAL_REQUIRED''"

fun llm_code :: "llm_error \<Rightarrow> pystr" where
  "llm_code LLMConfigurationError = lit ''LLM_CONFIGURATION_ERROR''"
| "llm_code LLMAuthenticationError = lit ''LLM_AUTHENTICATION_ERROR''"
| "llm_code LLMRequestRejectedError = lit ''LLM_REQUEST_REJECTED''"
| "llm_code LLMRateLimitError = lit ''LLM_RATE_LIMITED''"
| "llm_code LLMTimeoutError = lit ''LLM_TIMEOUT''"
| "llm_code LLMUnavailableError = lit ''LLM_UNAVAILABLE''"
| "llm_code (LLMInvalidResponseError _) = lit ''LLM_INVALID_RESPONSE''"

fun nl2sql_code :: "nl2sql_error \<Rightarrow> pystr" where
  "nl2sql_code (NL2SQLPolicyError _) = lit ''NL2SQL_QUESTION_REJECTED''"
| "nl2sql_code SchemaSelectionError = lit ''NL2SQL_SCHEMA_SELECTION_FAILED''"
| "nl2sql_code (NL2SQLRepairExhaustedError _) = lit ''NL2SQL_REPAIR_EXHAUSTED''"

fun data_source_code :: "data_source_error \<Rightarrow> pystr" where
  "data_source_code DataSourceUnavailableError = lit ''DATA_SOURCE_UNAVAILABLE''"
| "data_source_code DataSourcePermissionError = lit ''DATA_SOURCE_PERMISSION_DENIED''"

fun retrieval_code :: "retrieval_error \<Rightarrow> pystr" where
  "retrieval_code DocumentParseError = lit ''DOCUMENT_INVALID''"
| "retrieval_code DocumentLimitError = lit ''DOCUMENT_LIMIT_EXCEEDED''"
| "retrieval_code RetrievalStoreError = lit ''RETRIEVAL_STORE_UNAVAILABLE''"
| "retrieval_code EmbeddingProfileError = lit ''RAG_REINDEX_REQUIRED''"
| "retrieval_code RetrievalProviderError = lit ''RETRIEVAL_PROVIDER_FAILED''"

fun workflow_code :: "workflow_error \<Rightarrow> pystr" where
  "workflow_code (WorkflowConflictError _) = lit ''WORKFLOW_NOT_WAITING_APPROVAL''"
| "workflow_code (WorkflowIdentityError _) = lit ''WORKFLOW_IDENTITY_MISMATCH''"

text \<open>The attribute \<open>code\<close>: \<open>None\<close> where the class has none.\<close>

fun exn_code :: "exn \<Rightarrow> pystr option" where
  "exn_code (QuerySafety e) = Some (query_safety_code e)"
| "exn_code (LLM e) = Some (llm_code e)"
| "exn_code (NL2SQL e) = Some (nl2sql_code e)"
| "exn_code (DataSource e) = Some (data_source_code e)"
| "exn_code (Retrieval e) = Some (retrieval_code e)"
| "exn_code (Workflow e) = Some (workflow_code e)"
| "exn_code _ = None"

text \<open>The attribute \<open>reason_code\<close> of the three classes that have one.\<close>

fun reason_code_attr :: "exn \<Rightarrow> pystr option" where
  "reason_code_attr (QuerySafety (SQLPolicyViolationError r)) = Some r"
| "reason_code_attr (QuerySafety (QueryApprovalRequiredError r _ _)) = Some r"
| "reason_code_attr (NL2SQL (NL2SQLPolicyError r)) = Some r"
| "reason_code_attr _ = None"

text \<open>\<open>retryable\<close> of the language-model errors.\<close>

fun retryable :: "llm_error \<Rightarrow> bool" where
  "retryable LLMRateLimitError = True"
| "retryable LLMTimeoutError = True"
| "retryable LLMUnavailableError = True"
| "retryable (LLMInvalidResponseError _) = True"
| "retryable _ = False"

section \<open>Class names\<close>

fun query_safety_name :: "query_safety_error \<Rightarrow> pystr" where
  "query_safety_name (SQLPolicyViolationError _) = lit ''SQLPolicyViolationError''"
| "query_safety_name QueryTimeoutError = lit ''QueryTimeoutError''"
| "query_safety_name QueryPermissionError = lit ''QueryPermissionError''"
| "query_safety_name QueryExecutionError = lit ''QueryExecutionError''"
| "query_safety_name QueryResultLimitError = lit ''QueryResultLimitError''"
| "query_safety_name QueryAuditError = lit ''QueryAuditError''"
| "query_safety_name (QueryApprovalRequiredError _ _ _) = lit ''QueryApprovalRequiredError''"

fun llm_name :: "llm_error \<Rightarrow> pystr" where
  "llm_name LLMConfigurationError = lit ''LLMConfigurationError''"
| "llm_name LLMAuthenticationError = lit ''LLMAuthenticationError''"
| "llm_name LLMRequestRejectedError = lit ''LLMRequestRejectedError''"
| "llm_name LLMRateLimitError = lit ''LLMRateLimitError''"
| "llm_name LLMTimeoutError = lit ''LLMTimeoutError''"
| "llm_name LLMUnavailableError = lit ''LLMUnavailableError''"
| "llm_name (LLMInvalidResponseError _) = lit ''LLMInvalidResponseError''"

fun nl2sql_name :: "nl2sql_error \<Rightarrow> pystr" where
  "nl2sql_name (NL2SQLPolicyError _) = lit ''NL2SQLPolicyError''"
| "nl2sql_name SchemaSelectionError = lit ''SchemaSelectionError''"
| "nl2sql_name (NL2SQLRepairExhaustedError _) = lit ''NL2SQLRepairExhaustedError''"

fun retrieval_name :: "retrieval_error \<Rightarrow> pystr" where
  "retrieval_name DocumentParseError = lit ''DocumentParseError''"
| "retrieval_name DocumentLimitError = lit ''DocumentLimitError''"
| "retrieval_name RetrievalStoreError = lit ''RetrievalStoreError''"
| "retrieval_name EmbeddingProfileError = lit ''EmbeddingProfileError''"
| "retrieval_name RetrievalProviderError = lit ''RetrievalProviderError''"

fun pg_name :: "pg_error \<Rightarrow> pystr" where
  "pg_name PgQueryCanceled = lit ''QueryCanceled''"
| "pg_name PgInsufficientPrivilege = lit ''InsufficientPrivilege''"
| "pg_name PgOperationalError = lit ''OperationalError''"
| "pg_name PgOther = lit ''Error''"

fun py_name :: "py_error \<Rightarrow> pystr" where
  "py_name (ValueError _) = lit ''ValueError''"
| "py_name TypeError = lit ''TypeError''"
| "py_name KeyError = lit ''KeyError''"
| "py_name IndexError = lit ''IndexError''"
| "py_name AssertionError = lit ''AssertionError''"
| "py_name BuiltinTimeoutError = lit ''TimeoutError''"
| "py_name OSError = lit ''OSError''"
| "py_name (OtherError n) = n"

text \<open>\<open>type(error).__name__\<close>\<close>

fun exn_name :: "exn \<Rightarrow> pystr" where
  "exn_name (QuerySafety e) = query_safety_name e"
| "exn_name (LLM e) = llm_name e"
| "exn_name (NL2SQL e) = nl2sql_name e"
| "exn_name (DataSource DataSourceUnavailableError) = lit ''DataSourceUnavailableError''"
| "exn_name (DataSource DataSourcePermissionError) = lit ''DataSourcePermissionError''"
| "exn_name (Retrieval e) = retrieval_name e"
| "exn_name (Workflow (WorkflowConflictError _)) = lit ''WorkflowConflictError''"
| "exn_name (Workflow (WorkflowIdentityError _)) = lit ''WorkflowIdentityError''"
| "exn_name (Http HttpTimeout) = lit ''TimeoutException''"
| "exn_name (Http HttpNetwork) = lit ''NetworkError''"
| "exn_name (Http HttpTransport) = lit ''TransportError''"
| "exn_name (Http (HttpStatusError _)) = lit ''HTTPStatusError''"
| "exn_name (Pg e) = pg_name e"
| "exn_name (Py e) = py_name e"

text \<open>\<open>type(error).__name__.upper()\<close>; class names are ASCII identifiers.\<close>

definition exn_name_upper :: "exn \<Rightarrow> pystr" where
  "exn_name_upper e = map ascii_upper1 (exn_name e)"

lemma query_safety_code_nonempty [simp]: "query_safety_code e \<noteq> []"
  by (cases e) auto

lemma llm_code_nonempty [simp]: "llm_code e \<noteq> []"
  by (cases e) auto

end
