(* ===== verification/PyJson.thy ===== *)
theory PyJson
  imports PyText
begin

text \<open>
  JSON values and \<open>json.dumps\<close>: separators, \<open>ensure_ascii\<close> and \<open>sort_keys\<close> as the calls give
  them. Objects keep their key order, as Python's \<open>dict\<close> does. The decimal text of a
  \<open>float\<close> (\<open>float.__repr__\<close>) is the field \<open>float_repr\<close> of the style.
\<close>

datatype json =
    JNull | JBool bool | JInt int | JFloat real | JStr pystr
  | JList "json list" | JObj "(pystr \<times> json) list"

record json_style =
  item_sep :: pystr
  key_sep :: pystr
  ensure_ascii :: bool
  float_repr :: "real \<Rightarrow> pystr"

definition compact_style :: "(real \<Rightarrow> pystr) \<Rightarrow> json_style" where
  "compact_style fr =
     \<lparr>item_sep = lit '','', key_sep = lit '':'', ensure_ascii = False, float_repr = fr\<rparr>"

definition default_style :: "bool \<Rightarrow> (real \<Rightarrow> pystr) \<Rightarrow> json_style" where
  "default_style asc fr =
     \<lparr>item_sep = lit '', '', key_sep = lit '': '', ensure_ascii = asc, float_repr = fr\<rparr>"

definition u_escape :: "nat \<Rightarrow> pystr" where
  "u_escape c = [92, 117] @ hex_pad 4 c"

definition escape_char :: "bool \<Rightarrow> nat \<Rightarrow> pystr" where
  "escape_char asc c =
     (if c = 34 then [92, 34] else if c = 92 then [92, 92]
      else if c = 10 then [92, 110] else if c = 13 then [92, 114]
      else if c = 9 then [92, 116] else if c = 12 then [92, 102]
      else if c = 8 then [92, 98] else if c < 32 then u_escape c
      else if asc \<and> 126 < c then
        (if c < 65536 then u_escape c
         else u_escape (55296 + (c - 65536) div 1024) @ u_escape (56320 + (c - 65536) mod 1024))
      else [c])"

definition json_string :: "bool \<Rightarrow> pystr \<Rightarrow> pystr" where
  "json_string asc s = 34 # concat (map (escape_char asc) s) @ [34]"

fun dumps :: "json_style \<Rightarrow> json \<Rightarrow> pystr" where
  "dumps st JNull = lit ''null''"
| "dumps st (JBool b) = (if b then lit ''true'' else lit ''false'')"
| "dumps st (JInt i) = str_int i"
| "dumps st (JFloat x) = float_repr st x"
| "dumps st (JStr s) = json_string (ensure_ascii st) s"
| "dumps st (JList xs) = lit ''['' @ join (item_sep st) (map (dumps st) xs) @ lit '']''"
| "dumps st (JObj kvs) =
     lit ''{'' @ join (item_sep st)
       (map (\<lambda>(k, v). json_string (ensure_ascii st) k @ key_sep st @ dumps st v) kvs)
     @ lit ''}''"

text \<open>\<open>sort_keys=True\<close>\<close>

fun sort_keys :: "json \<Rightarrow> json" where
  "sort_keys (JList xs) = JList (map sort_keys xs)"
| "sort_keys (JObj kvs) = JObj (sort_key fst (map (\<lambda>(k, v). (k, sort_keys v)) kvs))"
| "sort_keys j = j"

text \<open>\<open>None\<close> or a text.\<close>

fun jopt :: "pystr option \<Rightarrow> json" where
  "jopt None = JNull"
| "jopt (Some s) = JStr s"

definition jstrs :: "pystr list \<Rightarrow> json" where
  "jstrs xs = JList (map JStr xs)"

text \<open>
  Python's \<open>==\<close> on these values: numbers and booleans compare by value whatever their type,
  objects by key whatever their order.
\<close>

fun num_value :: "json \<Rightarrow> real option" where
  "num_value (JBool b) = Some (if b then 1 else 0)"
| "num_value (JInt i) = Some (real_of_int i)"
| "num_value (JFloat x) = Some x"
| "num_value _ = None"

fun py_eq :: "json \<Rightarrow> json \<Rightarrow> bool" where
  "py_eq (JList xs) (JList ys) = list_all2 py_eq xs ys"
| "py_eq (JObj kvs) (JObj lvs) = (length kvs = length lvs
     \<and> list_all (\<lambda>(k, v). case map_of lvs k of None \<Rightarrow> False | Some w \<Rightarrow> py_eq v w) kvs)"
| "py_eq JNull JNull = True"
| "py_eq (JStr a) (JStr b) = (a = b)"
| "py_eq a b = (num_value a \<noteq> None \<and> num_value a = num_value b)"

text \<open>The size in bytes of a text in UTF-8, where it can be encoded.\<close>

definition byte_size :: "pystr \<Rightarrow> nat option" where
  "byte_size s = map_option length (utf8_encode s)"

lemma byte_size_append:
  "byte_size (a @ b) =
     (case byte_size a of None \<Rightarrow> None
      | Some m \<Rightarrow> (case byte_size b of None \<Rightarrow> None | Some n \<Rightarrow> Some (m + n)))"
  by (auto simp: byte_size_def utf8_encode_append split: option.splits)

lemma byte_size_Nil [simp]: "byte_size [] = Some 0"
  by (simp add: byte_size_def)

lemma byte_size_Cons:
  "byte_size (c # cs) =
     (case utf8_char c of None \<Rightarrow> None
      | Some b \<Rightarrow> (case byte_size cs of None \<Rightarrow> None | Some n \<Rightarrow> Some (length b + n)))"
  by (auto simp: byte_size_def split: option.splits)

lemma dumps_nonempty: "dumps st (JObj kvs) \<noteq> []" "dumps st (JList xs) \<noteq> []"
  "dumps st (JStr s) \<noteq> []"
  by (auto simp: json_string_def)

text \<open>Joining with one more item costs a separator and the item.\<close>

lemma join_snoc: "xs \<noteq> [] \<Longrightarrow> join sep (xs @ [x]) = join sep xs @ sep @ x"
  by (induction sep xs rule: join.induct) auto

end
