(* ===== verification/Expiring_Store.thy ===== *)
theory Expiring_Store
  imports CopilotPrelude
begin

text \<open>
  The contract shared by the two time-to-live caches of the service (\<open>metadata/cache.py\<close> and
  \<open>retrieval/cache.py\<close>): a value stored under a key at clock time \<open>t\<close> is returned for that key
  while the clock is below \<open>t + ttl\<close>, other keys are not affected, and storing keeps the
  configuration. Both caches are interpretations of this locale.
\<close>

locale expiring_store =
  fixes look :: "'s \<Rightarrow> 'k \<Rightarrow> real \<Rightarrow> 'v option"
    and put :: "'s \<Rightarrow> 'k \<Rightarrow> 'v \<Rightarrow> real \<Rightarrow> 's"
    and ttl_of :: "'s \<Rightarrow> real"
    and ok :: "'s \<Rightarrow> bool"
  assumes ttl_pos: "ok s \<Longrightarrow> 0 < ttl_of s"
    and ok_put: "ok s \<Longrightarrow> ok (put s k v t)"
    and ttl_put: "ok s \<Longrightarrow> ttl_of (put s k v t) = ttl_of s"
    and look_put: "ok s \<Longrightarrow> look (put s k v t) k' t' =
      (if k' = k then (if t' < t + ttl_of s then Some v else None) else look s k' t')"
begin

lemma look_put_same: "ok s \<Longrightarrow> look (put s k v t) k t = Some v"
  using ttl_pos [of s] by (simp add: look_put)

lemma look_put_expired: "ok s \<Longrightarrow> t + ttl_of s \<le> t' \<Longrightarrow> look (put s k v t) k t' = None"
  by (simp add: look_put)

lemma ok_puts: "ok s \<Longrightarrow> ok (fold (\<lambda>(k, v, t) s. put s k v t) ops s)"
  by (induction ops arbitrary: s) (auto simp: ok_put)

lemma ttl_puts: "ok s \<Longrightarrow> ttl_of (fold (\<lambda>(k, v, t) s. put s k v t) ops s) = ttl_of s"
  by (induction ops arbitrary: s) (auto simp: ok_put ttl_put)

text \<open>
  Over any history of stores a hit was stored under that key less than \<open>ttl\<close> ago, or was in
  the store at the start.
\<close>

lemma look_puts:
  assumes "ok s" and "look (fold (\<lambda>(k, v, t) s. put s k v t) ops s) k t = Some v"
  shows "look s k t = Some v \<or> (\<exists>t0. (k, v, t0) \<in> set ops \<and> t < t0 + ttl_of s)"
  using assms
proof (induction ops rule: rev_induct)
  case (snoc op ops)
  obtain k1 v1 t1 where op: "op = (k1, v1, t1)" by (cases op)
  let ?s = "fold (\<lambda>(k, v, t) s. put s k v t) ops s"
  from snoc.prems have ok: "ok ?s" by (intro ok_puts)
  from snoc.prems op have "look (put ?s k1 v1 t1) k t = Some v" by simp
  with ok ttl_puts [OF snoc.prems(1)] show ?case
    using snoc.IH [OF snoc.prems(1)] op by (auto simp: look_put split: if_splits)
qed simp

end

end
