(* ===== verification/Metadata.thy ===== *)
theory Metadata
  imports Errors PyJson Expiring_Store "HOL-Library.Option_ord"
begin

text \<open>
  The schema metadata component: the models of \<open>metadata/models.py\<close>, the assembly of a
  snapshot from catalog rows (\<open>build_snapshot\<close> in \<open>metadata/introspection.py\<close>; the SQL that
  produces the rows runs in PostgreSQL and is an argument), and the loading cache of
  \<open>metadata/cache.py\<close>.
\<close>

section \<open>Models\<close>

record column_metadata =
  col_name :: pystr
  col_position :: int
  col_data_type :: pystr
  col_nullable :: bool
  col_comment :: "pystr option"

record primary_key_metadata =
  pk_name :: pystr
  pk_columns :: "pystr list"

record foreign_key_metadata =
  fk_name :: pystr
  fk_columns :: "pystr list"
  referenced_schema :: pystr
  referenced_table :: pystr
  referenced_columns :: "pystr list"

record table_metadata =
  table_name :: pystr
  table_comment :: "pystr option"
  table_columns :: "column_metadata list"
  primary_key :: "primary_key_metadata option"
  foreign_keys :: "foreign_key_metadata list"

record schema_snapshot =
  format_version :: pystr
  snap_source_id :: pystr
  schema_name :: pystr
  schema_version :: pystr
  dataset_version :: pystr
  snap_tables :: "table_metadata list"

section \<open>Catalog rows\<close>

record column_row =
  cr_table :: pystr
  cr_table_comment :: "pystr option"
  cr_column :: pystr
  cr_position :: int
  cr_type :: pystr
  cr_nullable :: bool
  cr_comment :: "pystr option"

record key_row =
  kr_table :: pystr
  kr_constraint :: pystr
  kr_columns :: "pystr list"

record reference_row = key_row +
  rr_schema :: pystr
  rr_table :: pystr
  rr_columns :: "pystr list"

record catalog =
  cat_columns :: "column_row list"
  cat_primary_keys :: "key_row list"
  cat_foreign_keys :: "reference_row list"
  cat_version :: "pystr option"

section \<open>JSON form of the models\<close>

definition column_json :: "column_metadata \<Rightarrow> json" where
  "column_json c = JObj
     [(lit ''name'', JStr (col_name c)), (lit ''ordinal_position'', JInt (col_position c)),
      (lit ''data_type'', JStr (col_data_type c)), (lit ''nullable'', JBool (col_nullable c)),
      (lit ''comment'', jopt (col_comment c))]"

definition primary_key_json :: "primary_key_metadata option \<Rightarrow> json" where
  "primary_key_json p = (case p of None \<Rightarrow> JNull | Some k \<Rightarrow> JObj
     [(lit ''name'', JStr (pk_name k)), (lit ''columns'', jstrs (pk_columns k))])"

definition foreign_key_json :: "foreign_key_metadata \<Rightarrow> json" where
  "foreign_key_json k = JObj
     [(lit ''name'', JStr (fk_name k)), (lit ''columns'', jstrs (fk_columns k)),
      (lit ''referenced_schema'', JStr (referenced_schema k)),
      (lit ''referenced_table'', JStr (referenced_table k)),
      (lit ''referenced_columns'', jstrs (referenced_columns k))]"

definition table_json :: "table_metadata \<Rightarrow> json" where
  "table_json t = JObj
     [(lit ''name'', JStr (table_name t)), (lit ''comment'', jopt (table_comment t)),
      (lit ''columns'', JList (map column_json (table_columns t))),
      (lit ''primary_key'', primary_key_json (primary_key t)),
      (lit ''foreign_keys'', JList (map foreign_key_json (foreign_keys t)))]"

definition snapshot_json :: "schema_snapshot \<Rightarrow> json" where
  "snapshot_json s = JObj
     [(lit ''format_version'', JStr (format_version s)),
      (lit ''source_id'', JStr (snap_source_id s)), (lit ''schema_name'', JStr (schema_name s)),
      (lit ''schema_version'', JStr (schema_version s)),
      (lit ''dataset_version'', JStr (dataset_version s)),
      (lit ''tables'', JList (map table_json (snap_tables s)))]"

section \<open>Hash digests\<close>

text \<open>
  \<open>sha256(b).hexdigest()\<close> is an argument \<open>sha\<close> of the definitions that use it. What the code
  relies on is that a digest is 64 lower-case hexadecimal digits.
\<close>

definition hex64 :: "pystr \<Rightarrow> bool" where
  "hex64 s \<longleftrightarrow> length s = 64 \<and> (\<forall>c \<in> set s. is_hex c)"

definition sha_digests :: "(nat list \<Rightarrow> pystr) \<Rightarrow> bool" where
  "sha_digests sha \<longleftrightarrow> (\<forall>b. hex64 (sha b))"

text \<open>\<open>"sha256:" + sha256(s.encode()).hexdigest()\<close>\<close>

definition fingerprint :: "(nat list \<Rightarrow> pystr) \<Rightarrow> pystr \<Rightarrow> exn + pystr" where
  "fingerprint sha s = (case utf8_encode s of
     None \<Rightarrow> Inl encode_error | Some b \<Rightarrow> Inr (lit ''sha256:'' @ sha b))"

section \<open>Assembling a snapshot\<close>

definition column_of_row :: "column_row \<Rightarrow> column_metadata" where
  "column_of_row r = \<lparr>col_name = cr_column r, col_position = cr_position r,
     col_data_type = cr_type r, col_nullable = cr_nullable r, col_comment = cr_comment r\<rparr>"

definition foreign_key_of_row :: "reference_row \<Rightarrow> foreign_key_metadata" where
  "foreign_key_of_row r = \<lparr>fk_name = kr_constraint r, fk_columns = kr_columns r,
     referenced_schema = rr_schema r, referenced_table = rr_table r,
     referenced_columns = rr_columns r\<rparr>"

text \<open>\<open>d[k].append(v)\<close> on a \<open>defaultdict(list)\<close>\<close>

definition dict_append :: "'k \<Rightarrow> 'v \<Rightarrow> ('k \<times> 'v list) list \<Rightarrow> ('k \<times> 'v list) list" where
  "dict_append k v d =
     AList.update k ((case map_of d k of None \<Rightarrow> [] | Some vs \<Rightarrow> vs) @ [v]) d"

definition group_rows :: "('r \<Rightarrow> 'k) \<Rightarrow> ('r \<Rightarrow> 'v) \<Rightarrow> 'r list \<Rightarrow> ('k \<times> 'v list) list" where
  "group_rows key val rows = foldl (\<lambda>d r. dict_append (key r) (val r) d) [] rows"

definition build_tables ::
  "column_row list \<Rightarrow> key_row list \<Rightarrow> reference_row list \<Rightarrow> table_metadata list" where
  "build_tables column_rows primary_key_rows foreign_key_rows =
     (let columns_by_table = group_rows cr_table column_of_row column_rows;
          comments_by_table = dict_of (map (\<lambda>r. (cr_table r, cr_table_comment r)) column_rows);
          primary_keys = dict_of (map (\<lambda>r. (kr_table r,
            \<lparr>pk_name = kr_constraint r, pk_columns = kr_columns r\<rparr>)) primary_key_rows);
          foreign_keys_by_table = group_rows kr_table foreign_key_of_row foreign_key_rows
      in map (\<lambda>name.
           \<lparr>table_name = name,
            table_comment = (case map_of comments_by_table name of None \<Rightarrow> None | Some c \<Rightarrow> c),
            table_columns = (case map_of columns_by_table name of None \<Rightarrow> [] | Some cs \<Rightarrow> cs),
            primary_key = map_of primary_keys name,
            foreign_keys =
              (case map_of foreign_keys_by_table name of None \<Rightarrow> [] | Some ks \<Rightarrow> ks)\<rparr>)
         (sort (map fst columns_by_table)))"

definition build_snapshot ::
  "(nat list \<Rightarrow> pystr) \<Rightarrow> (real \<Rightarrow> pystr) \<Rightarrow> pystr \<Rightarrow> pystr \<Rightarrow> pystr \<Rightarrow> column_row list
     \<Rightarrow> key_row list \<Rightarrow> reference_row list \<Rightarrow> exn + schema_snapshot" where
  "build_snapshot sha fr source_id schema dataset column_rows primary_key_rows foreign_key_rows =
     (let tables = build_tables column_rows primary_key_rows foreign_key_rows;
          payload = dumps (compact_style fr) (sort_keys (JList (map table_json tables)))
      in res_bind (fingerprint sha payload) (\<lambda>version. Inr
           \<lparr>format_version = lit ''1.0'', snap_source_id = source_id, schema_name = schema,
            schema_version = version, dataset_version = dataset, snap_tables = tables\<rparr>))"

text \<open>
  \<open>PostgresSchemaIntrospector.inspect\<close>: the connection and its four queries are the argument
  \<open>read_catalog\<close>; a missing manifest row gives the data set version \<open>"unknown"\<close>.
\<close>

definition inspect_schema ::
  "(nat list \<Rightarrow> pystr) \<Rightarrow> (real \<Rightarrow> pystr) \<Rightarrow> (pystr \<Rightarrow> exn + catalog) \<Rightarrow> pystr \<Rightarrow> pystr
     \<Rightarrow> exn + schema_snapshot" where
  "inspect_schema sha fr read_catalog source_id allowed_schema =
     res_bind (read_catalog allowed_schema) (\<lambda>cat.
       build_snapshot sha fr source_id allowed_schema
         (case cat_version cat of None \<Rightarrow> lit ''unknown'' | Some v \<Rightarrow> v)
         (cat_columns cat) (cat_primary_keys cat) (cat_foreign_keys cat))"

section \<open>The loading cache\<close>

record schema_cache_entry =
  sce_snapshot :: schema_snapshot
  sce_expires_at :: real

record schema_cache =
  sc_ttl :: int
  sc_entries :: "((pystr \<times> pystr) \<times> schema_cache_entry) list"

definition mk_schema_cache :: "int \<Rightarrow> exn + schema_cache" where
  "mk_schema_cache ttl =
     (if ttl \<le> 0 then Inl (Py (ValueError (lit ''ttl_seconds must be positive'')))
      else Inr \<lparr>sc_ttl = ttl, sc_entries = []\<rparr>)"

definition schema_cache_look ::
  "schema_cache \<Rightarrow> pystr \<times> pystr \<Rightarrow> real \<Rightarrow> schema_snapshot option" where
  "schema_cache_look c key now = (case map_of (sc_entries c) key of
     None \<Rightarrow> None
   | Some e \<Rightarrow> if now < sce_expires_at e then Some (sce_snapshot e) else None)"

definition schema_cache_store ::
  "schema_cache \<Rightarrow> pystr \<times> pystr \<Rightarrow> schema_snapshot \<Rightarrow> real \<Rightarrow> schema_cache" where
  "schema_cache_store c key snapshot now = c\<lparr>sc_entries := AList.update key
     \<lparr>sce_snapshot = snapshot, sce_expires_at = now + real_of_int (sc_ttl c)\<rparr> (sc_entries c)\<rparr>"

text \<open>The loader may raise; then nothing is stored. \<open>now\<close> is read before the loader runs.\<close>

definition get_or_load ::
  "schema_cache \<Rightarrow> pystr \<Rightarrow> pystr \<Rightarrow> real \<Rightarrow> exn + schema_snapshot
     \<Rightarrow> (exn + schema_snapshot) \<times> schema_cache" where
  "get_or_load c source_id schema now loaded =
     (let key = (source_id, schema) in
      case schema_cache_look c key now of
        Some s \<Rightarrow> (Inr s, c)
      | None \<Rightarrow> (case loaded of
          Inl e \<Rightarrow> (Inl e, c)
        | Inr s \<Rightarrow> (Inr s, schema_cache_store c key s now)))"

definition schema_cache_invalidate :: "schema_cache \<Rightarrow> pystr \<Rightarrow> pystr \<Rightarrow> schema_cache" where
  "schema_cache_invalidate c source_id schema =
     c\<lparr>sc_entries := AList.delete (source_id, schema) (sc_entries c)\<rparr>"

definition schema_cache_ok :: "schema_cache \<Rightarrow> bool" where
  "schema_cache_ok c \<longleftrightarrow> 0 < sc_ttl c"

interpretation schema_store: expiring_store schema_cache_look schema_cache_store
  "\<lambda>c. real_of_int (sc_ttl c)" schema_cache_ok
  by unfold_locales
     (auto simp: schema_cache_ok_def schema_cache_store_def schema_cache_look_def)

section \<open>Lemmas and properties\<close>

lemma group_rows_snoc:
  "group_rows key val (rows @ [r]) = dict_append (key r) (val r) (group_rows key val rows)"
  by (simp add: group_rows_def)

lemma map_of_group_rows:
  "map_of (group_rows key val rows) k =
     (if k \<in> key ` set rows then Some (map val (filter (\<lambda>r. key r = k) rows)) else None)"
proof (induction rows rule: rev_induct)
  case Nil
  then show ?case by (simp add: group_rows_def)
next
  case (snoc r rows)
  have "filter (\<lambda>r. key r = k) rows = []" if "k \<notin> key ` set rows"
    using that by (auto simp: filter_empty_conv)
  with snoc show ?case by (auto simp: group_rows_snoc dict_append_def)
qed

lemma keys_group_rows: "set (map fst (group_rows key val rows)) = key ` set rows"
proof -
  have "fst ` set (group_rows key val rows) = dom (map_of (group_rows key val rows))"
    by (simp add: dom_map_of_conv_image_fst)
  also have "\<dots> = key ` set rows" by (auto simp: map_of_group_rows split: if_splits)
  finally show ?thesis by simp
qed

lemma distinct_group_rows: "distinct (map fst (group_rows key val rows))"
  by (induction rows rule: rev_induct)
     (auto simp: group_rows_snoc dict_append_def group_rows_def[of _ _ "[]"]
       intro: AList.distinct_update)

lemmas group_rows_facts = map_of_group_rows keys_group_rows distinct_group_rows

lemma build_tables_names:
  "map table_name (build_tables cols pks fks) = sort (map fst (group_rows cr_table column_of_row cols))"
  by (simp add: build_tables_def Let_def comp_def)

text \<open>
  A snapshot lists every table that has a column row exactly once, in ascending name order,
  and gives it exactly its own column rows, in catalog order, and exactly its own foreign keys,
  in catalog order: no row is lost, duplicated or attached to another table.
\<close>

theorem snapshot_tables_complete:
  "sorted (map table_name (build_tables cols pks fks))
   \<and> distinct (map table_name (build_tables cols pks fks))
   \<and> set (map table_name (build_tables cols pks fks)) = cr_table ` set cols
   \<and> list_all (\<lambda>t.
        table_columns t = map column_of_row (filter (\<lambda>r. cr_table r = table_name t) cols)
        \<and> foreign_keys t = map foreign_key_of_row (filter (\<lambda>r. kr_table r = table_name t) fks))
      (build_tables cols pks fks)"
proof (intro conjI)
  show "sorted (map table_name (build_tables cols pks fks))"
    by (simp only: build_tables_names sorted_sort)
  show "distinct (map table_name (build_tables cols pks fks))"
    by (simp only: build_tables_names distinct_sort distinct_group_rows)
  show "set (map table_name (build_tables cols pks fks)) = cr_table ` set cols"
    by (simp only: build_tables_names set_sort keys_group_rows)
  have none: "filter (\<lambda>r. kr_table r = n) fks = []" if "n \<notin> kr_table ` set fks" for n
    using that by (auto simp: filter_empty_conv)
  show "list_all (\<lambda>t.
        table_columns t = map column_of_row (filter (\<lambda>r. cr_table r = table_name t) cols)
        \<and> foreign_keys t = map foreign_key_of_row (filter (\<lambda>r. kr_table r = table_name t) fks))
      (build_tables cols pks fks)"
    using keys_group_rows [of cr_table column_of_row cols] none
    by (auto simp: list_all_iff build_tables_def Let_def map_of_group_rows)
qed

text \<open>
  The loading cache: after a successful load at clock time \<open>t\<close>, every later request for the
  same source and schema below \<open>t + ttl\<close> returns that snapshot whatever the loader would now
  give, and leaves the cache as it is; at \<open>t + ttl\<close> or later, and after an invalidation, the
  loader's result is what is returned.
\<close>

theorem schema_cache_serves_until_ttl:
  assumes "schema_cache_ok c" and "schema_cache_look c (src, sch) t = None"
    and "get_or_load c src sch t (Inr snap) = (r, c')"
  shows "r = Inr snap
    \<and> get_or_load c' src sch t' l =
        (if t' < t + real_of_int (sc_ttl c) then (Inr snap, c')
         else (l, case l of Inl e \<Rightarrow> c' | Inr s \<Rightarrow> schema_cache_store c' (src, sch) s t'))
    \<and> fst (get_or_load (schema_cache_invalidate c' src sch) src sch t' l) = l"
proof -
  from assms(2,3) have "r = Inr snap" and c': "c' = schema_cache_store c (src, sch) snap t"
    by (auto simp: get_or_load_def)
  moreover have "schema_cache_look c' (src, sch) t' =
      (if t' < t + real_of_int (sc_ttl c) then Some snap else None)"
    using assms(1) by (simp add: c' schema_store.look_put)
  moreover have "schema_cache_look (schema_cache_invalidate c' src sch) (src, sch) t' = None"
    by (simp add: schema_cache_look_def schema_cache_invalidate_def AList.delete_conv')
  ultimately show ?thesis by (auto simp: get_or_load_def Let_def split: sum.splits)
qed

definition sample_snapshot :: schema_snapshot where
  "sample_snapshot = \<lparr>format_version = lit ''1.0'', snap_source_id = lit ''northwind-demo'',
     schema_name = lit ''northwind'', schema_version = lit ''sha256:0'',
     dataset_version = lit ''1'', snap_tables = []\<rparr>"

theorem schema_cache_serves_until_ttl_witness:
  "fst (get_or_load \<lparr>sc_ttl = 300, sc_entries = []\<rparr> (lit ''a'') (lit ''b'') 10 (Inr sample_snapshot))
     = Inr sample_snapshot
   \<and> fst (get_or_load (snd (get_or_load \<lparr>sc_ttl = 300, sc_entries = []\<rparr> (lit ''a'') (lit ''b'') 10
          (Inr sample_snapshot))) (lit ''a'') (lit ''b'') 309 (Inl encode_error))
       = Inr sample_snapshot"
proof -
  let ?c = "\<lparr>sc_ttl = 300, sc_entries = []\<rparr>"
  have ok: "schema_cache_ok ?c" by (simp add: schema_cache_ok_def)
  have miss: "schema_cache_look ?c (lit ''a'', lit ''b'') 10 = None"
    by (simp add: schema_cache_look_def)
  obtain c' where run: "get_or_load ?c (lit ''a'') (lit ''b'') 10 (Inr sample_snapshot)
      = (Inr sample_snapshot, c')"
    using miss by (simp add: get_or_load_def)
  from schema_cache_serves_until_ttl [OF ok miss run, of 309 "Inl encode_error"] run
  show ?thesis by simp
qed

end
