(* ===== verification/Query_Policy.thy ===== *)
theory Query_Policy
  imports Metadata
begin

text \<open>
  The value models of \<open>query_safety/models.py\<close> with the checks pydantic runs on them, and the
  policy operations: a policy from a schema snapshot and its restriction to selected tables.
  A set is a HOL set, the columns dictionary an association list. Records built by the code
  itself are constructed through their \<open>mk_\<close> function, which raises what validation raises.
\<close>

section \<open>Policies\<close>

record query_policy =
  allowed_schema :: pystr
  allowed_tables :: "pystr set"
  allowed_columns :: "(pystr \<times> pystr set) list"
  max_rows :: int
  max_columns :: int
  max_result_bytes :: int
  max_total_cost :: real
  max_plan_rows :: int

definition lower_or_underscore :: "nat \<Rightarrow> bool" where
  "lower_or_underscore c \<longleftrightarrow> 97 \<le> c \<and> c \<le> 122 \<or> c = 95"

fun schema_pattern :: "pystr \<Rightarrow> bool" where
  "schema_pattern [] = False"
| "schema_pattern (c # cs) =
     (lower_or_underscore c \<and> list_all (\<lambda>d. lower_or_underscore d \<or> ascii_digit d) cs)"

text \<open>\<open>name and name.replace("_", "a").isalnum()\<close>\<close>

definition simple_name :: "unidata \<Rightarrow> pystr \<Rightarrow> bool" where
  "simple_name U n \<longleftrightarrow> n \<noteq> [] \<and> list_all (u_isalnum U) (replace_char 95 97 n)"

definition validate_table_names :: "unidata \<Rightarrow> pystr set \<Rightarrow> bool" where
  "validate_table_names U tables \<longleftrightarrow> (\<forall>t \<in> tables. simple_name U t)"

definition validate_column_names :: "unidata \<Rightarrow> (pystr \<times> pystr set) list \<Rightarrow> bool" where
  "validate_column_names U cols \<longleftrightarrow>
     list_all (\<lambda>(t, cs). simple_name U t \<and> (\<forall>c \<in> cs. simple_name U c)) cols"

definition policy_fields_ok :: "query_policy \<Rightarrow> bool" where
  "policy_fields_ok p \<longleftrightarrow> schema_pattern (allowed_schema p) \<and> allowed_tables p \<noteq> {}
     \<and> 1 \<le> max_rows p \<and> max_rows p \<le> 10000 \<and> 1 \<le> max_columns p \<and> max_columns p \<le> 500
     \<and> 64 \<le> max_result_bytes p \<and> max_result_bytes p \<le> 10000000
     \<and> 0 < max_total_cost p \<and> 1 \<le> max_plan_rows p"

definition mk_policy :: "unidata \<Rightarrow> query_policy \<Rightarrow> exn + query_policy" where
  "mk_policy U p =
     (if \<not> policy_fields_ok p then Inl (validation_error ''QueryPolicy'')
      else if \<not> validate_table_names U (allowed_tables p)
      then Inl (validation_error ''allowed table names must be simple identifiers'')
      else if \<not> validate_column_names U (allowed_columns p)
      then Inl (validation_error ''allowed column names must be simple identifiers'')
      else Inr p)"

record query_limits =
  lim_max_rows :: int
  lim_max_columns :: int
  lim_max_result_bytes :: int
  lim_max_total_cost :: real
  lim_max_plan_rows :: int

text \<open>The defaults of the model's fields, which \<open>from_snapshot\<close> keeps for limits not given.\<close>

definition default_limits :: query_limits where
  "default_limits = \<lparr>lim_max_rows = 100, lim_max_columns = 50, lim_max_result_bytes = 1000000,
     lim_max_total_cost = 10000, lim_max_plan_rows = 100000\<rparr>"

definition policy_from_snapshot ::
  "unidata \<Rightarrow> schema_snapshot \<Rightarrow> query_limits \<Rightarrow> exn + query_policy" where
  "policy_from_snapshot U snap lims = mk_policy U
     \<lparr>allowed_schema = schema_name snap,
      allowed_tables = set (map table_name (snap_tables snap)),
      allowed_columns = dict_of (map (\<lambda>t. (table_name t, set (map col_name (table_columns t))))
        (snap_tables snap)),
      max_rows = lim_max_rows lims, max_columns = lim_max_columns lims,
      max_result_bytes = lim_max_result_bytes lims, max_total_cost = lim_max_total_cost lims,
      max_plan_rows = lim_max_plan_rows lims\<rparr>"

text \<open>
  \<open>create_query_policy\<close> passes the five limits of the settings on; \<open>restrict_to_tables\<close>
  copies the policy without validating it again. \<open>sorted(table_names)\<close> orders the keys of the
  new columns dictionary.
\<close>

definition create_query_policy ::
  "unidata \<Rightarrow> schema_snapshot \<Rightarrow> query_limits \<Rightarrow> exn + query_policy" where
  "create_query_policy U snap settings = policy_from_snapshot U snap settings"

definition restrict_to_tables :: "query_policy \<Rightarrow> pystr set \<Rightarrow> exn + query_policy" where
  "restrict_to_tables p names =
     (if names = {} \<or> \<not> names \<subseteq> allowed_tables p
      then Inl (validation_error ''selected tables must be a non-empty subset of the policy'')
      else Inr (p\<lparr>allowed_tables := names,
        allowed_columns := List.map_filter
          (\<lambda>t. map_option (Pair t) (map_of (allowed_columns p) t))
          (sorted_list_of_set names)\<rparr>))"

section \<open>Queries, results, estimates, contexts\<close>

record guarded_query =
  normalized_sql :: pystr
  bounded_sql :: pystr
  query_fingerprint :: pystr
  referenced_tables :: "pystr list"
  row_fetch_limit :: int

text \<open>The pattern \<open>^sha256:[0-9a-f]{64}$\<close>.\<close>

definition fingerprint_pattern :: "pystr \<Rightarrow> bool" where
  "fingerprint_pattern s \<longleftrightarrow> starts_with (lit ''sha256:'') s \<and> hex64 (drop 7 s)"

definition mk_guarded_query :: "guarded_query \<Rightarrow> exn + guarded_query" where
  "mk_guarded_query g =
     (if normalized_sql g = [] \<or> bounded_sql g = [] \<or> \<not> fingerprint_pattern (query_fingerprint g)
         \<or> row_fetch_limit g < 2
      then Inl (validation_error ''GuardedQuery'') else Inr g)"

type_synonym row = "(pystr \<times> json) list"

record query_execution_result =
  res_columns :: "pystr list"
  res_rows :: "row list"
  returned_row_count :: int
  serialized_bytes :: int
  truncated :: bool

record query_cost_estimate =
  total_cost :: real
  plan_rows :: int

definition mk_estimate :: "real \<Rightarrow> int \<Rightarrow> exn + query_cost_estimate" where
  "mk_estimate c r = (if c < 0 \<or> r < 0 then Inl (validation_error ''QueryCostEstimate'')
     else Inr \<lparr>total_cost = c, plan_rows = r\<rparr>)"

record query_context =
  ctx_tenant_id :: uuid
  ctx_user_id :: uuid
  ctx_job_id :: uuid
  ctx_data_source_id :: uuid
  ctx_trace_id :: pystr

text \<open>The pattern \<open>^[A-Za-z0-9_-]{16,64}$\<close> of the trace id.\<close>

definition mk_context :: "query_context \<Rightarrow> exn + query_context" where
  "mk_context c =
     (if 16 \<le> length (ctx_trace_id c) \<and> length (ctx_trace_id c) \<le> 64
         \<and> list_all (\<lambda>d. ascii_alnum d \<or> d = 95 \<or> d = 45) (ctx_trace_id c)
      then Inr c else Inl (validation_error ''QueryContext''))"

datatype audit_status = SUCCEEDED | REJECTED | APPROVAL_REQUIRED | FAILED

record query_audit_event =
  event_id :: uuid
  occurred_at :: real
  ev_tenant_id :: uuid
  ev_user_id :: uuid
  ev_job_id :: uuid
  ev_data_source_id :: uuid
  ev_trace_id :: pystr
  ev_status :: audit_status
  ev_reason_code :: pystr
  ev_fingerprint :: pystr
  ev_tables :: "pystr list"
  planner_invoked :: bool
  executor_invoked :: bool
  estimated_total_cost :: "real option"
  estimated_plan_rows :: "int option"
  returned_rows :: int
  returned_columns :: int
  ev_serialized_bytes :: int
  result_truncated :: bool
  duration_ms :: int

definition mk_audit_event :: "query_audit_event \<Rightarrow> exn + query_audit_event" where
  "mk_audit_event e =
     (if 1 \<le> length (ev_reason_code e) \<and> length (ev_reason_code e) \<le> 80
         \<and> fingerprint_pattern (ev_fingerprint e)
         \<and> (case estimated_total_cost e of None \<Rightarrow> True | Some c \<Rightarrow> 0 \<le> c)
         \<and> (case estimated_plan_rows e of None \<Rightarrow> True | Some r \<Rightarrow> 0 \<le> r)
         \<and> 0 \<le> returned_rows e \<and> 0 \<le> returned_columns e \<and> 0 \<le> ev_serialized_bytes e
         \<and> 0 \<le> duration_ms e
      then Inr e else Inl (validation_error ''QueryAuditEvent''))"

record safe_query_outcome =
  outcome_result :: query_execution_result
  outcome_audit :: query_audit_event

section \<open>Lemmas and properties\<close>

lemma mk_policy_Inr:
  "mk_policy U p = Inr q \<longleftrightarrow> q = p \<and> policy_fields_ok p \<and> validate_table_names U (allowed_tables p)
     \<and> validate_column_names U (allowed_columns p)"
  by (auto simp: mk_policy_def)

lemma restrict_to_tables_Inr:
  "restrict_to_tables p names = Inr q \<longleftrightarrow> names \<noteq> {} \<and> names \<subseteq> allowed_tables p
     \<and> q = p\<lparr>allowed_tables := names, allowed_columns := List.map_filter
          (\<lambda>t. map_option (Pair t) (map_of (allowed_columns p) t)) (sorted_list_of_set names)\<rparr>"
  by (auto simp: restrict_to_tables_def)

lemma map_of_map_filter_pair:
  "map_of (List.map_filter (\<lambda>t. map_option (Pair t) (m t)) ts) t =
     (if t \<in> set ts then m t else None)"
  by (induction ts) (auto simp: List.map_filter_simps split: option.splits)

lemma restricted_columns:
  assumes "restrict_to_tables p names = Inr q" and "finite (allowed_tables p)"
  shows "map_of (allowed_columns q) t =
    (if t \<in> names then map_of (allowed_columns p) t else None)"
proof -
  from assms have "finite names" by (auto simp: restrict_to_tables_Inr intro: finite_subset)
  with assms(1) show ?thesis by (simp add: restrict_to_tables_Inr map_of_map_filter_pair)
qed

lemma finite_snapshot_tables:
  "policy_from_snapshot U snap lims = Inr p \<Longrightarrow> finite (allowed_tables p)"
  by (auto simp: policy_from_snapshot_def mk_policy_Inr)

lemma fingerprint_matches: "sha_digests sha \<Longrightarrow> fingerprint sha s = Inr f \<Longrightarrow> fingerprint_pattern f"
  by (auto simp: fingerprint_def fingerprint_pattern_def sha_digests_def starts_with_iff lit_def
        split: option.splits)

text \<open>
  C34. Restricting a policy built from a snapshot never widens it: the restricted policy allows
  exactly the selected tables, each of them with exactly the columns the snapshot gives it,
  allows no column of any other table, and keeps the schema and every limit.
\<close>

theorem restriction_narrows_policy:
  assumes "policy_from_snapshot U snap lims = Inr p" and "restrict_to_tables p names = Inr q"
  shows "allowed_tables q = names \<and> names \<subseteq> table_name ` set (snap_tables snap)
    \<and> map_of (allowed_columns q) t =
        (if t \<in> names then map_of (allowed_columns p) t else None)
    \<and> (t \<in> names \<longrightarrow> (\<exists>tab \<in> set (snap_tables snap). table_name tab = t
          \<and> map_of (allowed_columns q) t = Some (col_name ` set (table_columns tab))))
    \<and> allowed_schema q = schema_name snap \<and> max_rows q = lim_max_rows lims
    \<and> max_columns q = lim_max_columns lims \<and> max_result_bytes q = lim_max_result_bytes lims
    \<and> max_total_cost q = lim_max_total_cost lims \<and> max_plan_rows q = lim_max_plan_rows lims"
proof (intro conjI impI)
  from assms have p: "allowed_tables p = table_name ` set (snap_tables snap)"
    "allowed_columns p = dict_of (map (\<lambda>t. (table_name t, set (map col_name (table_columns t))))
        (snap_tables snap))"
    "allowed_schema p = schema_name snap" "max_rows p = lim_max_rows lims"
    "max_columns p = lim_max_columns lims" "max_result_bytes p = lim_max_result_bytes lims"
    "max_total_cost p = lim_max_total_cost lims" "max_plan_rows p = lim_max_plan_rows lims"
    by (auto simp: policy_from_snapshot_def mk_policy_Inr)
  from assms(2) p show "allowed_tables q = names" "names \<subseteq> table_name ` set (snap_tables snap)"
    "allowed_schema q = schema_name snap" "max_rows q = lim_max_rows lims"
    "max_columns q = lim_max_columns lims" "max_result_bytes q = lim_max_result_bytes lims"
    "max_total_cost q = lim_max_total_cost lims" "max_plan_rows q = lim_max_plan_rows lims"
    by (auto simp: restrict_to_tables_Inr)
  show cols: "map_of (allowed_columns q) t =
      (if t \<in> names then map_of (allowed_columns p) t else None)"
    by (rule restricted_columns [OF assms(2) finite_snapshot_tables [OF assms(1)]])
  assume t: "t \<in> names"
  with \<open>names \<subseteq> table_name ` set (snap_tables snap)\<close>
  obtain tab0 where "tab0 \<in> set (snap_tables snap)" "table_name tab0 = t" by auto
  then have "t \<in> fst ` set (allowed_columns p)" by (force simp: p(2))
  then obtain cs where cs: "map_of (allowed_columns p) t = Some cs"
    by (metis map_of_eq_None_iff not_Some_eq)
  then have "(t, cs) \<in> set (allowed_columns p)" by (rule map_of_SomeD)
  with set_dict_of_subset [of "map (\<lambda>t. (table_name t, set (map col_name (table_columns t))))
        (snap_tables snap)"]
  obtain tab where "tab \<in> set (snap_tables snap)" "table_name tab = t"
      "cs = col_name ` set (table_columns tab)"
    by (force simp: p(2))
  with cols t cs show "\<exists>tab \<in> set (snap_tables snap). table_name tab = t
          \<and> map_of (allowed_columns q) t = Some (col_name ` set (table_columns tab))"
    by auto
qed

definition orders_table :: table_metadata where
  "orders_table = \<lparr>table_name = lit ''orders'', table_comment = None,
     table_columns = [\<lparr>col_name = lit ''order_id'', col_position = 1, col_data_type = lit ''integer'',
       col_nullable = False, col_comment = None\<rparr>],
     primary_key = None, foreign_keys = []\<rparr>"

definition customers_table :: table_metadata where
  "customers_table = \<lparr>table_name = lit ''customers'', table_comment = None,
     table_columns = [\<lparr>col_name = lit ''city'', col_position = 1, col_data_type = lit ''text'',
       col_nullable = True, col_comment = None\<rparr>],
     primary_key = None, foreign_keys = []\<rparr>"

definition two_table_snapshot :: schema_snapshot where
  "two_table_snapshot = sample_snapshot\<lparr>snap_tables := [customers_table, orders_table]\<rparr>"

definition two_table_policy :: query_policy where
  "two_table_policy = \<lparr>allowed_schema = lit ''northwind'',
     allowed_tables = {lit ''customers'', lit ''orders''},
     allowed_columns = [(lit ''customers'', {lit ''city''}), (lit ''orders'', {lit ''order_id''})],
     max_rows = 100, max_columns = 50, max_result_bytes = 1000000, max_total_cost = 10000,
     max_plan_rows = 100000\<rparr>"

lemma two_table_policy_valid:
  "policy_fields_ok two_table_policy"
  "validate_table_names ascii_uni {lit ''customers'', lit ''orders''}"
  "validate_column_names ascii_uni
     [(lit ''customers'', {lit ''city''}), (lit ''orders'', {lit ''order_id''})]"
  by (code_simp+)

lemma two_table_policy_of_snapshot:
  "policy_from_snapshot ascii_uni two_table_snapshot default_limits = Inr two_table_policy"
  using two_table_policy_valid
  by (simp add: policy_from_snapshot_def mk_policy_Inr two_table_policy_def two_table_snapshot_def
      sample_snapshot_def customers_table_def orders_table_def default_limits_def dict_of_def)

theorem restriction_narrows_policy_witness:
  "\<exists>q. restrict_to_tables two_table_policy {lit ''orders''} = Inr q
     \<and> map_of (allowed_columns q) (lit ''orders'') = Some {lit ''order_id''}
     \<and> map_of (allowed_columns q) (lit ''customers'') = None"
proof -
  obtain q where q: "restrict_to_tables two_table_policy {lit ''orders''} = Inr q"
    by (simp add: restrict_to_tables_def two_table_policy_def)
  note r = restriction_narrows_policy [OF two_table_policy_of_snapshot q]
  from r [of "lit ''orders''"] r [of "lit ''customers''"] q
  show ?thesis by (auto simp: two_table_policy_def)
qed

end
