(* ===== verification/Sql_Guard.thy ===== *)
theory Sql_Guard
  imports Query_Policy
begin

text \<open>
  \<open>query_safety/guard.py\<close>: the deterministic check between the generated SQL and the database.
  The parser and the optimiser are the third-party package \<open>sqlglot\<close>, an argument of the
  model. What the guard reads of a parsed statement is the record \<open>statement\<close>: each field is
  one observation of the tree (\<open>isinstance\<close>, \<open>find\<close>, \<open>find_all\<close>, \<open>args.get\<close>, \<open>sql()\<close>), in
  the order the tree walk gives. \<open>st_inner_recursive\<close> (a recursive \<open>WITH\<close> below the root) is a
  part of the tree the guard does not look at.
\<close>

section \<open>What the guard sees of a statement\<close>

datatype node_kind = DDL_node | DML_node | Command_node | Copy_node | Into_node | Lock_node
  | Transaction_node | Other_node

record sql_function =
  fn_name :: pystr        \<comment> \<open>\<open>function.name\<close> of an anonymous function, else \<open>sql_name()\<close>\<close>
  fn_anonymous :: bool

datatype join_condition = BooleanLiteral bool | Condition

record sql_join =
  join_kind :: "pystr option"
  join_on :: "join_condition option"
  join_using :: bool

record sql_table =
  tb_name :: pystr
  tb_db :: pystr
  tb_catalog :: pystr
  tb_alias_or_name :: pystr

record sql_column =
  cl_table :: pystr
  cl_name :: pystr

record statement =
  st_is_query :: bool
  st_nodes :: "node_kind list"
  st_functions :: "sql_function list"
  st_with_recursive :: bool
  st_inner_recursive :: bool
  st_joins :: "sql_join list"
  st_ctes :: "pystr list"
  st_tables :: "sql_table list"
  st_columns :: "sql_column list"
  st_sql :: pystr

text \<open>
  \<open>sg_parse\<close>: \<open>None\<close> is a \<open>ParseError\<close> or \<open>TokenError\<close>. \<open>sg_qualify\<close>: \<open>None\<close> is an
  \<open>OptimizeError\<close>; its first argument is the schema mapping handed to \<open>qualify\<close>.
\<close>

type_synonym sql_schema = "pystr \<times> (pystr \<times> pystr set) list"

record sqlglot =
  sg_parse :: "pystr \<Rightarrow> statement option list option"
  sg_qualify :: "sql_schema \<Rightarrow> statement \<Rightarrow> statement option"

section \<open>The checks\<close>

definition violation :: "string \<Rightarrow> exn" where
  "violation r = QuerySafety (SQLPolicyViolationError (lit r))"

definition forbidden_functions :: "pystr list" where
  "forbidden_functions = map lit
     [''dblink'', ''dblink_exec'', ''lo_export'', ''lo_import'', ''nextval'', ''pg_ls_dir'',
      ''pg_read_binary_file'', ''pg_read_file'', ''pg_sleep'', ''set_config'', ''setval'']"

definition forbidden_nodes :: "node_kind list" where
  "forbidden_nodes = [DDL_node, DML_node, Command_node, Copy_node, Into_node, Lock_node,
     Transaction_node]"

fun check_functions :: "unidata \<Rightarrow> sql_function list \<Rightarrow> exn + unit" where
  "check_functions U [] = Inr ()"
| "check_functions U (f # fs) =
     (if u_lower U (fn_name f) \<in> set forbidden_functions
      then Inl (violation ''FORBIDDEN_FUNCTION'')
      else if fn_anonymous f then Inl (violation ''FUNCTION_NOT_ALLOWED'')
      else check_functions U fs)"

text \<open>\<open>str(kind or "").upper() == "CROSS"\<close>, and \<open>on\<close> is a true boolean literal.\<close>

definition cartesian :: "unidata \<Rightarrow> sql_join \<Rightarrow> bool" where
  "cartesian U j \<longleftrightarrow>
     u_upper U (case join_kind j of None \<Rightarrow> [] | Some k \<Rightarrow> k) = lit ''CROSS''
     \<or> \<not> (join_on j \<noteq> None \<or> join_using j)
     \<or> join_on j = Some (BooleanLiteral True)"

definition check_query_shape :: "unidata \<Rightarrow> statement \<Rightarrow> exn + unit" where
  "check_query_shape U s =
     (if st_with_recursive s then Inl (violation ''RECURSIVE_QUERY_NOT_ALLOWED'')
      else if list_ex (cartesian U) (st_joins s)
      then Inl (violation ''CARTESIAN_JOIN_NOT_ALLOWED'')
      else Inr ())"

definition qualified_name :: "query_policy \<Rightarrow> pystr \<Rightarrow> pystr" where
  "qualified_name p t = allowed_schema p @ [46] @ t"

fun check_tables_from ::
  "unidata \<Rightarrow> query_policy \<Rightarrow> pystr set \<Rightarrow> sql_table list \<Rightarrow> pystr set \<Rightarrow> exn + pystr set" where
  "check_tables_from U p cte_names [] refs = Inr refs"
| "check_tables_from U p cte_names (t # ts) refs =
     (if tb_db t = [] \<and> u_lower U (tb_name t) \<in> cte_names
      then check_tables_from U p cte_names ts refs
      else if tb_catalog t \<noteq> [] \<or> (tb_db t \<noteq> [] \<and> tb_db t \<noteq> allowed_schema p)
      then Inl (violation ''CROSS_SCHEMA_REFERENCE'')
      else if tb_name t \<notin> allowed_tables p then Inl (violation ''TABLE_NOT_ALLOWED'')
      else check_tables_from U p cte_names ts (insert (qualified_name p (tb_name t)) refs))"

definition check_tables :: "unidata \<Rightarrow> statement \<Rightarrow> query_policy \<Rightarrow> exn + pystr set" where
  "check_tables U s p =
     check_tables_from U p (set (map (u_lower U) (st_ctes s))) (st_tables s) {}"

definition qualify_columns :: "sqlglot \<Rightarrow> statement \<Rightarrow> query_policy \<Rightarrow> exn + statement" where
  "qualify_columns sg s p =
     (if allowed_columns p = [] then Inr s
      else (case sg_qualify sg (allowed_schema p, allowed_columns p) s of
          None \<Rightarrow> Inl (violation ''COLUMN_NOT_ALLOWED'')
        | Some q \<Rightarrow> if st_is_query q then Inr q
                   else Inl (violation ''NON_READ_ONLY_STATEMENT'')))"

definition bound_sql :: "pystr \<Rightarrow> int \<Rightarrow> pystr" where
  "bound_sql sql n =
     lit ''SELECT * FROM ('' @ sql @ lit '') AS _copilot_bounded LIMIT '' @ str_int (n + 1)"

definition guarded_of :: "query_policy \<Rightarrow> pystr \<Rightarrow> pystr \<Rightarrow> pystr set \<Rightarrow> guarded_query" where
  "guarded_of p sql f tables =
     \<lparr>normalized_sql = sql, bounded_sql = bound_sql sql (max_rows p), query_fingerprint = f,
      referenced_tables = sorted_list_of_set tables, row_fetch_limit = max_rows p + 1\<rparr>"

text \<open>\<open>SQLGuard.inspect\<close>: the checks in the code's order.\<close>

definition inspect ::
  "unidata \<Rightarrow> sqlglot \<Rightarrow> (nat list \<Rightarrow> pystr) \<Rightarrow> pystr \<Rightarrow> query_policy \<Rightarrow> exn + guarded_query" where
  "inspect U sg sha query p =
     (if strip query = [] then Inl (violation ''EMPTY_QUERY'')
      else (case sg_parse sg query of
        None \<Rightarrow> Inl (violation ''SQL_PARSE_ERROR'')
      | Some [Some s] \<Rightarrow>
          if \<not> st_is_query s then Inl (violation ''NON_READ_ONLY_STATEMENT'')
          else if list_ex (\<lambda>n. n \<in> set (st_nodes s)) forbidden_nodes
          then Inl (violation ''FORBIDDEN_SQL_OPERATION'')
          else res_bind (check_functions U (st_functions s)) (\<lambda>_.
            res_bind (check_query_shape U s) (\<lambda>_.
            res_bind (check_tables U s p) (\<lambda>tables.
            res_bind (qualify_columns sg s p) (\<lambda>q.
            res_bind (fingerprint sha (st_sql q)) (\<lambda>f.
              mk_guarded_query (guarded_of p (st_sql q) f tables))))))
      | Some [None] \<Rightarrow> Inl (violation ''NON_READ_ONLY_STATEMENT'')
      | Some _ \<Rightarrow> Inl (violation ''MULTIPLE_STATEMENTS'')))"

section \<open>Lemmas\<close>

lemma check_functions_Inr:
  "check_functions U fs = Inr u \<longleftrightarrow>
     (\<forall>f \<in> set fs. u_lower U (fn_name f) \<notin> set forbidden_functions \<and> \<not> fn_anonymous f)"
  by (induction fs) auto


text \<open>A table reference the guard accepts: a bare name some CTE has, or an allowed table.\<close>

definition table_accepted :: "unidata \<Rightarrow> query_policy \<Rightarrow> pystr set \<Rightarrow> sql_table \<Rightarrow> bool" where
  "table_accepted U p ctes t \<longleftrightarrow>
     tb_db t = [] \<and> u_lower U (tb_name t) \<in> ctes
     \<or> tb_catalog t = [] \<and> (tb_db t = [] \<or> tb_db t = allowed_schema p)
       \<and> tb_name t \<in> allowed_tables p"

lemma check_tables_from_Inr:
  "check_tables_from U p ctes ts refs = Inr r \<longleftrightarrow>
     list_all (table_accepted U p ctes) ts
     \<and> r = refs \<union> {qualified_name p (tb_name t) |t. t \<in> set ts
          \<and> \<not> (tb_db t = [] \<and> u_lower U (tb_name t) \<in> ctes)}"
proof (induction ts arbitrary: refs)
  case (Cons t ts)
  then show ?case by (auto simp: table_accepted_def)
qed auto


lemma check_query_shape_Inr:
  "check_query_shape U s = Inr u \<longleftrightarrow>
     \<not> st_with_recursive s \<and> (\<forall>j \<in> set (st_joins s). \<not> cartesian U j)"
  by (auto simp: check_query_shape_def list_ex_iff)

lemma mk_guarded_query_Inr:
  "mk_guarded_query g = Inr h \<longleftrightarrow> h = g \<and> normalized_sql g \<noteq> [] \<and> bounded_sql g \<noteq> []
     \<and> fingerprint_pattern (query_fingerprint g) \<and> 2 \<le> row_fetch_limit g"
  by (auto simp: mk_guarded_query_def)

lemma bound_sql_nonempty [simp]: "bound_sql s n \<noteq> []"
  by (simp add: bound_sql_def)

text \<open>The statement the guard works on, when it is one query free of the forbidden nodes.\<close>

definition single_query :: "sqlglot \<Rightarrow> pystr \<Rightarrow> statement \<Rightarrow> bool" where
  "single_query sg query s \<longleftrightarrow> strip query \<noteq> [] \<and> sg_parse sg query = Some [Some s]
     \<and> st_is_query s \<and> set (st_nodes s) \<inter> set forbidden_nodes = {}"

lemma inspect_Inr:
  "inspect U sg sha query p = Inr g \<longleftrightarrow>
     (\<exists>s q f tables. single_query sg query s
        \<and> check_functions U (st_functions s) = Inr () \<and> check_query_shape U s = Inr ()
        \<and> check_tables U s p = Inr tables \<and> qualify_columns sg s p = Inr q
        \<and> fingerprint sha (st_sql q) = Inr f
        \<and> mk_guarded_query (guarded_of p (st_sql q) f tables) = Inr g)"
  by (auto simp: inspect_def single_query_def list_ex_iff split: option.splits list.splits if_splits)

lemma inspect_single:
  "single_query sg query s \<Longrightarrow> inspect U sg sha query p =
     res_bind (check_functions U (st_functions s)) (\<lambda>_.
       res_bind (check_query_shape U s) (\<lambda>_.
       res_bind (check_tables U s p) (\<lambda>tables.
       res_bind (qualify_columns sg s p) (\<lambda>q.
       res_bind (fingerprint sha (st_sql q)) (\<lambda>f.
         mk_guarded_query (guarded_of p (st_sql q) f tables))))))"
  by (auto simp: inspect_def single_query_def list_ex_iff)

section \<open>Properties\<close>

text \<open>The read-only conditions on a statement, written out.\<close>

definition functions_safe :: "unidata \<Rightarrow> statement \<Rightarrow> bool" where
  "functions_safe U s \<longleftrightarrow>
     (\<forall>f \<in> set (st_functions s). u_lower U (fn_name f) \<notin> set forbidden_functions \<and> \<not> fn_anonymous f)"

definition shape_safe :: "unidata \<Rightarrow> statement \<Rightarrow> bool" where
  "shape_safe U s \<longleftrightarrow> \<not> st_with_recursive s \<and> (\<forall>j \<in> set (st_joins s). \<not> cartesian U j)"

definition cte_names :: "unidata \<Rightarrow> statement \<Rightarrow> pystr set" where
  "cte_names U s = u_lower U ` set (st_ctes s)"

definition tables_safe :: "unidata \<Rightarrow> query_policy \<Rightarrow> statement \<Rightarrow> bool" where
  "tables_safe U p s \<longleftrightarrow> (\<forall>t \<in> set (st_tables s). table_accepted U p (cte_names U s) t)"

text \<open>
  The guard takes every unqualified reference that bears the name of a CTE of the statement for that
  CTE, wherever the CTE's scope is. \<open>reads_within\<close> says what the check leaves: every other reference
  names a table out of \<open>T\<close>, in no other schema than the policy's.
\<close>

definition named_like_cte :: "unidata \<Rightarrow> statement \<Rightarrow> sql_table \<Rightarrow> bool" where
  "named_like_cte U s t \<longleftrightarrow> tb_db t = [] \<and> u_lower U (tb_name t) \<in> u_lower U ` set (st_ctes s)"

definition reads_within :: "unidata \<Rightarrow> query_policy \<Rightarrow> pystr set \<Rightarrow> statement \<Rightarrow> bool" where
  "reads_within U p T s \<longleftrightarrow> (\<forall>t \<in> set (st_tables s). named_like_cte U s t
     \<or> tb_catalog t = [] \<and> tb_db t \<in> {[], allowed_schema p} \<and> tb_name t \<in> T)"

text \<open>The tables whose names the check compares with the policy.\<close>

definition checked_tables :: "unidata \<Rightarrow> statement \<Rightarrow> pystr set" where
  "checked_tables U s = tb_name ` {t \<in> set (st_tables s). \<not> named_like_cte U s t}"

lemma check_tables_Inr:
  "check_tables U s p = Inr r \<longleftrightarrow>
     tables_safe U p s \<and> r = qualified_name p ` checked_tables U s"
  by (auto simp: check_tables_def check_tables_from_Inr tables_safe_def cte_names_def
      checked_tables_def named_like_cte_def list_all_iff)

lemma finite_checked_tables [simp]: "finite (checked_tables U s)"
  by (simp add: checked_tables_def)

lemma tables_safe_reads: "tables_safe U p s \<longleftrightarrow> reads_within U p (allowed_tables p) s"
  by (auto simp: tables_safe_def table_accepted_def reads_within_def named_like_cte_def cte_names_def)

lemma checked_tables_within: "reads_within U p T s \<Longrightarrow> checked_tables U s \<subseteq> T"
  by (auto simp: reads_within_def checked_tables_def)

lemma reads_within_no_ctes:
  "reads_within U p T s \<Longrightarrow> st_ctes s = [] \<Longrightarrow> checked_tables U s = tb_name ` set (st_tables s)"
  by (auto simp: checked_tables_def named_like_cte_def)

lemma qualify_columns_Inr:
  "qualify_columns sg s p = Inr q \<longleftrightarrow>
     (if allowed_columns p = [] then q = s
      else sg_qualify sg (allowed_schema p, allowed_columns p) s = Some q \<and> st_is_query q)"
  by (auto simp: qualify_columns_def split: option.splits if_splits)

lemmas inspect_checks = check_functions_Inr check_query_shape_Inr check_tables_Inr
  qualify_columns_Inr functions_safe_def shape_safe_def mk_guarded_query_Inr

text \<open>
  C4. What the guard lets through, exactly: a query text is accepted iff it parses to one query
  statement without a forbidden node, calls no function on the deny list and no function the
  parser does not know, has no recursive \<open>WITH\<close> at its root, no \<open>CROSS\<close>, unconditioned or
  constantly true join, refers only to CTE names or to allowed tables of the allowed schema,
  and qualifies against the allowed columns into a query whose text is not empty and can be
  encoded.
\<close>

theorem guard_accepts_exactly:
  assumes "sha_digests sha" and "1 \<le> max_rows p"
  shows "(\<exists>g. inspect U sg sha query p = Inr g) \<longleftrightarrow>
    (\<exists>s q. single_query sg query s \<and> functions_safe U s \<and> shape_safe U s \<and> tables_safe U p s
       \<and> qualify_columns sg s p = Inr q \<and> st_sql q \<noteq> [] \<and> utf8_encode (st_sql q) \<noteq> None)"
proof -
  have "fingerprint sha x = Inr f \<Longrightarrow> fingerprint_pattern f" for x f
    by (rule fingerprint_matches [OF assms(1)])
  moreover have "(\<exists>f. fingerprint sha x = Inr f) \<longleftrightarrow> utf8_encode x \<noteq> None" for x
    by (auto simp: fingerprint_def split: option.splits)
  ultimately show ?thesis
    using assms(2) unfolding inspect_Inr
    by (fastforce simp: check_functions_Inr check_query_shape_Inr check_tables_Inr
        functions_safe_def shape_safe_def mk_guarded_query_Inr guarded_of_def)
qed

lemma inspect_contents:
  assumes "inspect U sg sha query p = Inr g"
  shows "\<exists>s. single_query sg query s \<and> row_fetch_limit g = max_rows p + 1 \<and> 2 \<le> row_fetch_limit g
    \<and> bounded_sql g = bound_sql (normalized_sql g) (max_rows p)
    \<and> fingerprint sha (normalized_sql g) = Inr (query_fingerprint g)
    \<and> sorted (referenced_tables g) \<and> distinct (referenced_tables g)
    \<and> set (referenced_tables g) = qualified_name p ` checked_tables U s
    \<and> reads_within U p (allowed_tables p) s"
proof -
  from assms obtain s q f tables where s: "single_query sg query s" "tables_safe U p s"
    and t: "tables = qualified_name p ` checked_tables U s"
    and f: "qualify_columns sg s p = Inr q" "fingerprint sha (st_sql q) = Inr f"
    and g: "mk_guarded_query (guarded_of p (st_sql q) f tables) = Inr g"
    unfolding inspect_Inr check_tables_Inr by (elim exE conjE)
  then show ?thesis
    by (intro exI [of _ s]) (auto simp: mk_guarded_query_Inr guarded_of_def tables_safe_reads)
qed

text \<open>What callers need of an accepted text: which tables it may refer to, and the row limit.\<close>

lemma inspect_reads:
  assumes "inspect U sg sha query p = Inr g"
  obtains s where "single_query sg query s" "reads_within U p (allowed_tables p) s"
    "set (referenced_tables g) \<subseteq> qualified_name p ` allowed_tables p" "row_fetch_limit g = max_rows p + 1"
proof -
  from inspect_contents [OF assms] obtain s where s: "single_query sg query s"
    "reads_within U p (allowed_tables p) s" "row_fetch_limit g = max_rows p + 1"
    "set (referenced_tables g) = qualified_name p ` checked_tables U s" by blast
  with that checked_tables_within [OF s(2)] show thesis by (metis image_mono)
qed

text \<open>
  C16. What an accepted query carries: the fetch limit is one row above the policy's row limit
  and at least two, the bounded text wraps the normalised text in exactly that limit, the
  fingerprint is that of the normalised text, and the referenced tables are, in strictly
  ascending order, the schema-qualified names of the statement's table references, save the
  unqualified ones that bear the name of one of its CTEs. Each reference that is listed is in the
  policy's schema and allowed; a statement without CTEs lists every table it refers to. Which
  references a CTE's name hides from the list is the gap \<open>cte_name_hides_table\<close> shows.
\<close>

theorem guarded_query_contents:
  assumes "inspect U sg sha query p = Inr g"
  shows "\<exists>s. single_query sg query s \<and> row_fetch_limit g = max_rows p + 1 \<and> 2 \<le> row_fetch_limit g
    \<and> bounded_sql g = bound_sql (normalized_sql g) (max_rows p)
    \<and> fingerprint sha (normalized_sql g) = Inr (query_fingerprint g)
    \<and> sorted (referenced_tables g) \<and> distinct (referenced_tables g)
    \<and> set (referenced_tables g) = (\<lambda>t. allowed_schema p @ [46] @ tb_name t) `
        {t \<in> set (st_tables s). \<not> (tb_db t = [] \<and> u_lower U (tb_name t) \<in> u_lower U ` set (st_ctes s))}
    \<and> (\<forall>t \<in> set (st_tables s). tb_db t = [] \<and> u_lower U (tb_name t) \<in> u_lower U ` set (st_ctes s)
        \<or> tb_catalog t = [] \<and> tb_db t \<in> {[], allowed_schema p} \<and> tb_name t \<in> allowed_tables p)
    \<and> (st_ctes s = [] \<longrightarrow> set (referenced_tables g)
        = (\<lambda>t. allowed_schema p @ [46] @ tb_name t) ` set (st_tables s))"
proof -
  from inspect_contents [OF assms] obtain s where s: "single_query sg query s"
    "row_fetch_limit g = max_rows p + 1" "2 \<le> row_fetch_limit g"
    "bounded_sql g = bound_sql (normalized_sql g) (max_rows p)"
    "fingerprint sha (normalized_sql g) = Inr (query_fingerprint g)"
    "sorted (referenced_tables g)" "distinct (referenced_tables g)"
    "set (referenced_tables g) = qualified_name p ` checked_tables U s"
    "reads_within U p (allowed_tables p) s"
    by blast
  have listed: "qualified_name p ` checked_tables U s = (\<lambda>t. allowed_schema p @ [46] @ tb_name t) `
      {t \<in> set (st_tables s). \<not> (tb_db t = [] \<and> u_lower U (tb_name t) \<in> u_lower U ` set (st_ctes s))}"
    unfolding checked_tables_def named_like_cte_def image_image qualified_name_def ..
  with s show ?thesis
    by (intro exI [of _ s]) (auto simp: reads_within_def named_like_cte_def)
qed











section \<open>Concrete instances\<close>

definition orders_statement :: statement where
  "orders_statement = \<lparr>st_is_query = True, st_nodes = [Other_node], st_functions = [],
     st_with_recursive = False, st_inner_recursive = False, st_joins = [], st_ctes = [],
     st_tables = [\<lparr>tb_name = lit ''orders'', tb_db = lit ''northwind'', tb_catalog = [],
       tb_alias_or_name = lit ''orders''\<rparr>],
     st_columns = [\<lparr>cl_table = lit ''orders'', cl_name = lit ''order_id''\<rparr>],
     st_sql = lit ''SELECT orders.order_id FROM northwind.orders''\<rparr>"

definition orders_sqlglot :: sqlglot where
  "orders_sqlglot = \<lparr>sg_parse = (\<lambda>q. Some [Some orders_statement]),
     sg_qualify = (\<lambda>schema s. Some s)\<rparr>"

definition zero_sha :: "nat list \<Rightarrow> pystr" where
  "zero_sha b = replicate 64 48"

definition orders_query :: pystr where
  "orders_query = lit ''SELECT order_id FROM northwind.orders''"

lemma zero_sha_digests [simp]: "sha_digests zero_sha"
  by (simp add: sha_digests_def hex64_def zero_sha_def is_hex_def ascii_digit_def)

lemma orders_utf8: "\<exists>b. utf8_encode (st_sql orders_statement) = Some b"
proof -
  have "utf8_encode (st_sql orders_statement) \<noteq> None" by code_simp
  then show ?thesis by blast
qed

lemma orders_single: "single_query orders_sqlglot orders_query orders_statement"
proof -
  have "strip orders_query \<noteq> []" by code_simp
  then show ?thesis
    by (simp add: single_query_def orders_sqlglot_def orders_statement_def forbidden_nodes_def)
qed

lemma orders_safe:
  "functions_safe ascii_uni orders_statement" "shape_safe ascii_uni orders_statement"
  "tables_safe ascii_uni two_table_policy orders_statement"
  "qualify_columns orders_sqlglot orders_statement two_table_policy = Inr orders_statement"
  "st_sql orders_statement \<noteq> []"
  by (simp_all add: functions_safe_def shape_safe_def tables_safe_def table_accepted_def
      qualify_columns_Inr orders_statement_def orders_sqlglot_def two_table_policy_def)

theorem guard_accepts_exactly_witness:
  "\<exists>g. inspect ascii_uni orders_sqlglot zero_sha orders_query two_table_policy = Inr g"
proof -
  have rows: "1 \<le> max_rows two_table_policy" by (simp add: two_table_policy_def)
  show ?thesis
    unfolding guard_accepts_exactly [OF zero_sha_digests rows]
    using orders_single orders_safe orders_utf8 by blast
qed

lemma orders_accepted:
  "\<exists>g. inspect ascii_uni orders_sqlglot zero_sha orders_query two_table_policy = Inr g"
proof -
  obtain b where b: "utf8_encode (st_sql orders_statement) = Some b" using orders_utf8 by blast
  then have "fingerprint zero_sha (st_sql orders_statement) = Inr (lit ''sha256:'' @ zero_sha b)"
    by (simp add: fingerprint_def)
  then show ?thesis
    using orders_safe fingerprint_matches [OF zero_sha_digests]
    by (simp add: inspect_single [OF orders_single] check_functions_Inr check_query_shape_Inr
        check_tables_Inr functions_safe_def shape_safe_def mk_guarded_query_Inr guarded_of_def
        two_table_policy_def)
qed

theorem guarded_query_contents_witness:
  "\<exists>g. inspect ascii_uni orders_sqlglot zero_sha orders_query two_table_policy = Inr g
     \<and> row_fetch_limit g = 101 \<and> set (referenced_tables g) = {lit ''northwind.orders''}"
proof -
  obtain g where g: "inspect ascii_uni orders_sqlglot zero_sha orders_query two_table_policy = Inr g"
    using orders_accepted by blast
  from guarded_query_contents [OF g] obtain s where
    s: "single_query orders_sqlglot orders_query s" "row_fetch_limit g = max_rows two_table_policy + 1"
      "st_ctes s = [] \<longrightarrow> set (referenced_tables g)
         = (\<lambda>t. allowed_schema two_table_policy @ [46] @ tb_name t) ` set (st_tables s)"
    by blast
  from s(1) orders_single have "s = orders_statement" by (simp add: single_query_def)
  moreover have "allowed_schema two_table_policy @ [46] @ lit ''orders'' = lit ''northwind.orders''" by code_simp
  moreover have "max_rows two_table_policy = 100" by code_simp
  ultimately show ?thesis using s(2,3) g by (simp add: orders_statement_def)
qed


text \<open>
  A gap of the table check, which the header reports: a bare reference is skipped as soon as any
  CTE of the statement has that name, wherever the CTE's scope is. The statement below reads
  the table \<open>employees\<close> outside the subquery that declares a CTE of the same name.
\<close>

definition shadowing_statement :: statement where
  "shadowing_statement = orders_statement
     \<lparr>st_ctes := [lit ''employees''],
      st_tables := [\<lparr>tb_name = lit ''employees'', tb_db = [], tb_catalog = [],
        tb_alias_or_name = lit ''employees''\<rparr>]\<rparr>"

lemma cte_name_hides_table:
  "check_tables ascii_uni shadowing_statement two_table_policy = Inr {}
   \<and> lit ''employees'' \<notin> allowed_tables two_table_policy"
  by code_simp

end
