(* ===== verification/Data_Source.thy ===== *)
theory Data_Source
  imports Errors
begin

text \<open>
  The read-only business data source (\<open>data_sources/models.py\<close>, \<open>data_sources/service.py\<close>):
  the validated configuration, its connection parameters and its redacted representation,
  and the mapping of driver errors. The driver (\<open>psycopg.connect\<close>, a connection's answer to
  the check query) is an argument.
\<close>

text \<open>The identifier pattern \<open>^[a-z_][a-z0-9_]*$\<close>.\<close>

definition ident_start :: "nat \<Rightarrow> bool" where
  "ident_start c \<longleftrightarrow> 97 \<le> c \<and> c \<le> 122 \<or> c = 95"

fun is_pg_identifier :: "pystr \<Rightarrow> bool" where
  "is_pg_identifier [] = False"
| "is_pg_identifier (c # cs) =
     (ident_start c \<and> list_all (\<lambda>d. ident_start d \<or> ascii_digit d) cs)"

record business_settings =
  bs_host :: pystr
  bs_port :: int
  bs_name :: pystr
  bs_readonly_user :: pystr
  bs_readonly_password :: pystr
  bs_allowed_schema :: pystr
  bs_connect_timeout_seconds :: int
  bs_statement_timeout_ms :: int

record data_source_config =
  ds_source_id :: pystr
  ds_host :: pystr
  ds_port :: int
  ds_database :: pystr
  ds_username :: pystr
  ds_password :: pystr
  ds_allowed_schema :: pystr
  ds_connect_timeout_seconds :: int
  ds_statement_timeout_ms :: int

text \<open>\<open>__post_init__\<close>\<close>

definition check_config :: "data_source_config \<Rightarrow> exn + data_source_config" where
  "check_config c =
     (if \<not> is_pg_identifier (ds_allowed_schema c)
      then Inl (Py (ValueError (lit ''allowed_schema must be a simple PostgreSQL identifier'')))
      else if \<not> (1 \<le> ds_port c \<and> ds_port c \<le> 65535)
      then Inl (Py (ValueError (lit ''port must be between 1 and 65535'')))
      else if ds_connect_timeout_seconds c \<le> 0 \<or> ds_statement_timeout_ms c \<le> 0
      then Inl (Py (ValueError (lit ''database timeouts must be positive'')))
      else Inr c)"

definition config_from_settings :: "business_settings \<Rightarrow> exn + data_source_config" where
  "config_from_settings s = check_config
     \<lparr>ds_source_id = lit ''northwind-demo'', ds_host = bs_host s, ds_port = bs_port s,
      ds_database = bs_name s, ds_username = bs_readonly_user s,
      ds_password = bs_readonly_password s, ds_allowed_schema = bs_allowed_schema s,
      ds_connect_timeout_seconds = bs_connect_timeout_seconds s,
      ds_statement_timeout_ms = bs_statement_timeout_ms s\<rparr>"

datatype param = PStr pystr | PInt int

definition connection_parameters :: "data_source_config \<Rightarrow> (pystr \<times> param) list" where
  "connection_parameters c =
     [(lit ''host'', PStr (ds_host c)), (lit ''port'', PInt (ds_port c)),
      (lit ''dbname'', PStr (ds_database c)), (lit ''user'', PStr (ds_username c)),
      (lit ''password'', PStr (ds_password c)),
      (lit ''connect_timeout'', PInt (ds_connect_timeout_seconds c)),
      (lit ''options'',
       PStr (lit ''-c statement_timeout='' @ str_int (ds_statement_timeout_ms c)))]"

text \<open>\<open>__repr__\<close>; \<open>repr_str\<close> is \<open>repr\<close> of a text.\<close>

definition config_repr :: "(pystr \<Rightarrow> pystr) \<Rightarrow> data_source_config \<Rightarrow> pystr" where
  "config_repr repr_str c =
     lit ''DataSourceConfig(source_id='' @ repr_str (ds_source_id c)
     @ lit '', host='' @ repr_str (ds_host c) @ lit '', port='' @ str_int (ds_port c)
     @ lit '', database='' @ repr_str (ds_database c)
     @ lit '', username='' @ repr_str (ds_username c)
     @ lit '', password=SecretStr('' @ [39] @ lit ''**********'' @ [39] @ lit ''), allowed_schema=''
     @ repr_str (ds_allowed_schema c) @ lit '')''"

text \<open>The two \<open>except\<close> clauses of \<open>connect\<close> and \<open>test_connection\<close>.\<close>

definition connect_error :: "exn \<Rightarrow> exn" where
  "connect_error e =
     (if e = Pg PgInsufficientPrivilege then DataSource DataSourcePermissionError
      else if is_pg_operational e \<or> is_os_error e then DataSource DataSourceUnavailableError
      else e)"

definition ds_connect ::
  "((pystr \<times> param) list \<Rightarrow> exn + 'conn) \<Rightarrow> data_source_config \<Rightarrow> exn + 'conn" where
  "ds_connect factory c = (case factory (connection_parameters c) of
     Inl e \<Rightarrow> Inl (connect_error e) | Inr conn \<Rightarrow> Inr conn)"

record connection_check =
  cc_source_id :: pystr
  cc_database :: pystr
  cc_username :: pystr
  cc_read_only :: bool

definition test_connection ::
  "((pystr \<times> param) list \<Rightarrow> exn + 'conn) \<Rightarrow> ('conn \<Rightarrow> exn + pystr \<times> pystr \<times> bool)
     \<Rightarrow> data_source_config \<Rightarrow> exn + connection_check" where
  "test_connection factory ask c =
     (case res_bind (ds_connect factory c) ask of
        Inl e \<Rightarrow> Inl (connect_error e)
      | Inr (db, user, ro) \<Rightarrow> Inr \<lparr>cc_source_id = ds_source_id c, cc_database = db,
          cc_username = user, cc_read_only = ro\<rparr>)"

lemma check_config_Inr:
  "check_config c = Inr c' \<longleftrightarrow> c' = c \<and> is_pg_identifier (ds_allowed_schema c)
     \<and> 1 \<le> ds_port c \<and> ds_port c \<le> 65535 \<and> 0 < ds_connect_timeout_seconds c
     \<and> 0 < ds_statement_timeout_ms c"
  by (auto simp: check_config_def)

lemma connect_error_idem [simp]: "connect_error (connect_error e) = connect_error e"
  by (auto simp: connect_error_def)

text \<open>
  The password reaches the driver and nothing else: two configurations that differ only in
  the password have the same representation and pass the same checks, and the representation
  is the same text whatever the password is, while the connection parameters carry it.
\<close>

theorem password_not_in_repr:
  "config_repr r (c\<lparr>ds_password := p\<rparr>) = config_repr r c
   \<and> (\<exists>e. check_config c = Inl e \<and> check_config (c\<lparr>ds_password := p\<rparr>) = Inl e
        \<or> check_config c = Inr c \<and> check_config (c\<lparr>ds_password := p\<rparr>) = Inr (c\<lparr>ds_password := p\<rparr>))
   \<and> map_of (connection_parameters (c\<lparr>ds_password := p\<rparr>)) (lit ''password'') = Some (PStr p)"
  by (auto simp: config_repr_def check_config_def connection_parameters_def)

definition driver_failure :: "exn \<Rightarrow> bool" where
  "driver_failure e \<longleftrightarrow> e = Pg PgInsufficientPrivilege \<or> is_pg_operational e \<or> is_os_error e"

text \<open>
  \<open>test_connection\<close> lets no driver exception through: for a factory and a connection that
  fail only with driver errors of the three kinds the module names (privilege, operational,
  operating system) the failure a caller sees is one of the two data source errors, whichever
  of the two steps failed.
\<close>

theorem test_connection_errors_are_public:
  assumes "\<And>ps e. factory ps = Inl e \<Longrightarrow> driver_failure e"
    and "\<And>conn e. ask conn = Inl e \<Longrightarrow> driver_failure e"
    and "test_connection factory ask c = Inl e"
  shows "e = DataSource DataSourceUnavailableError \<or> e = DataSource DataSourcePermissionError"
  using assms
  by (fastforce simp: test_connection_def ds_connect_def connect_error_def driver_failure_def
        split: sum.splits if_splits)

definition refusing_factory :: "(pystr \<times> param) list \<Rightarrow> exn + unit" where
  "refusing_factory ps = Inl (Pg PgInsufficientPrivilege)"

definition silent_connection :: "unit \<Rightarrow> exn + pystr \<times> pystr \<times> bool" where
  "silent_connection u = Inl (Py BuiltinTimeoutError)"

definition northwind_config :: data_source_config where
  "northwind_config = \<lparr>ds_source_id = lit ''northwind-demo'', ds_host = lit ''localhost'',
     ds_port = 5433, ds_database = lit ''northwind'', ds_username = lit ''northwind_reader'',
     ds_password = lit ''secret'', ds_allowed_schema = lit ''northwind'',
     ds_connect_timeout_seconds = 3, ds_statement_timeout_ms = 2000\<rparr>"

theorem test_connection_errors_are_public_witness:
  "\<exists>e. test_connection refusing_factory silent_connection northwind_config = Inl e
     \<and> (e = DataSource DataSourceUnavailableError \<or> e = DataSource DataSourcePermissionError)"
proof -
  have "test_connection refusing_factory silent_connection northwind_config
      = Inl (DataSource DataSourcePermissionError)"
    by (simp add: test_connection_def ds_connect_def refusing_factory_def connect_error_def)
  then show ?thesis
    using test_connection_errors_are_public [of refusing_factory silent_connection northwind_config]
    by (auto simp: refusing_factory_def silent_connection_def driver_failure_def)
qed

end
