(* ===== verification/Query_Executor.thy ===== *)
theory Query_Executor
  imports Query_Policy Data_Source
begin

text \<open>
  \<open>query_safety/executor.py\<close> and \<open>query_safety/cost.py\<close>: the two adapters that talk to
  PostgreSQL. The database is an argument: it is given the configuration and the commands of
  one transaction, in order, and answers with a driver error or the cursor's contents. What
  the code does with the answer (column checks, row and byte limits, plan parsing, error
  mapping) is modelled in full.
\<close>

section \<open>The database as an argument\<close>

text \<open>A cell is a JSON value or a value \<open>json.dumps\<close> writes as its \<open>str\<close>.\<close>

datatype cell = CJson json | CStr pystr

fun cell_json :: "cell \<Rightarrow> json" where
  "cell_json (CJson j) = j"
| "cell_json (CStr s) = JStr s"

type_synonym command = "pystr \<times> pystr list"

record db_answer =
  ans_description :: "pystr list option"
  ans_rows :: "cell list list"

type_synonym database = "data_source_config \<Rightarrow> command list \<Rightarrow> exn + db_answer"

definition read_only_session :: "data_source_config \<Rightarrow> pystr \<Rightarrow> command list" where
  "read_only_session config sql =
     [(lit ''SET TRANSACTION READ ONLY'', []),
      (lit ''SELECT set_config('' @ [39] @ lit ''statement_timeout'' @ [39] @ lit '', %s, true)'',
       [str_int (ds_statement_timeout_ms config)]),
      (sql, [])]"

text \<open>The \<open>except\<close> clauses shared by both adapters, in order.\<close>

fun query_error :: "exn \<Rightarrow> exn" where
  "query_error (QuerySafety e) = QuerySafety e"
| "query_error (Pg PgQueryCanceled) = QuerySafety QueryTimeoutError"
| "query_error (Pg PgInsufficientPrivilege) = QuerySafety QueryPermissionError"
| "query_error (Pg e) = QuerySafety QueryExecutionError"
| "query_error (DataSource e) = QuerySafety QueryExecutionError"
| "query_error (Py OSError) = QuerySafety QueryExecutionError"
| "query_error (Py BuiltinTimeoutError) = QuerySafety QueryExecutionError"
| "query_error e = e"

section \<open>Bounding a result\<close>

definition result_json :: "pystr list \<Rightarrow> row list \<Rightarrow> json" where
  "result_json cols rows =
     JObj [(lit ''columns'', jstrs cols), (lit ''rows'', JList (map JObj rows))]"

definition row_of :: "pystr list \<Rightarrow> cell list \<Rightarrow> row" where
  "row_of cols raw = dict_of (zip cols (map cell_json raw))"

text \<open>
  The row loop of \<open>_bounded_result\<close>: it stops at the first row that does not fit. A row of the
  wrong width is the \<open>ValueError\<close> of \<open>zip(..., strict=True)\<close>.
\<close>

fun add_rows ::
  "(real \<Rightarrow> pystr) \<Rightarrow> query_policy \<Rightarrow> pystr list \<Rightarrow> cell list list \<Rightarrow> row list \<Rightarrow> int \<Rightarrow> bool
     \<Rightarrow> exn + row list \<times> int \<times> bool" where
  "add_rows fr p cols [] rows used trunc = Inr (rows, used, trunc)"
| "add_rows fr p cols (raw # raws) rows used trunc =
     (if length raw \<noteq> length cols then Inl (Py (ValueError (lit ''zip'')))
      else (case byte_size (dumps (compact_style fr) (JObj (row_of cols raw))) of
        None \<Rightarrow> Inl encode_error
      | Some n \<Rightarrow>
          (let added = int n + (if rows = [] then 0 else 1) in
           if used + added > max_result_bytes p then Inr (rows, used, True)
           else add_rows fr p cols raws (rows @ [row_of cols raw]) (used + added) trunc)))"

definition bounded_result ::
  "(real \<Rightarrow> pystr) \<Rightarrow> pystr list \<Rightarrow> cell list list \<Rightarrow> query_policy \<Rightarrow> exn + query_execution_result"
  where
  "bounded_result fr cols raw_rows p =
     (case byte_size (dumps (compact_style fr) (result_json cols [])) of
        None \<Rightarrow> Inl encode_error
      | Some base \<Rightarrow>
          if int base > max_result_bytes p then Inl (QuerySafety QueryResultLimitError)
          else res_bind
            (add_rows fr p cols (take (nat (max_rows p)) raw_rows) [] (int base)
               (int (length raw_rows) > max_rows p))
            (\<lambda>(rows, used, trunc). Inr \<lparr>res_columns = cols, res_rows = rows,
               returned_row_count = int (length rows), serialized_bytes = used,
               truncated = trunc\<rparr>))"

section \<open>The executor\<close>

definition fetch ::
  "database \<Rightarrow> guarded_query \<Rightarrow> data_source_config \<Rightarrow> query_policy
     \<Rightarrow> exn + pystr list \<times> cell list list" where
  "fetch db q config p =
     res_bind (db config (read_only_session config (bounded_sql q))) (\<lambda>ans.
       case ans_description ans of
         None \<Rightarrow> Inl (QuerySafety QueryExecutionError)
       | Some cols \<Rightarrow>
           if int (length cols) > max_columns p \<or> has_duplicates cols
           then Inl (QuerySafety QueryResultLimitError)
           else Inr (cols, take (nat (row_fetch_limit q)) (ans_rows ans)))"

definition pg_execute ::
  "(real \<Rightarrow> pystr) \<Rightarrow> database \<Rightarrow> guarded_query \<Rightarrow> data_source_config \<Rightarrow> query_policy
     \<Rightarrow> exn + query_execution_result" where
  "pg_execute fr db q config p =
     (case fetch db q config p of
        Inl e \<Rightarrow> Inl (query_error e)
      | Inr (cols, raw) \<Rightarrow> bounded_result fr cols raw p)"

section \<open>The cost estimator\<close>

text \<open>
  \<open>json.loads\<close>, and \<open>float\<close> and \<open>int\<close> of a text, are arguments; the planner answers with the
  first column of its row, if there is a row.
\<close>

record py_parsers =
  json_loads :: "pystr \<Rightarrow> exn + json"
  float_of_text :: "pystr \<Rightarrow> real option"
  int_of_text :: "pystr \<Rightarrow> int option"

fun py_float :: "py_parsers \<Rightarrow> json \<Rightarrow> real option" where
  "py_float P (JInt i) = Some (real_of_int i)"
| "py_float P (JFloat x) = Some x"
| "py_float P (JBool b) = Some (if b then 1 else 0)"
| "py_float P (JStr s) = float_of_text P s"
| "py_float P _ = None"

fun py_int :: "py_parsers \<Rightarrow> json \<Rightarrow> int option" where
  "py_int P (JInt i) = Some i"
| "py_int P (JFloat x) = Some (if x < 0 then - \<lfloor>- x\<rfloor> else \<lfloor>x\<rfloor>)"
| "py_int P (JBool b) = Some (if b then 1 else 0)"
| "py_int P (JStr s) = int_of_text P s"
| "py_int P _ = None"

text \<open>\<open>payload[0]["Plan"]\<close> and the two numbers; any other shape is a caught error.\<close>

fun plan_of :: "json \<Rightarrow> (pystr \<times> json) list option" where
  "plan_of (JList (JObj kvs # _)) =
     (case map_of kvs (lit ''Plan'') of Some (JObj plan) \<Rightarrow> Some plan | _ \<Rightarrow> None)"
| "plan_of _ = None"

definition estimate_of_plan :: "py_parsers \<Rightarrow> (pystr \<times> json) list \<Rightarrow> query_cost_estimate option"
  where
  "estimate_of_plan P plan =
     (case (map_of plan (lit ''Total Cost''), map_of plan (lit ''Plan Rows'')) of
        (Some c, Some r) \<Rightarrow>
          (case (py_float P c, py_int P r) of
             (Some cost, Some rows) \<Rightarrow>
               (case mk_estimate cost rows of Inl _ \<Rightarrow> None | Inr e \<Rightarrow> Some e)
           | _ \<Rightarrow> None)
      | _ \<Rightarrow> None)"

definition estimate_of_payload :: "py_parsers \<Rightarrow> json option \<Rightarrow> exn + query_cost_estimate" where
  "estimate_of_payload P payload =
     (let parsed = (case payload of
          None \<Rightarrow> None
        | Some (JStr s) \<Rightarrow> (case json_loads P s of Inl _ \<Rightarrow> None | Inr j \<Rightarrow> Some j)
        | Some j \<Rightarrow> Some j)
      in case Option.bind (Option.bind parsed plan_of) (estimate_of_plan P) of
           None \<Rightarrow> Inl (QuerySafety QueryExecutionError)
         | Some e \<Rightarrow> Inr e)"

definition pg_estimate ::
  "py_parsers \<Rightarrow> (data_source_config \<Rightarrow> command list \<Rightarrow> exn + json option) \<Rightarrow> guarded_query
     \<Rightarrow> data_source_config \<Rightarrow> exn + query_cost_estimate" where
  "pg_estimate P planner q config =
     (case planner config (read_only_session config
             (lit ''EXPLAIN (FORMAT JSON) '' @ normalized_sql q)) of
        Inl e \<Rightarrow> Inl (query_error e)
      | Inr payload \<Rightarrow> estimate_of_payload P payload)"

section \<open>Lemmas\<close>

lemma row_bytes_snoc:
  assumes "byte_size (dumps (compact_style fr) (result_json cols rows)) = Some m"
    and "byte_size (dumps (compact_style fr) (JObj r)) = Some n"
  shows "byte_size (dumps (compact_style fr) (result_json cols (rows @ [r])))
    = Some (m + n + (if rows = [] then 0 else 1))"
proof -
  define front where "front = lit ''{'' @ json_string False (lit ''columns'') @ lit '':''
    @ dumps (compact_style fr) (jstrs cols) @ lit '','' @ json_string False (lit ''rows'')
    @ lit '':['' "
  define items where "items = map (\<lambda>r. dumps (compact_style fr) (JObj r))"
  have shape: "dumps (compact_style fr) (result_json cols rs) = front @ join (lit '','') (items rs) @ lit '']}''"
    for rs
    by (simp add: result_json_def front_def items_def compact_style_def comp_def lit_def)
  have comma: "byte_size (lit '','') = Some 1"
    by (simp add: byte_size_def lit_def utf8_char_def)
  show ?thesis
  proof (cases "rows = []")
    case True
    then have "items rows = []" by (simp add: items_def)
    with assms True show ?thesis
      unfolding shape by (auto simp: items_def byte_size_append split: option.splits)
  next
    case False
    then have "items rows \<noteq> []" by (simp add: items_def)
    then have j: "join (lit '','') (items (rows @ [r]))
        = join (lit '','') (items rows) @ lit '','' @ dumps (compact_style fr) (JObj r)"
      by (simp add: items_def join_snoc)
    from assms False show ?thesis
      unfolding shape j by (auto simp: byte_size_append comma split: option.splits)
  qed
qed

lemma add_rows_sound:
  assumes "add_rows fr p cols raws rows used trunc = Inr (rows', used', trunc')"
    and "byte_size (dumps (compact_style fr) (result_json cols rows)) = Some m" "used = int m"
    and "used \<le> max_result_bytes p"
  shows "byte_size (dumps (compact_style fr) (result_json cols rows')) = Some (nat used')
    \<and> 0 \<le> used' \<and> used' \<le> max_result_bytes p
    \<and> (\<exists>k \<le> length raws. rows' = rows @ map (row_of cols) (take k raws)
         \<and> trunc' = (trunc \<or> k < length raws))"
  using assms
proof (induction raws arbitrary: rows used m)
  case Nil
  then show ?case by auto
next
  case (Cons raw raws)
  from Cons.prems(1) obtain n where
    n: "byte_size (dumps (compact_style fr) (JObj (row_of cols raw))) = Some n"
    by (auto split: if_splits option.splits)
  define added where "added = int n + (if rows = [] then 0 else 1)"
  show ?case
  proof (cases "used + added > max_result_bytes p")
    case True
    with Cons.prems n have "rows' = rows" "used' = used" "trunc'"
      by (auto simp: added_def Let_def split: if_splits)
    with Cons.prems show ?thesis by (auto intro!: exI [of _ 0])
  next
    case False
    from Cons.prems n False have
      rec: "add_rows fr p cols raws (rows @ [row_of cols raw]) (used + added) trunc
        = Inr (rows', used', trunc')"
      by (auto simp: added_def Let_def split: if_splits)
    have m: "byte_size (dumps (compact_style fr) (result_json cols (rows @ [row_of cols raw])))
        = Some (m + n + (if rows = [] then 0 else 1))"
      by (rule row_bytes_snoc [OF Cons.prems(2) n])
    have sz: "used + added = int (m + n + (if rows = [] then 0 else 1))"
      using Cons.prems(3) by (simp add: added_def)
    from Cons.IH [OF rec m sz] False obtain k where
      k: "k \<le> length raws" "rows' = (rows @ [row_of cols raw]) @ map (row_of cols) (take k raws)"
        "trunc' = (trunc \<or> k < length raws)"
        "byte_size (dumps (compact_style fr) (result_json cols rows')) = Some (nat used')"
        "0 \<le> used'" "used' \<le> max_result_bytes p"
      by auto
    then show ?thesis by (auto intro!: exI [of _ "Suc k"])
  qed
qed

text \<open>What a result promises of the policy it was bounded by.\<close>

definition within_policy :: "query_policy \<Rightarrow> query_execution_result \<Rightarrow> bool" where
  "within_policy p r \<longleftrightarrow> int (length (res_rows r)) \<le> max_rows p
     \<and> returned_row_count r = int (length (res_rows r))
     \<and> 0 \<le> serialized_bytes r \<and> serialized_bytes r \<le> max_result_bytes p
     \<and> int (length (res_columns r)) \<le> max_columns p \<and> distinct (res_columns r)"

lemma bounded_result_Inr:
  assumes "bounded_result fr cols raw p = Inr r" and "0 \<le> max_rows p"
  shows "\<exists>k \<le> length (take (nat (max_rows p)) raw).
    res_columns r = cols \<and> res_rows r = map (row_of cols) (take k raw)
    \<and> returned_row_count r = int k \<and> truncated r = (k < length raw)
    \<and> 0 \<le> serialized_bytes r \<and> serialized_bytes r \<le> max_result_bytes p
    \<and> byte_size (dumps (compact_style fr) (result_json cols (res_rows r)))
        = Some (nat (serialized_bytes r))"
proof -
  from assms(1) obtain base rows used trunc where
    base: "byte_size (dumps (compact_style fr) (result_json cols [])) = Some base"
      "int base \<le> max_result_bytes p"
    and run: "add_rows fr p cols (take (nat (max_rows p)) raw) [] (int base)
        (int (length raw) > max_rows p) = Inr (rows, used, trunc)"
    and r: "r = \<lparr>res_columns = cols, res_rows = rows, returned_row_count = int (length rows),
        serialized_bytes = used, truncated = trunc\<rparr>"
    by (auto simp: bounded_result_def split: option.splits if_splits)
  note sound = add_rows_sound [OF run base(1) refl base(2)]
  from sound have s: "byte_size (dumps (compact_style fr) (result_json cols rows)) = Some (nat used)"
      "0 \<le> used" "used \<le> max_result_bytes p"
    by blast+
  from sound obtain k where
    k: "k \<le> length (take (nat (max_rows p)) raw)"
      "rows = [] @ map (row_of cols) (take k (take (nat (max_rows p)) raw))"
      "trunc = (int (length raw) > max_rows p \<or> k < length (take (nat (max_rows p)) raw))"
    by blast
  from k have "rows = map (row_of cols) (take k raw)" by (simp add: min_absorb1)
  moreover from k assms(2) have "trunc = (k < length raw)" by auto
  ultimately show ?thesis using k s r by (intro exI [of _ k]) auto
qed

lemma fetch_Inr:
  "fetch db q config p = Inr (cols, raw) \<longleftrightarrow>
     (\<exists>ans. db config (read_only_session config (bounded_sql q)) = Inr ans
        \<and> ans_description ans = Some cols \<and> int (length cols) \<le> max_columns p \<and> distinct cols
        \<and> raw = take (nat (row_fetch_limit q)) (ans_rows ans))"
  by (auto simp: fetch_def split: option.splits if_splits)

lemma pg_execute_InrD:
  assumes "pg_execute fr db q config p = Inr r"
  obtains cols raw where "fetch db q config p = Inr (cols, raw)"
    "bounded_result fr cols raw p = Inr r"
  using assms by (auto simp: pg_execute_def split: sum.splits prod.splits)

lemma pg_execute_within:
  assumes "pg_execute fr db q config p = Inr r" and "0 \<le> max_rows p"
  shows "within_policy p r"
proof -
  from assms(1) obtain cols raw where f: "fetch db q config p = Inr (cols, raw)"
    and b: "bounded_result fr cols raw p = Inr r"
    by (rule pg_execute_InrD)
  from bounded_result_Inr [OF b assms(2)] f assms(2) show ?thesis
    by (auto simp: within_policy_def fetch_Inr)
qed

lemma estimate_of_plan_nonneg:
  "estimate_of_plan P plan = Some est \<Longrightarrow> 0 \<le> total_cost est \<and> 0 \<le> plan_rows est"
  by (auto simp: estimate_of_plan_def mk_estimate_def split: option.splits if_splits)

lemma estimate_of_payload_cases:
  "(\<exists>est. estimate_of_payload P payload = Inr est \<and> 0 \<le> total_cost est \<and> 0 \<le> plan_rows est)
   \<or> estimate_of_payload P payload = Inl (QuerySafety QueryExecutionError)"
  using estimate_of_plan_nonneg
  by (auto simp: estimate_of_payload_def Let_def bind_eq_Some_conv split: option.splits)

text \<open>The interface \<open>QueryCostEstimator\<close>: what is returned is a cost and a row count.\<close>

type_synonym estimator = "guarded_query \<Rightarrow> data_source_config \<Rightarrow> exn + query_cost_estimate"

locale cost_estimator =
  fixes estimate :: estimator
  assumes estimate_nonneg: "estimate g c = Inr e \<Longrightarrow> 0 \<le> total_cost e \<and> 0 \<le> plan_rows e"
begin

lemma estimate_valid: "estimate g c = Inr e \<Longrightarrow> mk_estimate (total_cost e) (plan_rows e) = Inr e"
  using estimate_nonneg [of g c e] by (simp add: mk_estimate_def)

end

interpretation pge: cost_estimator "pg_estimate P planner" for P planner
proof unfold_locales
  fix g c e assume "pg_estimate P planner g c = Inr e"
  then obtain payload where "estimate_of_payload P payload = Inr e"
    by (auto simp: pg_estimate_def split: sum.splits)
  with estimate_of_payload_cases [of P payload] show "0 \<le> total_cost e \<and> 0 \<le> plan_rows e"
    by auto
qed

text \<open>
  The interface \<open>QueryExecutor\<close> and what its clients rely on: a result that is returned is
  within the limits of the policy it was executed under.
\<close>

locale query_executor =
  fixes execute :: "guarded_query \<Rightarrow> data_source_config \<Rightarrow> query_policy
    \<Rightarrow> exn + query_execution_result"
  assumes execute_within: "execute q c p = Inr r \<Longrightarrow> 0 \<le> max_rows p \<Longrightarrow> within_policy p r"
begin

lemma execute_counts:
  "execute q c p = Inr r \<Longrightarrow> 0 \<le> max_rows p \<Longrightarrow>
     0 \<le> returned_row_count r \<and> returned_row_count r \<le> max_rows p \<and> 0 \<le> serialized_bytes r
     \<and> serialized_bytes r \<le> max_result_bytes p"
  using execute_within by (fastforce simp: within_policy_def)

end

interpretation pgx: query_executor "pg_execute fr db" for fr db
  by unfold_locales (rule pg_execute_within)

section \<open>Properties\<close>

text \<open>
  C15. A result that reaches the caller is within every limit of the policy (rows, columns,
  bytes), has distinct column names, and its byte count is the exact size in UTF-8 of the
  compact JSON text of the columns and rows, although the code only ever adds up the sizes of
  the single rows and separators.
\<close>

theorem result_bytes_exact_and_bounded:
  assumes "pg_execute fr db q config p = Inr r" and "0 \<le> max_rows p"
  shows "within_policy p r
    \<and> byte_size (dumps (compact_style fr) (result_json (res_columns r) (res_rows r)))
        = Some (nat (serialized_bytes r))"
proof -
  from assms(1) obtain cols raw where "bounded_result fr cols raw p = Inr r"
    by (rule pg_execute_InrD)
  from bounded_result_Inr [OF this assms(2)] pg_execute_within [OF assms] show ?thesis by auto
qed

text \<open>
  C23. The rows returned are a prefix, in order, of the rows the database has, and the result
  is marked truncated exactly when a row was left out, for the row limit or the byte limit:
  the fetch limit of one row above the row limit is enough to tell.
\<close>

theorem truncated_iff_rows_dropped:
  assumes "pg_execute fr db q config p = Inr r" and "0 \<le> max_rows p"
    and "row_fetch_limit q = max_rows p + 1"
    and "db config (read_only_session config (bounded_sql q)) = Inr ans"
  shows "res_rows r = map (row_of (res_columns r)) (take (length (res_rows r)) (ans_rows ans))
    \<and> truncated r = (length (res_rows r) < length (ans_rows ans))"
proof -
  from assms(1) obtain cols raw where f: "fetch db q config p = Inr (cols, raw)"
    and b: "bounded_result fr cols raw p = Inr r"
    by (rule pg_execute_InrD)
  from f assms(3,4) have raw: "raw = take (nat (max_rows p + 1)) (ans_rows ans)"
    by (simp add: fetch_Inr)
  from bounded_result_Inr [OF b assms(2)] obtain k where
    k: "k \<le> length (take (nat (max_rows p)) raw)" "res_columns r = cols"
      "res_rows r = map (row_of cols) (take k raw)" "truncated r = (k < length raw)"
    by blast
  from k(1) have kle: "k \<le> length raw" "k \<le> nat (max_rows p)" by simp_all
  with k(3) have len: "length (res_rows r) = k" by simp
  from kle assms(2) raw have "take k raw = take k (ans_rows ans)"
    by (simp add: min_absorb1)
  moreover have "k < length raw \<longleftrightarrow> k < length (ans_rows ans)"
    using kle assms(2) raw by auto
  ultimately show ?thesis using k len by simp
qed

text \<open>
  The statement is run inside a read-only transaction with the configured time limit: the
  database is asked for exactly one session, whose first command makes the transaction
  read-only, whose second sets the time limit and whose last is the bounded statement. A
  failure of the database or of the connection reaches the caller as one of the errors of the
  module, cancellation as a time-out and missing privilege as a permission error; the only
  other failures are a cell that cannot be encoded and a row of the wrong width.
\<close>

theorem execution_errors_are_public:
  assumes "\<And>c cs e. db c cs = Inl e \<Longrightarrow> (\<exists>x. e = Pg x) \<or> (\<exists>x. e = DataSource x) \<or> is_os_error e"
    and "pg_execute fr db q config p = Inl e"
  shows "(\<exists>x. e = QuerySafety x) \<or> (\<exists>ans. db config (read_only_session config (bounded_sql q)) = Inr ans
      \<and> (e = encode_error \<or> e = Py (ValueError (lit ''zip''))))"
proof (cases "db config (read_only_session config (bounded_sql q))")
  case (Inl d)
  with assms(2) have e: "e = query_error d" by (simp add: pg_execute_def fetch_def)
  from assms(1) [OF Inl] have "\<exists>x. query_error d = QuerySafety x"
    by (elim disjE exE, case_tac x) (auto elim: is_os_error.elims)
  with e show ?thesis by simp
next
  case (Inr ans)
  have rows: "add_rows fr p cols raws rows used t = Inl x \<Longrightarrow>
      x = encode_error \<or> x = Py (ValueError (lit ''zip''))" for cols raws rows used t x
    by (induction raws arbitrary: rows used) (auto simp: Let_def split: if_splits option.splits)
  show ?thesis
    using assms(2) Inr
    by (auto simp: pg_execute_def fetch_def bounded_result_def res_bind_eq_Inl
        split: option.splits if_splits sum.splits dest!: rows)
qed

lemma query_error_classes:
  "query_error (Pg PgQueryCanceled) = QuerySafety QueryTimeoutError"
  "query_error (Pg PgInsufficientPrivilege) = QuerySafety QueryPermissionError"
  by simp_all

text \<open>
  An estimate that is returned has a cost and a row count that are not negative; a planner
  answer of any other shape (no row, not a list, no plan object, a missing or unreadable
  number, a negative one) is an execution error, never an estimate.
\<close>

theorem estimate_is_valid_or_refused:
  "(\<exists>est. estimate_of_payload P payload = Inr est \<and> 0 \<le> total_cost est \<and> 0 \<le> plan_rows est)
   \<or> estimate_of_payload P payload = Inl (QuerySafety QueryExecutionError)"
  by (rule estimate_of_payload_cases)

section \<open>Concrete instances\<close>

definition plain_float :: "real \<Rightarrow> pystr" where
  "plain_float x = str_int \<lfloor>x\<rfloor>"

definition two_row_db :: database where
  "two_row_db c cs = Inr \<lparr>ans_description = Some [lit ''order_id''],
     ans_rows = [[CJson (JInt 1)], [CJson (JInt 2)]]\<rparr>"

definition one_row_policy :: query_policy where
  "one_row_policy = two_table_policy\<lparr>max_rows := 1\<rparr>"

definition one_row_query :: guarded_query where
  "one_row_query = \<lparr>normalized_sql = lit ''SELECT order_id FROM northwind.orders'',
     bounded_sql = lit ''SELECT'', query_fingerprint = lit ''f'', referenced_tables = [],
     row_fetch_limit = 2\<rparr>"

lemma one_row_run:
  "pg_execute plain_float two_row_db one_row_query northwind_config one_row_policy =
     Inr \<lparr>res_columns = [lit ''order_id''], res_rows = [[(lit ''order_id'', JInt 1)]],
       returned_row_count = 1, serialized_bytes = 48, truncated = True\<rparr>"
  by code_simp

theorem result_bytes_exact_and_bounded_witness:
  "\<exists>r. pg_execute plain_float two_row_db one_row_query northwind_config one_row_policy = Inr r
     \<and> within_policy one_row_policy r"
  using result_bytes_exact_and_bounded [OF one_row_run] one_row_run
  by (auto simp: one_row_policy_def two_table_policy_def)

theorem truncated_iff_rows_dropped_witness:
  "\<exists>r. pg_execute plain_float two_row_db one_row_query northwind_config one_row_policy = Inr r
     \<and> truncated r \<and> length (res_rows r) = 1"
proof -
  have "row_fetch_limit one_row_query = max_rows one_row_policy + 1" "0 \<le> max_rows one_row_policy"
    by (simp_all add: one_row_query_def one_row_policy_def)
  from truncated_iff_rows_dropped [OF one_row_run this(2) this(1)] one_row_run show ?thesis
    by (simp add: two_row_db_def)
qed

definition canceled_db :: database where
  "canceled_db c cs = Inl (Pg PgQueryCanceled)"

theorem execution_errors_are_public_witness:
  "pg_execute plain_float canceled_db one_row_query northwind_config one_row_policy
     = Inl (QuerySafety QueryTimeoutError)
   \<and> (\<exists>x. QuerySafety QueryTimeoutError = QuerySafety x)"
proof -
  have e: "pg_execute plain_float canceled_db one_row_query northwind_config one_row_policy
     = Inl (QuerySafety QueryTimeoutError)"
    by (simp add: pg_execute_def fetch_def canceled_db_def)
  from execution_errors_are_public [OF _ e] e show ?thesis by (simp add: canceled_db_def)
qed

end
