(* ===== verification/Safe_Query.thy ===== *)
theory Safe_Query
  imports Sql_Guard Query_Executor
begin

text \<open>
  \<open>query_safety/service.py\<close> and \<open>query_safety/audit.py\<close>: the path every statement takes to the
  database. The guard inspects it, the planner prices it, the executor runs it, and each call
  records one audit event. The state threaded through a call is the sink's own state and a log
  of what reached the planner and the executor.
\<close>

section \<open>Audit sinks\<close>

type_synonym 's sink = "query_audit_event \<Rightarrow> 's \<Rightarrow> (exn + unit) \<times> 's"

definition memory_record :: "query_audit_event list sink" where
  "memory_record ev events = (Inr (), events @ [ev])"

fun audit_status_text :: "audit_status \<Rightarrow> pystr" where
  "audit_status_text SUCCEEDED = lit ''SUCCEEDED''"
| "audit_status_text REJECTED = lit ''REJECTED''"
| "audit_status_text APPROVAL_REQUIRED = lit ''APPROVAL_REQUIRED''"
| "audit_status_text FAILED = lit ''FAILED''"

text \<open>\<open>event.model_dump_json()\<close>; \<open>fmt\<close> is the text of a time stamp.\<close>

definition audit_event_json :: "(real \<Rightarrow> pystr) \<Rightarrow> query_audit_event \<Rightarrow> json" where
  "audit_event_json fmt e = JObj
     [(lit ''event_version'', JInt 1), (lit ''event_id'', JStr (uuid_str (event_id e))),
      (lit ''occurred_at'', JStr (fmt (occurred_at e))),
      (lit ''tenant_id'', JStr (uuid_str (ev_tenant_id e))),
      (lit ''user_id'', JStr (uuid_str (ev_user_id e))),
      (lit ''job_id'', JStr (uuid_str (ev_job_id e))),
      (lit ''data_source_id'', JStr (uuid_str (ev_data_source_id e))),
      (lit ''trace_id'', JStr (ev_trace_id e)),
      (lit ''status'', JStr (audit_status_text (ev_status e))),
      (lit ''reason_code'', JStr (ev_reason_code e)),
      (lit ''query_fingerprint'', JStr (ev_fingerprint e)),
      (lit ''referenced_tables'', jstrs (ev_tables e)),
      (lit ''planner_invoked'', JBool (planner_invoked e)),
      (lit ''executor_invoked'', JBool (executor_invoked e)),
      (lit ''estimated_total_cost'',
        (case estimated_total_cost e of None \<Rightarrow> JNull | Some c \<Rightarrow> JFloat c)),
      (lit ''estimated_plan_rows'',
        (case estimated_plan_rows e of None \<Rightarrow> JNull | Some r \<Rightarrow> JInt r)),
      (lit ''returned_rows'', JInt (returned_rows e)),
      (lit ''returned_columns'', JInt (returned_columns e)),
      (lit ''serialized_bytes'', JInt (ev_serialized_bytes e)),
      (lit ''result_truncated'', JBool (result_truncated e)),
      (lit ''duration_ms'', JInt (duration_ms e))]"

text \<open>\<open>LoggingQueryAuditSink\<close>: the state is the lines the logger was given.\<close>

definition logging_record :: "(real \<Rightarrow> pystr) \<Rightarrow> (real \<Rightarrow> pystr) \<Rightarrow> pystr list sink" where
  "logging_record fr fmt ev written =
     (Inr (), written @ [lit ''Safe query audit: ''
        @ dumps (compact_style fr) (audit_event_json fmt ev)])"

text \<open>
  The interface \<open>QueryAuditSink\<close>: a call that succeeds adds exactly one rendering of the event
  to what the sink holds, and a call that raises adds nothing.
\<close>

locale audit_sink =
  fixes rec :: "'s sink" and held :: "'s \<Rightarrow> 'r list" and render :: "query_audit_event \<Rightarrow> 'r"
  assumes recorded: "rec ev s = (Inr u, s') \<Longrightarrow> held s' = held s @ [render ev]"
    and refused: "rec ev s = (Inl e, s') \<Longrightarrow> held s' = held s"
begin

lemma held_grows: "rec ev s = (r, s') \<Longrightarrow> \<exists>new. held s' = held s @ new \<and> set new \<subseteq> {render ev}"
  using recorded refused by (cases r) fastforce+

end

interpretation mem: audit_sink memory_record "\<lambda>events. events" "\<lambda>ev. ev"
  by unfold_locales (auto simp: memory_record_def)

interpretation logged: audit_sink "logging_record fr fmt" "\<lambda>written. written"
  "\<lambda>ev. lit ''Safe query audit: '' @ dumps (compact_style fr) (audit_event_json fmt ev)" for fr fmt
  by unfold_locales (auto simp: logging_record_def)

section \<open>The service\<close>

type_synonym executor =
  "guarded_query \<Rightarrow> data_source_config \<Rightarrow> query_policy \<Rightarrow> exn + query_execution_result"

record 's safe_query_service =
  qs_uni :: unidata
  qs_sqlglot :: sqlglot
  qs_sha :: "nat list \<Rightarrow> pystr"
  qs_executor :: executor
  qs_estimator :: "estimator option"
  qs_sink :: "'s sink"

record 's safe_query_state =
  sq_sink :: 's
  sq_planned :: "guarded_query list"
  sq_executed :: "guarded_query list"

text \<open>The clock readings and the fresh identifier of one call: one event is built per call.\<close>

record stamp =
  st_event_id :: uuid
  st_occurred_at :: real
  st_started_ns :: int
  st_finished_ns :: int

definition approval_reason :: "query_cost_estimate \<Rightarrow> query_policy \<Rightarrow> pystr option" where
  "approval_reason est p =
     (if total_cost est > max_total_cost p then Some (lit ''TOTAL_COST_LIMIT_EXCEEDED'')
      else if plan_rows est > max_plan_rows p then Some (lit ''PLAN_ROWS_LIMIT_EXCEEDED'')
      else None)"

definition event_of ::
  "stamp \<Rightarrow> query_context \<Rightarrow> audit_status \<Rightarrow> pystr \<Rightarrow> pystr \<Rightarrow> pystr list \<Rightarrow> bool \<Rightarrow> bool
     \<Rightarrow> query_cost_estimate option \<Rightarrow> query_execution_result option \<Rightarrow> exn + query_audit_event"
  where
  "event_of stp ctx status reason fp tables planner exec est res = mk_audit_event
     \<lparr>event_id = st_event_id stp, occurred_at = st_occurred_at stp,
      ev_tenant_id = ctx_tenant_id ctx, ev_user_id = ctx_user_id ctx, ev_job_id = ctx_job_id ctx,
      ev_data_source_id = ctx_data_source_id ctx, ev_trace_id = ctx_trace_id ctx,
      ev_status = status, ev_reason_code = reason, ev_fingerprint = fp, ev_tables = tables,
      planner_invoked = planner, executor_invoked = exec,
      estimated_total_cost = map_option total_cost est,
      estimated_plan_rows = map_option plan_rows est,
      returned_rows = (case res of None \<Rightarrow> 0 | Some r \<Rightarrow> returned_row_count r),
      returned_columns = (case res of None \<Rightarrow> 0 | Some r \<Rightarrow> int (length (res_columns r))),
      ev_serialized_bytes = (case res of None \<Rightarrow> 0 | Some r \<Rightarrow> serialized_bytes r),
      result_truncated = (case res of None \<Rightarrow> False | Some r \<Rightarrow> truncated r),
      duration_ms = max 0 ((st_finished_ns stp - st_started_ns stp) div 1000000)\<rparr>"

text \<open>Build the event, \<open>_record\<close> it, then raise or return what \<open>done\<close> says.\<close>

definition conclude ::
  "'s safe_query_service \<Rightarrow> exn + query_audit_event
     \<Rightarrow> (query_audit_event \<Rightarrow> exn + safe_query_outcome) \<Rightarrow> 's safe_query_state
     \<Rightarrow> (exn + safe_query_outcome) \<times> 's safe_query_state" where
  "conclude S built finish st =
     (case built of Inl e \<Rightarrow> (Inl e, st)
      | Inr ev \<Rightarrow>
          (case qs_sink S ev (sq_sink st) of
             (Inl _, s') \<Rightarrow> (Inl (QuerySafety QueryAuditError), st\<lparr>sq_sink := s'\<rparr>)
           | (Inr _, s') \<Rightarrow> (finish ev, st\<lparr>sq_sink := s'\<rparr>)))"

text \<open>The two \<open>except\<close> clauses around the planner and the executor.\<close>

definition as_safety_error :: "exn \<Rightarrow> query_safety_error" where
  "as_safety_error e = (case e of QuerySafety q \<Rightarrow> q | _ \<Rightarrow> QueryExecutionError)"

definition run_guarded ::
  "'s safe_query_service \<Rightarrow> stamp \<Rightarrow> query_context \<Rightarrow> data_source_config \<Rightarrow> query_policy
     \<Rightarrow> guarded_query \<Rightarrow> query_cost_estimate option \<Rightarrow> 's safe_query_state
     \<Rightarrow> (exn + safe_query_outcome) \<times> 's safe_query_state" where
  "run_guarded S stp ctx config p g est st =
     (let st' = st\<lparr>sq_executed := sq_executed st @ [g]\<rparr> in
      case qs_executor S g config p of
        Inl e \<Rightarrow>
          conclude S (event_of stp ctx FAILED (query_safety_code (as_safety_error e))
              (query_fingerprint g) (referenced_tables g) (est \<noteq> None) True est None)
            (\<lambda>_. Inl (QuerySafety (as_safety_error e))) st'
      | Inr r \<Rightarrow>
          conclude S (event_of stp ctx SUCCEEDED (lit ''QUERY_EXECUTED'')
              (query_fingerprint g) (referenced_tables g) (est \<noteq> None) True est (Some r))
            (\<lambda>ev. Inr \<lparr>outcome_result = r, outcome_audit = ev\<rparr>) st')"

definition plan_and_run ::
  "'s safe_query_service \<Rightarrow> stamp \<Rightarrow> query_context \<Rightarrow> data_source_config \<Rightarrow> query_policy
     \<Rightarrow> guarded_query \<Rightarrow> 's safe_query_state
     \<Rightarrow> (exn + safe_query_outcome) \<times> 's safe_query_state" where
  "plan_and_run S stp ctx config p g st =
     (case qs_estimator S of
        None \<Rightarrow> run_guarded S stp ctx config p g None st
      | Some estimate \<Rightarrow>
          (let st' = st\<lparr>sq_planned := sq_planned st @ [g]\<rparr> in
           case estimate g config of
             Inl e \<Rightarrow>
               conclude S (event_of stp ctx FAILED (query_safety_code (as_safety_error e))
                   (query_fingerprint g) (referenced_tables g) True False None None)
                 (\<lambda>_. Inl (QuerySafety (as_safety_error e))) st'
           | Inr est \<Rightarrow>
               (case approval_reason est p of
                  Some reason \<Rightarrow>
                    conclude S (event_of stp ctx APPROVAL_REQUIRED reason
                        (query_fingerprint g) (referenced_tables g) True False (Some est) None)
                      (\<lambda>_. Inl (QuerySafety (QueryApprovalRequiredError reason
                         (total_cost est) (plan_rows est)))) st'
                | None \<Rightarrow> run_guarded S stp ctx config p g (Some est) st')))"

definition execute_fixed ::
  "'s safe_query_service \<Rightarrow> stamp \<Rightarrow> pystr \<Rightarrow> query_context \<Rightarrow> data_source_config \<Rightarrow> query_policy
     \<Rightarrow> 's safe_query_state \<Rightarrow> (exn + safe_query_outcome) \<times> 's safe_query_state" where
  "execute_fixed S stp sql ctx config p st =
     (case inspect (qs_uni S) (qs_sqlglot S) (qs_sha S) sql p of
        Inl (QuerySafety (SQLPolicyViolationError reason)) \<Rightarrow>
          conclude S (res_bind (fingerprint (qs_sha S) sql) (\<lambda>f.
              event_of stp ctx REJECTED reason f [] False False None None))
            (\<lambda>_. Inl (QuerySafety (SQLPolicyViolationError reason))) st
      | Inl e \<Rightarrow> (Inl e, st)
      | Inr g \<Rightarrow> plan_and_run S stp ctx config p g st)"

definition execute_generated ::
  "'s safe_query_service \<Rightarrow> stamp \<Rightarrow> pystr \<Rightarrow> query_context \<Rightarrow> data_source_config \<Rightarrow> query_policy
     \<Rightarrow> 's safe_query_state \<Rightarrow> (exn + safe_query_outcome) \<times> 's safe_query_state" where
  "execute_generated S stp sql ctx config p st = execute_fixed S stp sql ctx config p st"

text \<open>\<open>FIXED_TOP_CUSTOMERS_SQL\<close>, stripped.\<close>

definition fixed_top_customers_sql :: pystr where
  "fixed_top_customers_sql = join [10] (map lit
     [''SELECT'',
      ''    c.company_name AS customer,'',
      ''    ROUND(SUM(od.unit_price * od.quantity * (1 - od.discount)), 2) AS revenue'',
      ''FROM northwind.customers AS c'',
      ''JOIN northwind.orders AS o ON o.customer_id = c.customer_id'',
      ''JOIN northwind.order_details AS od ON od.order_id = o.order_id'',
      ''GROUP BY c.customer_id, c.company_name'',
      ''ORDER BY revenue DESC, customer'',
      ''LIMIT 5''])"


section \<open>Lemmas\<close>

text \<open>
  The two adapters together: what the service needs of them for the event it builds after them
  to pass the event model's own validation.
\<close>

locale safe_query_backend = query_executor execute + cost_estimator estimate
  for execute :: executor and estimate :: estimator
begin

lemma event_built:
  assumes "fingerprint_pattern fp" "1 \<le> length reason" "length reason \<le> 80"
    and "est = None \<or> est = Some e \<and> estimate g c = Inr e"
    and "res = None \<or> res = Some r \<and> execute g c p = Inr r" "0 \<le> max_rows p"
  shows "\<exists>ev. event_of stp ctx status reason fp tables planner exec est res = Inr ev
    \<and> ev_status ev = status \<and> ev_reason_code ev = reason \<and> ev_fingerprint ev = fp
    \<and> ev_tables ev = tables \<and> planner_invoked ev = planner \<and> executor_invoked ev = exec
    \<and> estimated_total_cost ev = map_option total_cost est
    \<and> estimated_plan_rows ev = map_option plan_rows est"
  using assms estimate_nonneg [of g c e] execute_counts [of g c p r]
  by (auto simp: event_of_def mk_audit_event_def)

end

interpretation pg: safe_query_backend "pg_execute fr db" "pg_estimate P planner" for fr db P planner
  by unfold_locales

lemma conclude_memory:
  "qs_sink S = memory_record \<Longrightarrow>
     conclude S (Inr ev) fin st = (fin ev, st\<lparr>sq_sink := sq_sink st @ [ev]\<rparr>)"
  by (simp add: conclude_def memory_record_def)

lemma query_safety_code_length: "1 \<le> length (query_safety_code q)" "length (query_safety_code q) \<le> 80"
  by (cases q; simp)+



lemma approval_reason_None:
  "approval_reason est p = None \<longleftrightarrow>
     total_cost est \<le> max_total_cost p \<and> plan_rows est \<le> max_plan_rows p"
  by (auto simp: approval_reason_def)

lemma inspect_fingerprint:
  "inspect U sg sha q p = Inr g \<Longrightarrow> fingerprint_pattern (query_fingerprint g)"
  by (auto simp: inspect_Inr mk_guarded_query_Inr)

lemma conclude_state [simp]:
  "sq_executed (snd (conclude S b f st)) = sq_executed st"
  "sq_planned (snd (conclude S b f st)) = sq_planned st"
  by (auto simp: conclude_def split: sum.splits prod.splits)

lemma run_guarded_state [simp]:
  "sq_executed (snd (run_guarded S stp ctx config p g est st)) = sq_executed st @ [g]"
  "sq_planned (snd (run_guarded S stp ctx config p g est st)) = sq_planned st"
  by (auto simp: run_guarded_def Let_def split: sum.splits)

lemma plan_and_run_InrD:
  assumes "plan_and_run S stp ctx config p g st = (Inr out, st')"
  shows "\<exists>est st1. sq_sink st1 = sq_sink st \<and> run_guarded S stp ctx config p g est st1 = (Inr out, st')"
proof (cases "qs_estimator S")
  case None
  with assms show ?thesis by (auto simp: plan_and_run_def)
next
  case (Some estimate)
  define st1 where "st1 = st\<lparr>sq_planned := sq_planned st @ [g]\<rparr>"
  from assms Some obtain est where "run_guarded S stp ctx config p g (Some est) st1 = (Inr out, st')"
    by (auto simp: plan_and_run_def Let_def st1_def conclude_def
        split: sum.splits option.splits prod.splits)
  moreover have "sq_sink st1 = sq_sink st" by (simp add: st1_def)
  ultimately show ?thesis by blast
qed

section \<open>Properties\<close>

text \<open>
  C3. Nothing reaches the database that the guard has not passed: a call leaves the executor's log
  as it was, or adds the single query the guard made of this text. A service with a planner, as
  every one that answers questions, has sent it this query first, and only one it priced within
  both limits of the policy runs; a service without a planner, as the evaluation's for gold
  queries, sends nothing to a planner and runs what the guard passed.
\<close>

theorem executor_runs_only_approved_queries:
  "sq_executed (snd (execute_fixed S stp sql ctx config p st)) = sq_executed st
   \<or> (\<exists>g. inspect (qs_uni S) (qs_sqlglot S) (qs_sha S) sql p = Inr g
        \<and> sq_executed (snd (execute_fixed S stp sql ctx config p st)) = sq_executed st @ [g]
        \<and> (case qs_estimator S of
             None \<Rightarrow> sq_planned (snd (execute_fixed S stp sql ctx config p st)) = sq_planned st
           | Some estimate \<Rightarrow> sq_planned (snd (execute_fixed S stp sql ctx config p st)) = sq_planned st @ [g]
               \<and> (\<exists>est. estimate g config = Inr est
                   \<and> total_cost est \<le> max_total_cost p \<and> plan_rows est \<le> max_plan_rows p)))"
  by (auto simp: execute_fixed_def plan_and_run_def Let_def approval_reason_None
      split: sum.splits exn.splits query_safety_error.splits option.splits)

text \<open>
  C7. No result is released without its audit record: when a call returns an outcome, whatever
  the sink is, the sink accepted, without raising, exactly the event the outcome carries, and
  that event is a success that names the query's fingerprint and tables and the counts of the
  very result returned. A sink that refuses turns the call into an audit error.
\<close>

theorem result_released_only_when_audited:
  assumes "execute_fixed S stp sql ctx config p st = (Inr out, st')"
  shows "\<exists>g. inspect (qs_uni S) (qs_sqlglot S) (qs_sha S) sql p = Inr g
    \<and> qs_sink S (outcome_audit out) (sq_sink st) = (Inr (), sq_sink st')
    \<and> qs_executor S g config p = Inr (outcome_result out)
    \<and> ev_status (outcome_audit out) = SUCCEEDED \<and> executor_invoked (outcome_audit out)
    \<and> ev_fingerprint (outcome_audit out) = query_fingerprint g
    \<and> ev_tables (outcome_audit out) = referenced_tables g
    \<and> returned_rows (outcome_audit out) = returned_row_count (outcome_result out)
    \<and> ev_serialized_bytes (outcome_audit out) = serialized_bytes (outcome_result out)
    \<and> result_truncated (outcome_audit out) = truncated (outcome_result out)
    \<and> ev_job_id (outcome_audit out) = ctx_job_id ctx"
proof -
  from assms obtain g est st1 where g: "inspect (qs_uni S) (qs_sqlglot S) (qs_sha S) sql p = Inr g"
    and sink: "sq_sink st1 = sq_sink st"
    and run: "run_guarded S stp ctx config p g est st1 = (Inr out, st')"
    by (auto simp: execute_fixed_def conclude_def dest!: plan_and_run_InrD
        split: sum.splits exn.splits query_safety_error.splits prod.splits)
  from run obtain r ev where r: "qs_executor S g config p = Inr r"
    and ev: "event_of stp ctx SUCCEEDED (lit ''QUERY_EXECUTED'') (query_fingerprint g)
        (referenced_tables g) (est \<noteq> None) True est (Some r) = Inr ev"
    and rec: "qs_sink S ev (sq_sink st1) = (Inr (), sq_sink st')"
    and out: "out = \<lparr>outcome_result = r, outcome_audit = ev\<rparr>"
    by (auto simp: run_guarded_def Let_def conclude_def split: sum.splits prod.splits)
  from ev have "ev_status ev = SUCCEEDED" "executor_invoked ev"
    "ev_fingerprint ev = query_fingerprint g" "ev_tables ev = referenced_tables g"
    "returned_rows ev = returned_row_count r" "ev_serialized_bytes ev = serialized_bytes r"
    "result_truncated ev = truncated r" "ev_job_id ev = ctx_job_id ctx"
    by (auto simp: event_of_def mk_audit_event_def split: if_splits)
  with g r rec sink out show ?thesis by simp
qed

text \<open>The service as \<open>create_nl2sql_service\<close> wires it, with the sink kept in memory.\<close>

definition pg_safe_queries ::
  "unidata \<Rightarrow> sqlglot \<Rightarrow> (nat list \<Rightarrow> pystr) \<Rightarrow> (real \<Rightarrow> pystr) \<Rightarrow> database \<Rightarrow> py_parsers
     \<Rightarrow> (data_source_config \<Rightarrow> command list \<Rightarrow> exn + json option) \<Rightarrow> 's sink
     \<Rightarrow> 's safe_query_service" where
  "pg_safe_queries U sg sha fr db P planner sink =
     \<lparr>qs_uni = U, qs_sqlglot = sg, qs_sha = sha, qs_executor = pg_execute fr db,
      qs_estimator = Some (pg_estimate P planner), qs_sink = sink\<rparr>"

text \<open>How the event of a call and what the caller sees correspond.\<close>

fun outcome_matches :: "query_audit_event \<Rightarrow> exn + safe_query_outcome \<Rightarrow> bool" where
  "outcome_matches ev (Inr out) \<longleftrightarrow> ev_status ev = SUCCEEDED \<and> outcome_audit out = ev"
| "outcome_matches ev (Inl e) \<longleftrightarrow>
     (case ev_status ev of
        SUCCEEDED \<Rightarrow> False
      | REJECTED \<Rightarrow> e = QuerySafety (SQLPolicyViolationError (ev_reason_code ev))
      | APPROVAL_REQUIRED \<Rightarrow> (\<exists>c r. estimated_total_cost ev = Some c
            \<and> estimated_plan_rows ev = Some r
            \<and> e = QuerySafety (QueryApprovalRequiredError (ev_reason_code ev) c r))
      | FAILED \<Rightarrow> (\<exists>q. e = QuerySafety q \<and> ev_reason_code ev = query_safety_code q))"

text \<open>A service over PostgreSQL with the sink in memory, with or without its planner.\<close>

definition pg_audited :: "(real \<Rightarrow> pystr) \<Rightarrow> database \<Rightarrow> py_parsers
     \<Rightarrow> (data_source_config \<Rightarrow> command list \<Rightarrow> exn + json option)
     \<Rightarrow> query_audit_event list safe_query_service \<Rightarrow> bool" where
  "pg_audited fr db P planner S \<longleftrightarrow> qs_executor S = pg_execute fr db \<and> qs_sink S = memory_record
     \<and> qs_estimator S \<in> {None, Some (pg_estimate P planner)}"

lemma run_guarded_audited:
  assumes "fingerprint_pattern (query_fingerprint g)" and "0 \<le> max_rows p"
    and "est = None \<or> est = Some c \<and> pg_estimate P planner g config = Inr c"
    and S: "pg_audited fr db P planner S"
  shows "\<exists>r ev. run_guarded S stp ctx config p g est st
      = (r, st\<lparr>sq_executed := sq_executed st @ [g], sq_sink := sq_sink st @ [ev]\<rparr>)
    \<and> outcome_matches ev r \<and> executor_invoked ev \<and> (planner_invoked ev \<longleftrightarrow> est \<noteq> None)"
proof (cases "pg_execute fr db g config p")
  case (Inl e)
  define q where "q = as_safety_error e"
  obtain ev where "event_of stp ctx FAILED (query_safety_code q) (query_fingerprint g)
      (referenced_tables g) (est \<noteq> None) True est None = Inr ev \<and> ev_status ev = FAILED
      \<and> ev_reason_code ev = query_safety_code q \<and> executor_invoked ev
      \<and> planner_invoked ev = (est \<noteq> None)"
    using pg.event_built [where res = None and p = p, OF assms(1) query_safety_code_length assms(3)]
      assms(2) by blast
  with Inl S show ?thesis
    by (auto simp: run_guarded_def pg_audited_def conclude_memory q_def)
next
  case (Inr r)
  then have run: "Some r = Some r \<and> pg_execute fr db g config p = Inr r" by simp
  have len: "1 \<le> length (lit ''QUERY_EXECUTED'')" "length (lit ''QUERY_EXECUTED'') \<le> 80" by simp_all
  obtain ev where "event_of stp ctx SUCCEEDED (lit ''QUERY_EXECUTED'') (query_fingerprint g)
      (referenced_tables g) (est \<noteq> None) True est (Some r) = Inr ev \<and> ev_status ev = SUCCEEDED
      \<and> executor_invoked ev \<and> planner_invoked ev = (est \<noteq> None)"
    using pg.event_built [OF assms(1) len assms(3) disjI2 [OF run] assms(2)] by blast
  with Inr S show ?thesis
    by (auto simp: run_guarded_def pg_audited_def conclude_memory)
qed






section \<open>Concrete instances\<close>

definition sample_context :: query_context where
  "sample_context = \<lparr>ctx_tenant_id = 1, ctx_user_id = 2, ctx_job_id = 3, ctx_data_source_id = 4,
     ctx_trace_id = lit ''0123456789abcdef''\<rparr>"

definition sample_stamp :: stamp where
  "sample_stamp = \<lparr>st_event_id = 7, st_occurred_at = 0, st_started_ns = 0,
     st_finished_ns = 5000000\<rparr>"

definition idle_state :: "query_audit_event list safe_query_state" where
  "idle_state = \<lparr>sq_sink = [], sq_planned = [], sq_executed = []\<rparr>"

definition sample_parsers :: py_parsers where
  "sample_parsers = \<lparr>json_loads = (\<lambda>s. Inl (Py (ValueError s))), float_of_text = (\<lambda>s. None),
     int_of_text = (\<lambda>s. None)\<rparr>"

definition priced_plan :: "real \<Rightarrow> int \<Rightarrow> json" where
  "priced_plan c r = JList [JObj [(lit ''Plan'',
     JObj [(lit ''Total Cost'', JFloat c), (lit ''Plan Rows'', JInt r)])]]"

definition sample_service :: "real \<Rightarrow> query_audit_event list safe_query_service" where
  "sample_service cost = pg_safe_queries ascii_uni orders_sqlglot zero_sha plain_float two_row_db
     sample_parsers (\<lambda>c cs. Inr (Some (priced_plan cost 10))) memory_record"

lemma priced_estimate:
  "0 \<le> c \<Longrightarrow> pg_estimate sample_parsers (\<lambda>cf cs. Inr (Some (priced_plan c 10))) g config
     = Inr \<lparr>total_cost = c, plan_rows = 10\<rparr>"
  by (simp add: pg_estimate_def estimate_of_payload_def priced_plan_def estimate_of_plan_def
      mk_estimate_def)

lemma sample_run_succeeds:
  "\<exists>out st. execute_fixed (sample_service 5) sample_stamp orders_query sample_context
     northwind_config two_table_policy idle_state = (Inr out, st)"
proof -
  obtain g where g: "inspect ascii_uni orders_sqlglot zero_sha orders_query two_table_policy = Inr g"
    using orders_accepted by blast
  have fetch_limit: "row_fetch_limit g = 101"
    using g by (auto simp: inspect_Inr mk_guarded_query_Inr guarded_of_def two_table_policy_def)
  obtain r where r: "pg_execute plain_float two_row_db g northwind_config two_table_policy = Inr r"
  proof -
    have "fetch two_row_db g northwind_config two_table_policy
        = Inr ([lit ''order_id''], [[CJson (JInt 1)], [CJson (JInt 2)]])"
      by (simp add: fetch_def two_row_db_def two_table_policy_def fetch_limit)
    moreover have "bounded_result plain_float [lit ''order_id''] [[CJson (JInt 1)], [CJson (JInt 2)]]
        two_table_policy = Inr \<lparr>res_columns = [lit ''order_id''],
          res_rows = [[(lit ''order_id'', JInt 1)], [(lit ''order_id'', JInt 2)]],
          returned_row_count = 2, serialized_bytes = 63, truncated = False\<rparr>"
      by code_simp
    ultimately show ?thesis using that by (simp add: pg_execute_def)
  qed
  have S: "pg_audited plain_float two_row_db sample_parsers (\<lambda>c cs. Inr (Some (priced_plan 5 10))) (sample_service 5)"
    by (simp add: pg_audited_def sample_service_def pg_safe_queries_def)
  have est: "pg_estimate sample_parsers (\<lambda>c cs. Inr (Some (priced_plan 5 10))) g northwind_config
      = Inr \<lparr>total_cost = 5, plan_rows = 10\<rparr>"
    by (rule priced_estimate) simp
  have "0 \<le> max_rows two_table_policy" by (simp add: two_table_policy_def)
  from run_guarded_audited [OF inspect_fingerprint [OF g] this disjI2 [OF conjI [OF refl est]] S,
      of sample_stamp sample_context "idle_state\<lparr>sq_planned := [g]\<rparr>"]
  obtain rr ev where run: "run_guarded (sample_service 5) sample_stamp sample_context northwind_config
      two_table_policy g (Some \<lparr>total_cost = 5, plan_rows = 10\<rparr>) (idle_state\<lparr>sq_planned := [g]\<rparr>)
      = (rr, idle_state\<lparr>sq_planned := [g], sq_executed := [g], sq_sink := [ev]\<rparr>)"
    and m: "outcome_matches ev rr"
    by (auto simp: idle_state_def)
  have rr: "\<exists>out. rr = Inr out"
    using run r m inspect_fingerprint [OF g] pgx.execute_counts [OF r \<open>0 \<le> max_rows two_table_policy\<close>]
    by (auto simp: run_guarded_def sample_service_def pg_safe_queries_def
        conclude_def memory_record_def event_of_def mk_audit_event_def split: sum.splits if_splits)
  have "approval_reason \<lparr>total_cost = 5, plan_rows = 10\<rparr> two_table_policy = None"
    by (simp add: approval_reason_None two_table_policy_def)
  then have "execute_fixed (sample_service 5) sample_stamp orders_query sample_context
     northwind_config two_table_policy idle_state
     = (rr, idle_state\<lparr>sq_planned := [g], sq_executed := [g], sq_sink := [ev]\<rparr>)"
    using g est run by (simp add: execute_fixed_def plan_and_run_def sample_service_def
        pg_safe_queries_def idle_state_def)
  with rr show ?thesis by auto
qed

theorem result_released_only_when_audited_witness:
  "\<exists>out st. execute_fixed (sample_service 5) sample_stamp orders_query sample_context
     northwind_config two_table_policy idle_state = (Inr out, st)
     \<and> ev_status (outcome_audit out) = SUCCEEDED \<and> ev_job_id (outcome_audit out) = 3"
proof -
  obtain out st where o: "execute_fixed (sample_service 5) sample_stamp orders_query sample_context
     northwind_config two_table_policy idle_state = (Inr out, st)"
    using sample_run_succeeds by blast
  from result_released_only_when_audited [OF o] o show ?thesis
    by (auto simp: sample_context_def)
qed


end
