(* ===== verification/Language_Model.thy ===== *)
theory Language_Model
  imports Errors PyJson
begin

text \<open>
  The language-model client (\<open>llm/models.py\<close>, \<open>llm/structured.py\<close>, \<open>llm/openai_compatible.py\<close>,
  \<open>llm/fake.py\<close>, \<open>llm/factory.py\<close>): messages, requests and completions with their validation,
  the OpenAI-compatible adapter over an HTTP argument, the scripted provider, and the
  structured client with its retry loop. A provider's own state is threaded through the loop,
  and the delays it sleeps are part of the result.
\<close>

section \<open>Models\<close>

datatype llm_role = System | User | Assistant

record llm_message =
  msg_role :: llm_role
  msg_content :: pystr

definition mk_message :: "llm_role \<Rightarrow> pystr \<Rightarrow> exn + llm_message" where
  "mk_message r c = (if 1 \<le> length c \<and> length c \<le> 50000
     then Inr \<lparr>msg_role = r, msg_content = c\<rparr>
     else Inl (Py (ValueError (lit ''LLMMessage''))))"

datatype output_mode = Json_Schema | Json_Object

record llm_request =
  rq_messages :: "llm_message list"
  rq_schema :: json
  rq_schema_name :: pystr
  rq_mode :: output_mode
  rq_max_output_tokens :: int
  rq_timeout_seconds :: real

definition ascii_letter :: "nat \<Rightarrow> bool" where
  "ascii_letter c \<longleftrightarrow> 65 \<le> c \<and> c \<le> 90 \<or> 97 \<le> c \<and> c \<le> 122"

text \<open>The pattern \<open>^[A-Za-z][A-Za-z0-9_-]{0,63}$\<close>.\<close>

fun schema_name_pattern :: "pystr \<Rightarrow> bool" where
  "schema_name_pattern [] = False"
| "schema_name_pattern (c # cs) = (ascii_letter c \<and> length cs \<le> 63
     \<and> list_all (\<lambda>d. ascii_alnum d \<or> d = 95 \<or> d = 45) cs)"

definition mk_request :: "llm_request \<Rightarrow> exn + llm_request" where
  "mk_request r =
     (if rq_messages r \<noteq> [] \<and> schema_name_pattern (rq_schema_name r)
         \<and> 1 \<le> rq_max_output_tokens r \<and> rq_max_output_tokens r \<le> 32768
         \<and> 0 < rq_timeout_seconds r \<and> rq_timeout_seconds r \<le> 300
      then Inr r else Inl (Py (ValueError (lit ''LLMRequest''))))"

record token_usage =
  us_input :: "int option"
  us_output :: "int option"
  us_total :: "int option"

definition no_usage :: token_usage where
  "no_usage = \<lparr>us_input = None, us_output = None, us_total = None\<rparr>"

record llm_completion =
  cp_content :: pystr
  cp_model :: pystr
  cp_request_id :: "pystr option"
  cp_usage :: token_usage

record 'a structured_result =
  sr_output :: 'a
  sr_provider :: pystr
  sr_model :: pystr
  sr_request_id :: "pystr option"
  sr_attempts :: int
  sr_usage :: token_usage

section \<open>Providers\<close>

record 'p llm_provider =
  lp_name :: pystr
  lp_model :: pystr
  lp_complete :: "llm_request \<Rightarrow> 'p \<Rightarrow> (exn + llm_completion) \<times> 'p"

text \<open>\<open>FakeLLMProvider\<close>: scripted responses and the requests seen so far.\<close>

datatype scripted = SText pystr | SCompletion llm_completion | SRaise exn

record fake_llm =
  fk_responses :: "scripted list"
  fk_requests :: "llm_request list"

fun fake_complete :: "pystr \<Rightarrow> llm_request \<Rightarrow> fake_llm \<Rightarrow> (exn + llm_completion) \<times> fake_llm" where
  "fake_complete model r p =
     (let p' = p\<lparr>fk_requests := fk_requests p @ [r]\<rparr> in
      case fk_responses p of
        [] \<Rightarrow> (Inl (Py AssertionError), p')
      | x # xs \<Rightarrow>
          ((case x of
              SRaise e \<Rightarrow> Inl e
            | SCompletion c \<Rightarrow> Inr c
            | SText t \<Rightarrow> if t = [] then Inl (Py (ValueError (lit ''LLMCompletion'')))
                else Inr \<lparr>cp_content = t, cp_model = model, cp_request_id = None,
                  cp_usage = no_usage\<rparr>),
           p'\<lparr>fk_responses := xs\<rparr>))"

definition fake_provider :: "pystr \<Rightarrow> fake_llm llm_provider" where
  "fake_provider model = \<lparr>lp_name = lit ''fake'', lp_model = model,
     lp_complete = fake_complete model\<rparr>"

subsection \<open>The OpenAI-compatible adapter\<close>

record http_response =
  hr_status :: int
  hr_json :: "json option"       \<comment> \<open>\<open>None\<close>: the body is not JSON\<close>
  hr_header :: "pystr \<Rightarrow> pystr option"

record http_post =
  hp_url :: pystr
  hp_headers :: "(pystr \<times> pystr) list"
  hp_body :: json
  hp_timeout :: "real \<times> real"

fun raise_for_status :: "int \<Rightarrow> exn + unit" where
  "raise_for_status s =
     (if 200 \<le> s \<and> s < 300 then Inr ()
      else if s = 401 then Inl (LLM LLMAuthenticationError)
      else if s = 403 then Inl (LLM LLMRequestRejectedError)
      else if s = 408 \<or> s = 504 then Inl (LLM LLMTimeoutError)
      else if s = 429 then Inl (LLM LLMRateLimitError)
      else if 500 \<le> s then Inl (LLM LLMUnavailableError)
      else Inl (LLM LLMRequestRejectedError))"

text \<open>
  pydantic's \<open>int | None\<close> with \<open>ge=0\<close>: an integer, a boolean, a whole \<open>float\<close> or a text the
  argument \<open>num\<close> reads as an integer. The outer \<open>None\<close> is a validation error.
\<close>

fun lax_int :: "(pystr \<Rightarrow> int option) \<Rightarrow> json \<Rightarrow> int option" where
  "lax_int num (JInt i) = Some i"
| "lax_int num (JBool b) = Some (if b then 1 else 0)"
| "lax_int num (JFloat x) = (if x = of_int \<lfloor>x\<rfloor> then Some \<lfloor>x\<rfloor> else None)"
| "lax_int num (JStr s) = num s"
| "lax_int num _ = None"

definition wire_count :: "(pystr \<Rightarrow> int option) \<Rightarrow> json option \<Rightarrow> int option option" where
  "wire_count num j = (case j of None \<Rightarrow> Some None | Some JNull \<Rightarrow> Some None
     | Some v \<Rightarrow> (case lax_int num v of None \<Rightarrow> None
         | Some i \<Rightarrow> if 0 \<le> i then Some (Some i) else None))"

fun wire_text :: "json option \<Rightarrow> pystr option option" where
  "wire_text None = Some None"
| "wire_text (Some JNull) = Some None"
| "wire_text (Some (JStr s)) = Some (Some s)"
| "wire_text _ = None"

text \<open>\<open>_WireChoice\<close>: the content of its message.\<close>

fun wire_choice :: "json \<Rightarrow> pystr option" where
  "wire_choice (JObj kvs) =
     (case map_of kvs (lit ''message'') of
        Some (JObj m) \<Rightarrow> (case map_of m (lit ''content'') of
            Some (JStr s) \<Rightarrow> if s = [] then None else Some s | _ \<Rightarrow> None)
      | _ \<Rightarrow> None)"
| "wire_choice _ = None"

fun opt_all :: "'a option list \<Rightarrow> 'a list option" where
  "opt_all [] = Some []"
| "opt_all (None # xs) = None"
| "opt_all (Some x # xs) = map_option (Cons x) (opt_all xs)"

definition wire_usage :: "(pystr \<Rightarrow> int option) \<Rightarrow> json option \<Rightarrow> token_usage option" where
  "wire_usage num j = (case j of None \<Rightarrow> Some no_usage
     | Some (JObj kvs) \<Rightarrow>
         (case (wire_count num (map_of kvs (lit ''prompt_tokens'')),
                wire_count num (map_of kvs (lit ''completion_tokens'')),
                wire_count num (map_of kvs (lit ''total_tokens''))) of
            (Some a, Some b, Some c) \<Rightarrow> Some \<lparr>us_input = a, us_output = b, us_total = c\<rparr>
          | _ \<Rightarrow> None)
     | Some _ \<Rightarrow> None)"

record wire_completion =
  wc_id :: "pystr option"
  wc_model :: "pystr option"
  wc_contents :: "pystr list"
  wc_usage :: token_usage

definition wire_completion_of :: "(pystr \<Rightarrow> int option) \<Rightarrow> json \<Rightarrow> wire_completion option" where
  "wire_completion_of num j = (case j of
     JObj kvs \<Rightarrow>
       (case (wire_text (map_of kvs (lit ''id'')), wire_text (map_of kvs (lit ''model'')),
              map_of kvs (lit ''choices''), wire_usage num (map_of kvs (lit ''usage''))) of
          (Some i, Some m, Some (JList cs), Some u) \<Rightarrow>
            (case opt_all (map wire_choice cs) of
               Some (c # cs') \<Rightarrow>
                 Some \<lparr>wc_id = i, wc_model = m, wc_contents = c # cs', wc_usage = u\<rparr>
             | _ \<Rightarrow> None)
        | _ \<Rightarrow> None)
   | _ \<Rightarrow> None)"

text \<open>\<open>a or b\<close> on optional texts.\<close>

definition text_or :: "pystr option \<Rightarrow> pystr option \<Rightarrow> pystr option" where
  "text_or a b = (case a of None \<Rightarrow> b | Some s \<Rightarrow> if s = [] then b else a)"

record openai_config =
  oc_name :: pystr
  oc_base_url :: pystr
  oc_api_key :: pystr
  oc_model :: pystr
  oc_connect_timeout :: real
  oc_app_name :: "pystr option"
  oc_site_url :: "pystr option"

fun role_text :: "llm_role \<Rightarrow> pystr" where
  "role_text System = lit ''system''"
| "role_text User = lit ''user''"
| "role_text Assistant = lit ''assistant''"

definition response_format :: "llm_request \<Rightarrow> json" where
  "response_format r = (case rq_mode r of
     Json_Object \<Rightarrow> JObj [(lit ''type'', JStr (lit ''json_object''))]
   | Json_Schema \<Rightarrow> JObj [(lit ''type'', JStr (lit ''json_schema'')),
       (lit ''json_schema'', JObj [(lit ''name'', JStr (rq_schema_name r)),
         (lit ''strict'', JBool True), (lit ''schema'', rq_schema r)])])"

definition nonempty_header :: "pystr \<Rightarrow> pystr option \<Rightarrow> (pystr \<times> pystr) list" where
  "nonempty_header k v = (case v of None \<Rightarrow> [] | Some s \<Rightarrow> if s = [] then [] else [(k, s)])"

definition openai_headers :: "openai_config \<Rightarrow> (pystr \<times> pystr) list" where
  "openai_headers c =
     (lit ''Content-Type'', lit ''application/json'')
     # (let key = strip (oc_api_key c) in
        if key = [] then [] else [(lit ''Authorization'', lit ''Bearer '' @ key)])
     @ nonempty_header (lit ''X-Title'') (oc_app_name c)
     @ nonempty_header (lit ''HTTP-Referer'') (oc_site_url c)"

definition openai_payload :: "openai_config \<Rightarrow> llm_request \<Rightarrow> json" where
  "openai_payload c r = JObj
     [(lit ''model'', JStr (oc_model c)),
      (lit ''messages'', JList (map (\<lambda>m. JObj [(lit ''role'', JStr (role_text (msg_role m))),
          (lit ''content'', JStr (msg_content m))]) (rq_messages r))),
      (lit ''max_tokens'', JInt (rq_max_output_tokens r)),
      (lit ''response_format'', response_format r)]"

definition openai_post :: "openai_config \<Rightarrow> llm_request \<Rightarrow> http_post" where
  "openai_post c r = \<lparr>hp_url = rstrip_char 47 (oc_base_url c) @ lit ''/chat/completions'',
     hp_headers = openai_headers c, hp_body = openai_payload c r,
     hp_timeout = (rq_timeout_seconds r, min (oc_connect_timeout c) (rq_timeout_seconds r))\<rparr>"

definition completion_of_response ::
  "(pystr \<Rightarrow> int option) \<Rightarrow> openai_config \<Rightarrow> http_response \<Rightarrow> exn + llm_completion" where
  "completion_of_response num c resp =
     res_bind (raise_for_status (hr_status resp)) (\<lambda>_.
       case Option.bind (hr_json resp) (wire_completion_of num) of
         None \<Rightarrow> Inl (LLM (LLMInvalidResponseError []))
       | Some w \<Rightarrow> Inr \<lparr>cp_content = hd (wc_contents w),
           cp_model = the (text_or (wc_model w) (Some (oc_model c))),
           cp_request_id = text_or (wc_id w) (hr_header resp (lit ''x-request-id'')),
           cp_usage = wc_usage w\<rparr>)"

text \<open>
  \<open>complete\<close>: the transport answers each post in turn; what was posted is kept. The two
  \<open>except\<close> clauses of the code are around the post alone.
\<close>

definition openai_complete ::
  "(pystr \<Rightarrow> int option) \<Rightarrow> openai_config \<Rightarrow> (http_post list \<Rightarrow> http_post \<Rightarrow> exn + http_response)
     \<Rightarrow> llm_request \<Rightarrow> http_post list \<Rightarrow> (exn + llm_completion) \<times> http_post list" where
  "openai_complete num c transport r sent =
     (let p = openai_post c r in
      (case transport sent p of
         Inl (Http HttpTimeout) \<Rightarrow> Inl (LLM LLMTimeoutError)
       | Inl (Http HttpNetwork) \<Rightarrow> Inl (LLM LLMUnavailableError)
       | Inl e \<Rightarrow> Inl e
       | Inr resp \<Rightarrow> completion_of_response num c resp,
       sent @ [p]))"

definition openai_provider ::
  "(pystr \<Rightarrow> int option) \<Rightarrow> openai_config \<Rightarrow> (http_post list \<Rightarrow> http_post \<Rightarrow> exn + http_response)
     \<Rightarrow> http_post list llm_provider" where
  "openai_provider num c transport = \<lparr>lp_name = oc_name c, lp_model = oc_model c,
     lp_complete = openai_complete num c transport\<rparr>"

section \<open>The structured client\<close>

text \<open>
  \<open>rm_parse\<close> is \<open>model_validate_json\<close>: the issues pydantic reports, each a location and a
  type, or the parsed value.
\<close>

record 'a response_model =
  rm_name :: pystr
  rm_schema :: json
  rm_parse :: "pystr \<Rightarrow> (pystr list \<times> pystr) list + 'a"

record client_config =
  sc_mode :: output_mode
  sc_request_timeout :: real
  sc_max_output_tokens :: int
  sc_max_attempts :: int
  sc_invalid_retries :: int
  sc_initial_backoff :: real
  sc_max_backoff :: real

definition mk_client :: "client_config \<Rightarrow> exn + client_config" where
  "mk_client c =
     (if sc_max_attempts c < 1
      then Inl (Py (ValueError (lit ''max_attempts must be at least 1'')))
      else if sc_invalid_retries c \<notin> {0, 1}
      then Inl (Py (ValueError (lit ''invalid_response_retries must be 0 or 1'')))
      else Inr c)"

definition safe_issues :: "(pystr list \<times> pystr) list \<Rightarrow> pystr list" where
  "safe_issues errs = map (\<lambda>(loc, ty).
     (let l = join [46] loc in if l = [] then [36] else l) @ [58] @ ty) errs"

definition backoff :: "client_config \<Rightarrow> nat \<Rightarrow> real" where
  "backoff c attempt = min (sc_initial_backoff c * 2 ^ (attempt - 1)) (sc_max_backoff c)"

definition can_retry :: "client_config \<Rightarrow> llm_error \<Rightarrow> nat \<Rightarrow> bool" where
  "can_retry c e attempt \<longleftrightarrow> retryable e \<and> int attempt < sc_max_attempts c"

text \<open>What the two \<open>except\<close> clauses make of an exception of the provider.\<close>

fun as_llm_error :: "exn \<Rightarrow> llm_error option" where
  "as_llm_error (Py BuiltinTimeoutError) = Some LLMTimeoutError"
| "as_llm_error (LLM e) = Some e"
| "as_llm_error _ = None"

definition later :: "'d \<Rightarrow> 'r \<times> 'p \<times> 'd list \<Rightarrow> 'r \<times> 'p \<times> 'd list" where
  "later d x = (case x of (r, p, ds) \<Rightarrow> (r, p, d # ds))"

text \<open>The loop \<open>for attempt in range(1, max_attempts + 1)\<close>: the fifth argument counts down.\<close>

fun attempts_from ::
  "'p llm_provider \<Rightarrow> client_config \<Rightarrow> 'a response_model \<Rightarrow> llm_request \<Rightarrow> nat \<Rightarrow> nat \<Rightarrow> nat
     \<Rightarrow> 'p \<Rightarrow> (exn + 'a structured_result) \<times> 'p \<times> real list" where
  "attempts_from P c M req attempt used 0 p = (Inl (Py AssertionError), p, [])"
| "attempts_from P c M req attempt used (Suc n) p =
     (case lp_complete P req p of
        (Inl e, p') \<Rightarrow>
          (case as_llm_error e of
             None \<Rightarrow> (Inl e, p', [])
           | Some err \<Rightarrow>
               if can_retry c err attempt
               then later (backoff c attempt) (attempts_from P c M req (Suc attempt) used n p')
               else (Inl (LLM err), p', []))
      | (Inr cp, p') \<Rightarrow>
          (case rm_parse M (cp_content cp) of
             Inl issues \<Rightarrow>
               if int used < sc_invalid_retries c \<and> int attempt < sc_max_attempts c
               then later (backoff c attempt) (attempts_from P c M req (Suc attempt) (Suc used) n p')
               else (Inl (LLM (LLMInvalidResponseError (safe_issues issues))), p', [])
           | Inr out \<Rightarrow>
               (Inr \<lparr>sr_output = out, sr_provider = lp_name P, sr_model = cp_model cp,
                  sr_request_id = cp_request_id cp, sr_attempts = int attempt,
                  sr_usage = cp_usage cp\<rparr>, p', [])))"

definition request_of ::
  "client_config \<Rightarrow> 'a response_model \<Rightarrow> llm_message list \<Rightarrow> exn + llm_request" where
  "request_of c M msgs = mk_request \<lparr>rq_messages = msgs, rq_schema = rm_schema M,
     rq_schema_name = take 64 (rm_name M), rq_mode = sc_mode c,
     rq_max_output_tokens = sc_max_output_tokens c, rq_timeout_seconds = sc_request_timeout c\<rparr>"

definition generate ::
  "'p llm_provider \<Rightarrow> client_config \<Rightarrow> 'a response_model \<Rightarrow> llm_message list \<Rightarrow> 'p
     \<Rightarrow> (exn + 'a structured_result) \<times> 'p \<times> real list" where
  "generate P c M msgs p =
     (case request_of c M msgs of
        Inl e \<Rightarrow> (Inl e, p, [])
      | Inr req \<Rightarrow> attempts_from P c M req 1 0 (nat (sc_max_attempts c)) p)"

section \<open>The factory\<close>

record llm_settings =
  ls_openrouter :: bool
  ls_provider :: pystr
  ls_openai :: openai_config
  ls_client :: client_config

text \<open>The bounds \<open>LLMSettings\<close> puts on the client's numbers.\<close>

definition client_settings_ok :: "client_config \<Rightarrow> bool" where
  "client_settings_ok c \<longleftrightarrow> 0 < sc_request_timeout c \<and> sc_request_timeout c \<le> 300
     \<and> 1 \<le> sc_max_output_tokens c \<and> sc_max_output_tokens c \<le> 32768
     \<and> 1 \<le> sc_max_attempts c \<and> sc_max_attempts c \<le> 5
     \<and> 0 \<le> sc_invalid_retries c \<and> sc_invalid_retries c \<le> 1
     \<and> 0 \<le> sc_initial_backoff c \<and> sc_initial_backoff c \<le> 10
     \<and> 0 \<le> sc_max_backoff c \<and> sc_max_backoff c \<le> 30"

definition create_structured_llm_client ::
  "llm_settings \<Rightarrow> exn + openai_config \<times> client_config" where
  "create_structured_llm_client s =
     (if ls_openrouter s \<and> strip (oc_api_key (ls_openai s)) = []
      then Inl (LLM LLMConfigurationError)
      else res_bind (mk_client (ls_client s)) (\<lambda>c. Inr (ls_openai s, c)))"

section \<open>Lemmas\<close>

lemma later_eq: "later d x = (r, p, ds) \<longleftrightarrow> (\<exists>ds'. ds = d # ds' \<and> x = (r, p, ds'))"
  by (cases x) (auto simp: later_def)

lemma upt_from: "[a..<a + Suc k] = a # [Suc a..<Suc a + k]"
  by (simp add: upt_conv_Cons del: upt_Suc)

text \<open>
  The interface \<open>LLMProvider\<close>, as the retry loop relies on it: the provider's state counts the
  calls it has answered.
\<close>

locale llm_source =
  fixes complete :: "llm_request \<Rightarrow> 'p \<Rightarrow> (exn + llm_completion) \<times> 'p" and calls :: "'p \<Rightarrow> nat"
  assumes one_call: "calls (snd (complete r p)) = Suc (calls p)"
begin

lemma attempts_from_run:
  assumes "lp_complete P = complete" and "attempts_from P c M req a used n p = (r, p', ds)"
    and "0 < n" and "int a + int n = sc_max_attempts c + 1"
  shows "calls p' = calls p + Suc (length ds) \<and> length ds < n
    \<and> ds = map (backoff c) [a..<a + length ds]
    \<and> (case r of Inl e \<Rightarrow> (\<exists>le. e = LLM le) \<or> (\<exists>q. fst (complete req q) = Inl e \<and> as_llm_error e = None)
       | Inr res \<Rightarrow> sr_attempts res = int (a + length ds) \<and> sr_provider res = lp_name P)"
  using assms(2-4)
proof (induction n arbitrary: a used p ds)
  case (Suc n)
  obtain x q where x: "complete req p = (x, q)" by (cases "complete req p")
  with one_call [of req p] have q: "calls q = Suc (calls p)" by simp
  have step: ?case if "attempts_from P c M req (Suc a) u n q = (r, p', ds')" "ds = backoff c a # ds'"
      "int a < sc_max_attempts c" for u ds'
  proof -
    from that(3) Suc.prems(3) have "0 < n" "int (Suc a) + int n = sc_max_attempts c + 1" by auto
    note ih = Suc.IH [OF that(1) this]
    have "[a..<a + length ds] = a # [Suc a..<Suc a + length ds']"
      using that(2) upt_from [of a "length ds'"] by simp
    then have "ds = map (backoff c) [a..<a + length ds]"
      using ih that(2) by (simp del: upt_Suc)
    with ih that(2) q show ?thesis by (simp del: upt_Suc split: sum.splits)
  qed
  show ?case
  proof (cases x)
    case (Inl e)
    show ?thesis
    proof (cases "as_llm_error e")
      case None
      with Suc.prems x Inl assms(1) q show ?thesis
        by (auto intro!: exI [of _ p])
    next
      case (Some err)
      with Suc.prems x Inl assms(1) q show ?thesis
        by (auto simp: later_eq can_retry_def split: if_splits dest!: step)
    qed
  next
    case (Inr cp)
    show ?thesis
    proof (cases "rm_parse M (cp_content cp)")
      case (Inl issues)
      with Suc.prems x Inr assms(1) q show ?thesis
        by (auto simp: later_eq split: if_splits dest!: step)
    next
      case parsed: (Inr out)
      with Suc.prems x Inr assms(1) q show ?thesis by auto
    qed
  qed
qed simp

lemma generate_run:
  assumes "lp_complete P = complete" and "mk_client c = Inr c" and "request_of c M msgs = Inr req"
    and "generate P c M msgs p = (r, p', ds)"
  shows "calls p' = calls p + Suc (length ds) \<and> int (length ds) < sc_max_attempts c
    \<and> ds = map (backoff c) [1..<1 + length ds]
    \<and> (case r of Inl e \<Rightarrow> (\<exists>le. e = LLM le) \<or> (\<exists>q. fst (complete req q) = Inl e \<and> as_llm_error e = None)
       | Inr res \<Rightarrow> sr_attempts res = int (1 + length ds) \<and> sr_provider res = lp_name P)"
proof -
  from assms(2) have "0 < nat (sc_max_attempts c)"
    "int 1 + int (nat (sc_max_attempts c)) = sc_max_attempts c + 1"
    by (auto simp: mk_client_def split: if_splits)
  with attempts_from_run [OF assms(1) _ this, of M req 0 p r p' ds] assms(3,4) show ?thesis
    by (auto simp: generate_def)
qed

end

interpretation fake: llm_source "fake_complete model" "\<lambda>p. length (fk_requests p)" for model
  by unfold_locales (auto simp: Let_def split: list.splits)

interpretation openai: llm_source "openai_complete num c transport" length for num c transport
  by unfold_locales (simp add: openai_complete_def Let_def)

lemma wire_choice_nonempty: "wire_choice j = Some t \<Longrightarrow> t \<noteq> []"
  by (induction j rule: wire_choice.induct) (auto split: option.splits json.splits if_splits)

lemma opt_all_first:
  assumes "opt_all (map f cs) = Some (c # cs')"
  obtains x where "f x = Some c"
proof (cases cs)
  case (Cons x xs)
  with assms that show ?thesis by (cases "f x") auto
qed (use assms in simp)

lemma backoff_bounds:
  "0 \<le> sc_initial_backoff c \<Longrightarrow> 0 \<le> sc_max_backoff c \<Longrightarrow>
     0 \<le> backoff c i \<and> backoff c i \<le> sc_max_backoff c"
  by (simp add: backoff_def)

section \<open>Properties\<close>

text \<open>
  C21. A structured call makes at most the configured number of HTTP posts. It posts once more
  than it sleeps, the delays it sleeps are the exponential schedule from the first attempt on,
  each within the configured maximum, the number of attempts a result reports is the number
  of posts made for it, and what is raised is an error of the language-model family or an
  exception of the transport that no clause of the loop names.
\<close>

theorem retries_follow_schedule:
  assumes "client_settings_ok c" and "request_of c M msgs = Inr req"
    and "generate (openai_provider num oc transport) c M msgs sent = (r, sent', ds)"
  shows "length sent' = length sent + 1 + length ds
    \<and> int (length sent') \<le> int (length sent) + sc_max_attempts c
    \<and> ds = map (backoff c) [1..<1 + length ds]
    \<and> list_all (\<lambda>d. 0 \<le> d \<and> d \<le> sc_max_backoff c) ds
    \<and> (case r of Inl e \<Rightarrow> (\<exists>le. e = LLM le) \<or> as_llm_error e = None
       | Inr res \<Rightarrow> sr_attempts res = int (1 + length ds))"
proof -
  from assms(1) have c: "mk_client c = Inr c"
    by (auto simp: client_settings_ok_def mk_client_def)
  have P: "lp_complete (openai_provider num oc transport) = openai_complete num oc transport"
    by (simp add: openai_provider_def)
  note run = openai.generate_run [OF P c assms(2,3)]
  then have "ds = map (backoff c) [1..<1 + length ds]" by blast
  moreover have "0 \<le> backoff c i \<and> backoff c i \<le> sc_max_backoff c" for i
    using assms(1) by (intro backoff_bounds) (auto simp: client_settings_ok_def)
  ultimately have "list_all (\<lambda>d. 0 \<le> d \<and> d \<le> sc_max_backoff c) ds"
    by (metis (no_types, lifting) Ball_set list.pred_map comp_apply)
  with run show ?thesis by (auto split: sum.splits)
qed

lemma fake_invalid_loop:
  assumes "\<forall>x \<in> set (fk_responses p). \<exists>t issues. x = SText t \<and> t \<noteq> [] \<and> rm_parse M t = Inl issues"
    and "n \<le> length (fk_responses p)" and "0 < n" and "int a + int n = sc_max_attempts c + 1"
    and "int used \<le> sc_invalid_retries c"
  shows "\<exists>issues p' ds. attempts_from (fake_provider model) c M req a used n p
      = (Inl (LLM (LLMInvalidResponseError issues)), p', ds)
    \<and> length (fk_requests p')
        = length (fk_requests p) + min n (Suc (nat (sc_invalid_retries c) - used))"
  using assms
proof (induction n arbitrary: a used p)
  case (Suc n)
  from Suc.prems(1,2) obtain t xs issues where t: "fk_responses p = SText t # xs" "t \<noteq> []"
    "rm_parse M t = Inl issues"
    by (cases "fk_responses p") auto
  define q where "q = p\<lparr>fk_requests := fk_requests p @ [req], fk_responses := xs\<rparr>"
  have answer: "lp_complete (fake_provider model) req p
      = (Inr \<lparr>cp_content = t, cp_model = model, cp_request_id = None, cp_usage = no_usage\<rparr>, q)"
    using t by (simp add: fake_provider_def q_def Let_def)
  show ?case
  proof (cases "int used < sc_invalid_retries c \<and> int a < sc_max_attempts c")
    case True
    from True Suc.prems(4) have "0 < n" "int (Suc a) + int n = sc_max_attempts c + 1"
      "int (Suc used) \<le> sc_invalid_retries c" by auto
    moreover from Suc.prems(1,2) t have
      "\<forall>x \<in> set (fk_responses q). \<exists>t issues. x = SText t \<and> t \<noteq> [] \<and> rm_parse M t = Inl issues"
      "n \<le> length (fk_responses q)" by (auto simp: q_def)
    ultimately obtain iss p' ds where
      "attempts_from (fake_provider model) c M req (Suc a) (Suc used) n q
        = (Inl (LLM (LLMInvalidResponseError iss)), p', ds)"
      "length (fk_requests p') = length (fk_requests q) + min n (Suc (nat (sc_invalid_retries c) - Suc used))"
      using Suc.IH [of q "Suc a" "Suc used"] by blast
    moreover from True have "Suc (nat (sc_invalid_retries c) - Suc used) = nat (sc_invalid_retries c) - used"
      by linarith
    ultimately show ?thesis using True answer t by (auto simp: later_def q_def)
  next
    case False
    with Suc.prems have "nat (sc_invalid_retries c) = used \<or> n = 0" by auto
    with False answer t show ?thesis by (auto simp: q_def)
  qed
qed simp

text \<open>
  A model that never answers in the asked-for form is given up on after the configured
  number of further tries, not after the larger number of attempts transport errors get: with
  \<open>k\<close> invalid-response retries the call asks exactly \<open>min (k + 1) max_attempts\<close> times and then
  raises the invalid-response error.
\<close>

theorem invalid_answers_are_bounded:
  assumes "mk_client c = Inr c" and "request_of c M msgs = Inr req"
    and "\<forall>x \<in> set (fk_responses p). \<exists>t issues. x = SText t \<and> t \<noteq> [] \<and> rm_parse M t = Inl issues"
    and "sc_max_attempts c \<le> int (length (fk_responses p))"
  shows "\<exists>issues p' ds. generate (fake_provider model) c M msgs p
      = (Inl (LLM (LLMInvalidResponseError issues)), p', ds)
    \<and> int (length (fk_requests p') - length (fk_requests p))
        = min (sc_max_attempts c) (sc_invalid_retries c + 1)"
proof -
  from assms(1) have n: "0 < nat (sc_max_attempts c)" "0 \<le> sc_invalid_retries c"
    "int 1 + int (nat (sc_max_attempts c)) = sc_max_attempts c + 1"
    by (auto simp: mk_client_def split: if_splits)
  from fake_invalid_loop [OF assms(3) _ n(1,3), of 0 model req] assms(2,4) n show ?thesis
    by (auto simp: generate_def min_def)
qed

text \<open>
  Every response is either a completion, with a status of the success class and a text that
  is not empty, or an error of the language-model family whose \<open>retryable\<close> flag says whether
  the client may try again: yes for a request time-out, rate limiting, a server error or an
  unreadable success body, no for every other status.
\<close>

theorem responses_are_classified:
  "case completion_of_response num oc resp of
     Inr cp \<Rightarrow> 200 \<le> hr_status resp \<and> hr_status resp < 300 \<and> cp_content cp \<noteq> []
   | Inl e \<Rightarrow> \<exists>le. e = LLM le \<and> (retryable le \<longleftrightarrow> hr_status resp = 408 \<or> hr_status resp = 429
       \<or> 500 \<le> hr_status resp \<or> 200 \<le> hr_status resp \<and> hr_status resp < 300)"
proof -
  have nonempty: "hd (wc_contents w) \<noteq> []" if "wire_completion_of num j = Some w" for j w
  proof -
    from that obtain cs c cs' where cs: "opt_all (map wire_choice cs) = Some (c # cs')"
      "wc_contents w = c # cs'"
      by (auto simp: wire_completion_of_def split: json.splits option.splits list.splits)
    from cs(1) obtain x where "wire_choice x = Some c" by (rule opt_all_first)
    with cs(2) wire_choice_nonempty show ?thesis by auto
  qed
  show ?thesis
    by (auto simp: completion_of_response_def bind_eq_Some_conv nonempty split: option.splits)
qed

section \<open>Concrete instances\<close>

definition sample_client :: client_config where
  "sample_client = \<lparr>sc_mode = Json_Schema, sc_request_timeout = 30, sc_max_output_tokens = 2000,
     sc_max_attempts = 3, sc_invalid_retries = 1, sc_initial_backoff = 1/4, sc_max_backoff = 2\<rparr>"

definition number_model :: "nat response_model" where
  "number_model = \<lparr>rm_name = lit ''Number'', rm_schema = JObj [],
     rm_parse = (\<lambda>t. if t \<noteq> [] \<and> list_all ascii_digit t then Inr (digits_value t)
       else Inl [([], lit ''json_invalid'')])\<rparr>"

definition sample_openai :: openai_config where
  "sample_openai = \<lparr>oc_name = lit ''openrouter'', oc_base_url = lit ''https://x/'', oc_api_key = lit ''k'',
     oc_model = lit ''m'', oc_connect_timeout = 5, oc_app_name = None, oc_site_url = None\<rparr>"

text \<open>Rate limited once, then an answer.\<close>

definition sample_transport :: "http_post list \<Rightarrow> http_post \<Rightarrow> exn + http_response" where
  "sample_transport sent p =
     (if sent = [] then Inr \<lparr>hr_status = 429, hr_json = None, hr_header = (\<lambda>h. None)\<rparr>
      else Inr \<lparr>hr_status = 200, hr_json = Some (JObj [(lit ''choices'', JList [JObj
        [(lit ''message'', JObj [(lit ''content'', JStr (lit ''42''))])]])]),
        hr_header = (\<lambda>h. None)\<rparr>)"

definition hello :: llm_message where
  "hello = \<lparr>msg_role = User, msg_content = lit ''hello''\<rparr>"

lemma sample_attempts: "sc_max_attempts sample_client = 3"
  by (simp add: sample_client_def)

lemma sample_request: "\<exists>req. request_of sample_client number_model [hello] = Inr req"
  by (simp add: request_of_def mk_request_def sample_client_def number_model_def lit_def
      ascii_letter_def ascii_alnum_def ascii_digit_def)

theorem retries_follow_schedule_witness:
  "\<exists>r sent ds. generate (openai_provider (\<lambda>s. None) sample_openai sample_transport) sample_client
       number_model [hello] [] = (r, sent, ds)
     \<and> length sent = 2 \<and> ds = [1/4]"
proof -
  obtain req where req: "request_of sample_client number_model [hello] = Inr req"
    using sample_request by blast
  have first: "lp_complete (openai_provider (\<lambda>s. None) sample_openai sample_transport) req []
      = (Inl (LLM LLMRateLimitError), [openai_post sample_openai req])"
    by (simp add: openai_provider_def openai_complete_def sample_transport_def
        completion_of_response_def)
  have "\<exists>w. wire_completion_of (\<lambda>s. None) (JObj [(lit ''choices'', JList [JObj
        [(lit ''message'', JObj [(lit ''content'', JStr (lit ''42''))])]])]) = Some w
      \<and> wc_contents w = [lit ''42'']"
    by (simp add: wire_completion_of_def wire_usage_def)
  then have "\<exists>cp. lp_complete (openai_provider (\<lambda>s. None) sample_openai sample_transport) req
        [openai_post sample_openai req]
      = (Inr cp, [openai_post sample_openai req, openai_post sample_openai req])
      \<and> cp_content cp = lit ''42''"
    by (auto simp: openai_provider_def openai_complete_def sample_transport_def
        completion_of_response_def)
  moreover have "\<exists>n. rm_parse number_model (lit ''42'') = Inr n"
    by (simp add: number_model_def lit_def ascii_digit_def)
  ultimately obtain r sent ds where run: "generate (openai_provider (\<lambda>s. None) sample_openai sample_transport)
      sample_client number_model [hello] [] = (r, sent, ds)" "length sent = 2"
    using req first
    by (auto simp: generate_def numeral_3_eq_3 can_retry_def later_def sample_attempts)
  have "client_settings_ok sample_client" by (simp add: client_settings_ok_def sample_client_def)
  note facts = retries_follow_schedule [OF this req run(1)]
  with run(2) have "length ds = 1" by simp
  moreover from facts have "ds = map (backoff sample_client) [1..<1 + length ds]" by blast
  ultimately have "ds = map (backoff sample_client) [1..<1 + 1]" by simp
  then have "ds = [1/4]" by (simp add: backoff_def sample_client_def)
  with run show ?thesis by blast
qed

theorem invalid_answers_are_bounded_witness:
  "\<exists>issues p ds. generate (fake_provider (lit ''m'')) sample_client number_model [hello]
       \<lparr>fk_responses = replicate 3 (SText (lit ''no'')), fk_requests = []\<rparr>
     = (Inl (LLM (LLMInvalidResponseError issues)), p, ds) \<and> length (fk_requests p) = 2"
proof -
  obtain req where req: "request_of sample_client number_model [hello] = Inr req"
    using sample_request by blast
  have c: "mk_client sample_client = Inr sample_client" by (simp add: mk_client_def sample_client_def)
  let ?p = "\<lparr>fk_responses = replicate 3 (SText (lit ''no'')), fk_requests = []\<rparr>"
  have bad: "\<forall>x \<in> set (fk_responses ?p). \<exists>t issues. x = SText t \<and> t \<noteq> []
      \<and> rm_parse number_model t = Inl issues"
    by (simp add: number_model_def lit_def ascii_digit_def)
  have "sc_max_attempts sample_client \<le> int (length (fk_responses ?p))"
    by (simp add: sample_client_def)
  from invalid_answers_are_bounded [OF c req bad this, of "lit ''m''"] show ?thesis
    by (auto simp: sample_client_def)
qed

end
