(* ===== verification/Question_Guard.thy ===== *)
theory Question_Guard
  imports Errors
begin

text \<open>
  \<open>nl2sql/question_guard.py\<close>: the deny-list check of the question, with the part of Python's
  \<open>re\<close> its patterns use. A pattern is a value of \<open>rx\<close>; \<open>ends\<close> lists the positions where a match
  from a position can end, so that \<open>search\<close> finds a match iff backtracking does.
\<close>

section \<open>Patterns\<close>

datatype rx =
    Text bool pystr      \<comment> \<open>a literal; the flag is \<open>re.IGNORECASE\<close>\<close>
  | Bound                \<comment> \<open>\<open>\\b\<close>\<close>
  | Gap nat              \<comment> \<open>\<open>.{0,n}\<close>\<close>
  | OptOf "nat list"     \<comment> \<open>\<open>[...]?\<close>\<close>
  | Spaces               \<comment> \<open>\<open>\s*\<close>\<close>
  | Seq rx rx
  | Alt "rx list"

definition word_at :: "unidata \<Rightarrow> pystr \<Rightarrow> nat \<Rightarrow> bool" where
  "word_at U s i \<longleftrightarrow> i < length s \<and> u_word U (s ! i)"

definition boundary :: "unidata \<Rightarrow> pystr \<Rightarrow> nat \<Rightarrow> bool" where
  "boundary U s i \<longleftrightarrow> (0 < i \<and> word_at U s (i - 1)) \<noteq> word_at U s i"

definition same_text :: "unidata \<Rightarrow> bool \<Rightarrow> pystr \<Rightarrow> pystr \<Rightarrow> bool" where
  "same_text U ci p t \<longleftrightarrow> list_all2 (\<lambda>c d. if ci then u_same_letter U c d else c = d) p t"

text \<open>The end positions of a run of at most \<open>n\<close> characters satisfying \<open>p\<close> from \<open>i\<close> on.\<close>

fun run_ends :: "(nat \<Rightarrow> bool) \<Rightarrow> pystr \<Rightarrow> nat \<Rightarrow> nat \<Rightarrow> nat list" where
  "run_ends p s i 0 = [i]"
| "run_ends p s i (Suc n) =
     i # (if i < length s \<and> p (s ! i) then run_ends p s (Suc i) n else [])"

fun ends :: "unidata \<Rightarrow> pystr \<Rightarrow> rx \<Rightarrow> nat \<Rightarrow> nat list" where
  "ends U s (Text ci p) i =
     (if same_text U ci p (slice s i (i + length p)) then [i + length p] else [])"
| "ends U s Bound i = (if boundary U s i then [i] else [])"
| "ends U s (Gap n) i = run_ends (\<lambda>c. c \<noteq> 10) s i n"
| "ends U s (OptOf cs) i = i # (if i < length s \<and> s ! i \<in> set cs then [Suc i] else [])"
| "ends U s Spaces i = run_ends is_space s i (length s - i)"
| "ends U s (Seq a b) i = concat (map (ends U s b) (ends U s a i))"
| "ends U s (Alt rs) i = concat (map (\<lambda>r. ends U s r i) rs)"

definition search :: "unidata \<Rightarrow> rx \<Rightarrow> pystr \<Rightarrow> bool" where
  "search U r s \<longleftrightarrow> list_ex (\<lambda>i. ends U s r i \<noteq> []) [0..<Suc (length s)]"

fun seq :: "rx list \<Rightarrow> rx" where
  "seq [] = Text False []"
| "seq [r] = r"
| "seq (r # s # rs) = Seq r (seq (s # rs))"

definition words :: "string list \<Rightarrow> rx" where
  "words ws = Alt (map (\<lambda>w. Text True (lit w)) ws)"

definition cjk :: "nat list \<Rightarrow> rx" where
  "cjk cs = Text False cs"

definition delimited :: "rx \<Rightarrow> rx" where
  "delimited r = seq [Bound, r, Bound]"

section \<open>The guard's patterns\<close>

definition write_words :: "string list" where
  "write_words = [''drop'', ''delete'', ''update'', ''insert'', ''alter'', ''truncate'', ''copy'',
     ''grant'', ''revoke'', ''create'']"

definition write_sql :: rx where
  "write_sql = delimited (words write_words)"

text \<open>The Chinese write requests: delete an order, a table or data; raise a price; change data.\<close>

definition write_cjk :: rx where
  "write_cjk = Alt
     [seq [cjk [21024, 38500], Gap 20, Alt [cjk [35746, 21333], cjk [34920], cjk [25968, 25454]]],
      seq [cjk [25552, 39640], Gap 20, cjk [20215, 26684]],
      seq [cjk [20215, 26684], Gap 20, cjk [25552, 39640]],
      seq [cjk [20462, 25913], Gap 20, cjk [25968, 25454]]]"

definition override_rx :: rx where
  "override_rx = seq
     [delimited (words [''ignore'', ''bypass'', ''override'']), Gap 40,
      delimited (words [''instruction'', ''rule'', ''policy'', ''guard''])]"

definition override_cjk :: rx where
  "override_cjk = Alt
     [seq [cjk [24573, 30053], Gap 30,
        Alt [cjk [35268, 21017], cjk [25351, 20196], cjk [25552, 31034]]],
      seq [cjk [32469, 36807], Gap 20,
        Alt [cjk [35268, 21017], cjk [26816, 26597], cjk [38480, 21046]]]]"

definition secrets_rx :: rx where
  "secrets_rx = delimited (Alt
     [words [''password'', ''credential'', ''secret''],
      seq [Text True (lit ''api''), OptOf [45, 95, 32], Text True (lit ''key'')],
      words [''dsn'', ''system prompt'']])"

definition secrets_cjk :: rx where
  "secrets_cjk = Alt
     [cjk [23494, 30721], cjk [31995, 32479, 25552, 31034, 35789], cjk [23494, 38053],
      seq [cjk [23436, 25972], Gap 10, cjk [36830, 25509]]]"

definition tenant_cjk :: rx where
  "tenant_cjk = Alt
     [cjk [20854, 20182, 31199, 25143], cjk [20854, 23427, 31199, 25143],
      cjk [21035, 30340, 31199, 25143], cjk [36328, 31199, 25143]]"

definition sensitive_rx :: rx where
  "sensitive_rx = Alt
     [Text True [36523, 20221, 35777], Text True [31038, 20250, 23433, 20840, 21495],
      delimited (Text True (lit ''social security number'')), delimited (Text True (lit ''ssn''))]"

definition code_rx :: rx where
  "code_rx = Alt
     [seq [Bound, words [''exec'', ''eval''], Spaces, Text True [40]],
      seq [delimited (Text True (lit ''run'')), Gap 20, delimited (Text True (lit ''python''))]]"

definition code_cjk :: rx where
  "code_cjk = seq [Text True [36816, 34892], Gap 20, Text True (lit ''Python'')]"

text \<open>The six checks in order, each with its reason code.\<close>

definition question_checks :: "(rx \<times> string) list" where
  "question_checks =
     [(Alt [write_sql, write_cjk], ''WRITE_REQUEST_NOT_ALLOWED''),
      (Alt [override_rx, override_cjk], ''SAFETY_OVERRIDE_NOT_ALLOWED''),
      (Alt [secrets_rx, secrets_cjk], ''SECRET_REQUEST_NOT_ALLOWED''),
      (tenant_cjk, ''CROSS_TENANT_REQUEST_NOT_ALLOWED''),
      (sensitive_rx, ''SENSITIVE_DATA_NOT_ALLOWED''),
      (Alt [code_rx, code_cjk], ''ARBITRARY_CODE_NOT_ALLOWED'')]"

definition rejected :: "string \<Rightarrow> exn" where
  "rejected r = NL2SQL (NL2SQLPolicyError (lit r))"

definition inspect_question :: "unidata \<Rightarrow> pystr \<Rightarrow> exn + pystr" where
  "inspect_question U question =
     (let normalized = squash question in
      if normalized = [] then Inl (rejected ''EMPTY_QUESTION'')
      else if length normalized > 5000 then Inl (rejected ''QUESTION_TOO_LONG'')
      else (case List.find (\<lambda>(r, reason). search U r normalized) question_checks of
          Some (r, reason) \<Rightarrow> Inl (rejected reason)
        | None \<Rightarrow> Inr normalized))"

section \<open>Lemmas\<close>

lemma search_iff: "search U r s \<longleftrightarrow> (\<exists>i \<le> length s. ends U s r i \<noteq> [])"
  by (simp add: search_def list_ex_iff Bex_def less_Suc_eq_le del: upt_Suc)

lemma ends_Alt: "ends U s (Alt rs) i \<noteq> [] \<longleftrightarrow> (\<exists>r \<in> set rs. ends U s r i \<noteq> [])"
  by auto

lemma search_Alt: "search U (Alt rs) s \<longleftrightarrow> (\<exists>r \<in> set rs. search U r s)"
  by (auto simp: search_iff simp del: ends.simps simp: ends_Alt)

lemma slice_middle: "slice (a @ w @ b) (length a) (length a + length w) = w"
  by (simp add: slice_def)

text \<open>A word of the list, in any case, that is delimited on both sides is found.\<close>

lemma delimited_word_found:
  assumes "w' \<in> set ws" "list_all2 (u_same_letter U) (lit w') w" "w \<noteq> []"
    and "\<forall>c \<in> set w. u_word U c" "a = [] \<or> \<not> u_word U (last a)" "b = [] \<or> \<not> u_word U (hd b)"
  shows "search U (delimited (words ws)) (a @ w @ b)"
proof -
  let ?s = "a @ w @ b" and ?i = "length a" and ?j = "length a + length w"
  have len: "length (lit w') = length w" using assms(2) by (rule list_all2_lengthD)
  have "word_at U ?s ?i" using assms(3,4) by (auto simp: word_at_def nth_append)
  moreover have "\<not> (0 < ?i \<and> word_at U ?s (?i - 1))"
    using assms(5) by (cases a rule: rev_cases) (auto simp: word_at_def nth_append)
  ultimately have start: "boundary U ?s ?i" by (simp add: boundary_def)
  have "\<not> word_at U ?s ?j" using assms(6) by (cases b) (auto simp: word_at_def nth_append)
  moreover have "0 < ?j \<and> word_at U ?s (?j - 1)"
    using assms(3,4) by (cases w rule: rev_cases) (auto simp: word_at_def nth_append)
  ultimately have stop: "boundary U ?s ?j" by (simp add: boundary_def)
  have "?j \<in> set (ends U ?s (Text True (lit w')) ?i)"
    using assms(2) len slice_middle [of a w b] by (simp add: same_text_def)
  then have "?j \<in> set (ends U ?s (words ws) ?i)"
    using assms(1) by (auto simp: words_def intro!: bexI [of _ w'])
  then have "?j \<in> set (ends U ?s (delimited (words ws)) ?i)"
    using start stop by (auto simp: delimited_def intro!: bexI [of _ ?j])
  then show ?thesis by (auto simp: search_iff intro!: exI [of _ ?i])
qed

lemma inspect_question_Inr:
  "inspect_question U question = Inr q \<longleftrightarrow> q = squash question \<and> q \<noteq> [] \<and> length q \<le> 5000
     \<and> (\<forall>(r, reason) \<in> set question_checks. \<not> search U r q)"
proof -
  have "(case List.find (\<lambda>(r, reason). search U r n) question_checks of
          Some (r, reason) \<Rightarrow> Inl (rejected reason) | None \<Rightarrow> Inr n) = Inr q \<longleftrightarrow>
      q = n \<and> (\<forall>(r, reason) \<in> set question_checks. \<not> search U r n)" for n
  proof (cases "List.find (\<lambda>(r, reason). search U r n) question_checks")
    case None
    then have "\<forall>(r, reason) \<in> set question_checks. \<not> search U r n"
      by (auto simp: find_None_iff)
    with None show ?thesis by auto
  next
    case (Some x)
    then show ?thesis by (cases x) (auto dest!: find_SomeD)
  qed
  then show ?thesis by (auto simp: inspect_question_def Let_def)
qed

section \<open>Properties\<close>

text \<open>
  A question is accepted exactly when its whitespace-normalised text is not empty, has at
  most 5000 characters and matches none of the deny-list patterns; what is passed on is that
  normalised text, and inspecting it again accepts it unchanged.
\<close>

theorem question_acceptance_is_stable:
  assumes "inspect_question U question = Inr q"
  shows "q = squash question \<and> q \<noteq> [] \<and> length q \<le> 5000
    \<and> (\<forall>(r, reason) \<in> set question_checks. \<not> search U r q) \<and> inspect_question U q = Inr q"
  using assms unfolding inspect_question_Inr by auto

text \<open>
  A write keyword gets no question through: if the normalised question contains one of the
  ten words, in any mixture of upper and lower case and not as part of a longer word, it is
  refused as a write request.
\<close>

theorem write_words_are_rejected:
  assumes "squash question = a @ w @ b" "length (squash question) \<le> 5000"
    and "w' \<in> set write_words" "list_all2 (u_same_letter U) (lit w') w"
    and "\<forall>c \<in> set w. u_word U c" "a = [] \<or> \<not> u_word U (last a)" "b = [] \<or> \<not> u_word U (hd b)"
  shows "inspect_question U question = Inl (rejected ''WRITE_REQUEST_NOT_ALLOWED'')"
proof -
  have w: "w \<noteq> []" using assms(3,4) by (auto simp: write_words_def lit_def)
  have "search U write_sql (squash question)"
    unfolding assms(1) write_sql_def
    by (rule delimited_word_found [OF assms(3,4) w assms(5-7)])
  then have "search U (Alt [write_sql, write_cjk]) (squash question)"
    by (simp add: search_Alt)
  with assms(1,2) w show ?thesis
    by (simp add: inspect_question_def Let_def question_checks_def)
qed

definition drop_question :: pystr where
  "drop_question = lit ''please DROP it''"

definition plain_question :: pystr where
  "plain_question = lit '' hi''"

theorem question_acceptance_is_stable_witness:
  "inspect_question ascii_uni plain_question = Inr (lit ''hi'')
   \<and> inspect_question ascii_uni (lit ''hi'') = Inr (lit ''hi'')"
proof -
  have "inspect_question ascii_uni plain_question = Inr (lit ''hi'')" by code_simp
  with question_acceptance_is_stable [OF this] show ?thesis by blast
qed

theorem write_words_are_rejected_witness:
  "inspect_question ascii_uni drop_question = Inl (rejected ''WRITE_REQUEST_NOT_ALLOWED'')"
proof (rule write_words_are_rejected)
  show "squash drop_question = lit ''please '' @ lit ''DROP'' @ lit '' it''" by code_simp
  show "length (squash drop_question) \<le> 5000" by code_simp
  show "''drop'' \<in> set write_words" by (simp add: write_words_def)
  show "list_all2 (u_same_letter ascii_uni) (lit ''drop'') (lit ''DROP'')" by code_simp
  show "\<forall>c \<in> set (lit ''DROP''). u_word ascii_uni c" by code_simp
  have "\<not> u_word ascii_uni (last (lit ''please ''))" by code_simp
  then show "lit ''please '' = [] \<or> \<not> u_word ascii_uni (last (lit ''please ''))" by blast
  have "\<not> u_word ascii_uni (hd (lit '' it''))" by code_simp
  then show "lit '' it'' = [] \<or> \<not> u_word ascii_uni (hd (lit '' it''))" by blast
qed

end
