(* ===== verification/Agent_State.thy ===== *)
theory Agent_State
  imports NL2SQL
begin

text \<open>
  The shared vocabulary of the workflow: the state dictionary (\<open>agent/state.py\<close>), the request
  that starts a run (\<open>agent/models.py\<close>), the chart contract (\<open>agent/charting.py\<close>'s model), the
  redacted summaries and step records (\<open>agent/steps.py\<close>) and the redacted error classes
  (\<open>agent/error_policy.py\<close>).
\<close>

section \<open>The state dictionary\<close>

datatype intent = Sql_Intent | Knowledge | Hybrid
datatype sql_risk = Safe | Approval | Blocked | Repair_Risk
datatype decision = Approved | Rejected
datatype chart_type = Bar | Line | Pie | Table_Chart

record chart_spec =
  ch_type :: chart_type
  ch_title :: pystr
  ch_x :: "pystr option"
  ch_series :: "pystr list"

record metric_evidence =
  me_content :: pystr
  me_citation :: json

text \<open>
  A \<open>TypedDict\<close> with \<open>total=False\<close>: every key may be absent. The same type serves as the
  partial update a node returns. \<open>error_code\<close> may also be present and \<open>None\<close>. The validated
  models that the code stores as dictionaries are stored as such.
\<close>

record agent_state =
  as_run_id :: "pystr option"
  as_tenant_id :: "pystr option"
  as_user_id :: "pystr option"
  as_role :: "pystr option"
  as_data_source_id :: "pystr option"
  as_trace_id :: "pystr option"
  as_question :: "pystr option"
  as_intent :: "intent option"
  as_candidate_tables :: "pystr list option"
  as_confidence :: "real option"
  as_snapshot :: "schema_snapshot option"
  as_policy :: "query_policy option"
  as_metric_context :: "metric_evidence list option"
  as_plan :: "analysis_plan option"
  as_sql :: "pystr option"
  as_fingerprint :: "pystr option"
  as_guarded :: "guarded_query option"
  as_risk :: "sql_risk option"
  as_reasons :: "pystr list option"
  as_decision :: "decision option"
  as_rows :: "row list option"
  as_columns :: "pystr list option"
  as_truncated :: "bool option"
  as_attempts :: "int option"
  as_answer :: "pystr option"
  as_citations :: "json list option"
  as_chart :: "chart_spec option"
  as_error :: "pystr option option"

definition no_state :: agent_state where
  "no_state = \<lparr>as_run_id = None, as_tenant_id = None, as_user_id = None, as_role = None,
     as_data_source_id = None, as_trace_id = None, as_question = None, as_intent = None,
     as_candidate_tables = None, as_confidence = None, as_snapshot = None, as_policy = None,
     as_metric_context = None, as_plan = None, as_sql = None, as_fingerprint = None,
     as_guarded = None, as_risk = None, as_reasons = None, as_decision = None, as_rows = None,
     as_columns = None, as_truncated = None, as_attempts = None, as_answer = None,
     as_citations = None, as_chart = None, as_error = None\<rparr>"

text \<open>\<open>merged.update(update)\<close>: a key the update has replaces the state's.\<close>

definition newer :: "'a option \<Rightarrow> 'a option \<Rightarrow> 'a option" where
  "newer u s = (case u of None \<Rightarrow> s | Some _ \<Rightarrow> u)"

definition merge_state :: "agent_state \<Rightarrow> agent_state \<Rightarrow> agent_state" where
  "merge_state s u = \<lparr>as_run_id = newer (as_run_id u) (as_run_id s),
     as_tenant_id = newer (as_tenant_id u) (as_tenant_id s),
     as_user_id = newer (as_user_id u) (as_user_id s), as_role = newer (as_role u) (as_role s),
     as_data_source_id = newer (as_data_source_id u) (as_data_source_id s),
     as_trace_id = newer (as_trace_id u) (as_trace_id s),
     as_question = newer (as_question u) (as_question s),
     as_intent = newer (as_intent u) (as_intent s),
     as_candidate_tables = newer (as_candidate_tables u) (as_candidate_tables s),
     as_confidence = newer (as_confidence u) (as_confidence s),
     as_snapshot = newer (as_snapshot u) (as_snapshot s),
     as_policy = newer (as_policy u) (as_policy s),
     as_metric_context = newer (as_metric_context u) (as_metric_context s),
     as_plan = newer (as_plan u) (as_plan s), as_sql = newer (as_sql u) (as_sql s),
     as_fingerprint = newer (as_fingerprint u) (as_fingerprint s),
     as_guarded = newer (as_guarded u) (as_guarded s), as_risk = newer (as_risk u) (as_risk s),
     as_reasons = newer (as_reasons u) (as_reasons s),
     as_decision = newer (as_decision u) (as_decision s), as_rows = newer (as_rows u) (as_rows s),
     as_columns = newer (as_columns u) (as_columns s),
     as_truncated = newer (as_truncated u) (as_truncated s),
     as_attempts = newer (as_attempts u) (as_attempts s),
     as_answer = newer (as_answer u) (as_answer s),
     as_citations = newer (as_citations u) (as_citations s),
     as_chart = newer (as_chart u) (as_chart s), as_error = newer (as_error u) (as_error s)\<rparr>"

text \<open>\<open>state.get("error_code")\<close>, the same as a condition, \<open>state.get("attempts", 0)\<close> and
  \<open>state.get(key, [])\<close>.\<close>

definition error_of :: "agent_state \<Rightarrow> pystr option" where
  "error_of s = Option.bind (as_error s) (\<lambda>e. e)"

definition has_error :: "agent_state \<Rightarrow> bool" where
  "has_error s \<longleftrightarrow> error_of s \<noteq> None \<and> error_of s \<noteq> Some []"

definition attempts_of :: "agent_state \<Rightarrow> int" where
  "attempts_of s = (case as_attempts s of None \<Rightarrow> 0 | Some n \<Rightarrow> n)"

fun list_of :: "'a list option \<Rightarrow> 'a list" where
  "list_of None = []"
| "list_of (Some xs) = xs"

section \<open>Starting a run\<close>

record start_run =
  sr_run_id :: pystr
  sr_tenant_id :: pystr
  sr_user_id :: pystr
  sr_role :: pystr
  sr_data_source_id :: pystr
  sr_trace_id :: pystr
  sr_question :: pystr

definition id_length_ok :: "pystr \<Rightarrow> bool" where
  "id_length_ok s \<longleftrightarrow> 1 \<le> length s \<and> length s \<le> 64"

definition mk_start_run :: "start_run \<Rightarrow> exn + start_run" where
  "mk_start_run r =
     (if id_length_ok (sr_run_id r) \<and> id_length_ok (sr_tenant_id r) \<and> id_length_ok (sr_user_id r)
         \<and> sr_role r \<in> set (map lit [''ADMIN'', ''ANALYST'', ''VIEWER''])
         \<and> id_length_ok (sr_data_source_id r)
         \<and> 16 \<le> length (sr_trace_id r) \<and> length (sr_trace_id r) \<le> 64
         \<and> 1 \<le> length (sr_question r) \<and> length (sr_question r) \<le> 4000
      then Inr r else Inl (validation_error ''StartRun''))"

definition initial_state :: "start_run \<Rightarrow> agent_state" where
  "initial_state r = no_state
     \<lparr>as_run_id := Some (sr_run_id r), as_tenant_id := Some (sr_tenant_id r),
      as_user_id := Some (sr_user_id r), as_role := Some (sr_role r),
      as_data_source_id := Some (sr_data_source_id r), as_trace_id := Some (sr_trace_id r),
      as_question := Some (strip (sr_question r)), as_attempts := Some 0, as_reasons := Some [],
      as_metric_context := Some [], as_candidate_tables := Some [], as_citations := Some [],
      as_rows := Some [], as_columns := Some [], as_truncated := Some False,
      as_error := Some None\<rparr>"

record approval_resume =
  ar_approval_id :: pystr
  ar_decision :: decision
  ar_decided_by :: pystr
  ar_comment :: "pystr option"

definition mk_approval_resume :: "approval_resume \<Rightarrow> exn + approval_resume" where
  "mk_approval_resume r =
     (if id_length_ok (ar_approval_id r) \<and> id_length_ok (ar_decided_by r)
         \<and> (case ar_comment r of None \<Rightarrow> True | Some c \<Rightarrow> length c \<le> 500)
      then Inr r else Inl (validation_error ''ApprovalResume''))"

section \<open>Redacted summaries\<close>

fun intent_text :: "intent \<Rightarrow> pystr" where
  "intent_text Sql_Intent = lit ''sql''"
| "intent_text Knowledge = lit ''knowledge''"
| "intent_text Hybrid = lit ''hybrid''"

fun risk_text :: "sql_risk \<Rightarrow> pystr" where
  "risk_text Safe = lit ''safe''"
| "risk_text Approval = lit ''approval''"
| "risk_text Blocked = lit ''blocked''"
| "risk_text Repair_Risk = lit ''repair''"

text \<open>The entries of the summary that are not \<open>None\<close>; the SQL appears as its hash only.\<close>

definition state_summary ::
  "(nat list \<Rightarrow> pystr) \<Rightarrow> agent_state \<Rightarrow> exn + (pystr \<times> json) list" where
  "state_summary sha s =
     (let counts =
        [(lit ''intent'', map_option (JStr \<circ> intent_text) (as_intent s)),
         (lit ''candidate_table_count'', Some (JInt (int (length (list_of (as_candidate_tables s)))))),
         (lit ''metric_context_count'', Some (JInt (int (length (list_of (as_metric_context s)))))),
         (lit ''attempts'', Some (JInt (attempts_of s))),
         (lit ''sql_risk'', map_option (JStr \<circ> risk_text) (as_risk s)),
         (lit ''risk_reasons'', Some (jstrs (take 5 (list_of (as_reasons s))))),
         (lit ''row_count'', Some (JInt (int (length (list_of (as_rows s)))))),
         (lit ''column_count'', Some (JInt (int (length (list_of (as_columns s)))))),
         (lit ''citation_count'', Some (JInt (int (length (list_of (as_citations s)))))),
         (lit ''error_code'', map_option JStr (error_of s))]
      in res_bind (case as_sql s of
            None \<Rightarrow> Inr []
          | Some sql \<Rightarrow> if sql = [] then Inr []
              else res_map (\<lambda>q. fingerprint sha q) [sql]) (\<lambda>fps.
         Inr (List.map_filter (\<lambda>(k, v). map_option (Pair k) v) counts
           @ map (\<lambda>f. (lit ''sql_fingerprint'', JStr f)) fps)))"

section \<open>Redacted error classes\<close>

fun is_validation_error :: "exn \<Rightarrow> bool" where
  "is_validation_error (Py (ValueError m)) = True"
| "is_validation_error (Py TypeError) = True"
| "is_validation_error _ = False"

definition classify_error :: "exn \<Rightarrow> pystr \<times> bool" where
  "classify_error e =
     (case e of
        LLM l \<Rightarrow> (lit ''model'', retryable l)
      | _ \<Rightarrow>
        if e = Http HttpTimeout \<or> e = Py BuiltinTimeoutError then (lit ''timeout'', True)
        else if e = Http HttpNetwork \<or> e = Http HttpTransport then (lit ''transport'', True)
        else if is_validation_error e then (lit ''validation'', False)
        else (let code = (case exn_code e of None \<Rightarrow> [] | Some c \<Rightarrow> c) in
          if contains (lit ''POLICY'') code \<or> contains (lit ''REJECT'') code
          then (lit ''policy'', False)
          else if contains (lit ''STORE'') code then (lit ''storage'', False)
          else (lit ''internal'', False)))"

definition error_summary :: "exn \<Rightarrow> (pystr \<times> json) list" where
  "error_summary e = (case classify_error e of (category, again) \<Rightarrow>
     [(lit ''category'', JStr category), (lit ''retryable'', JBool again)])"

section \<open>Step records\<close>

datatype step_status = Step_Succeeded | Step_Failed | Step_Waiting

record step_record =
  sp_run_id :: pystr
  sp_step :: pystr
  sp_status :: step_status
  sp_attempt :: int
  sp_input :: "(pystr \<times> json) list"
  sp_output :: "(pystr \<times> json) list"
  sp_duration_ms :: int
  sp_error :: "pystr option"

text \<open>\<open>InMemoryAgentStepSink\<close>, and the body that \<open>PlatformAgentStepSink\<close> posts.\<close>

definition memory_step :: "step_record \<Rightarrow> step_record list \<Rightarrow> (exn + unit) \<times> step_record list" where
  "memory_step r records = (Inr (), records @ [r])"

fun step_status_text :: "step_status \<Rightarrow> pystr" where
  "step_status_text Step_Succeeded = lit ''SUCCEEDED''"
| "step_status_text Step_Failed = lit ''FAILED''"
| "step_status_text Step_Waiting = lit ''WAITING''"

definition platform_step_post :: "pystr \<Rightarrow> pystr \<Rightarrow> real \<Rightarrow> step_record \<Rightarrow> http_post" where
  "platform_step_post base_url token timeout r =
     \<lparr>hp_url = rstrip_char 47 base_url @ lit ''/internal/v1/analysis/jobs/'' @ sp_run_id r @ lit ''/steps'',
      hp_headers = [(lit ''Authorization'', lit ''Bearer '' @ token)],
      hp_body = JObj
        [(lit ''step_name'', JStr (sp_step r)),
         (lit ''status'', JStr (step_status_text (sp_status r))),
         (lit ''attempt'', JInt (sp_attempt r)), (lit ''input_summary'', JObj (sp_input r)),
         (lit ''output_summary'', JObj (sp_output r)), (lit ''duration_ms'', JInt (sp_duration_ms r)),
         (lit ''error_code'', jopt (sp_error r))],
      hp_timeout = (timeout, timeout)\<rparr>"

text \<open>\<open>response.raise_for_status()\<close>: any status that is not a success raises.\<close>

definition post_and_check ::
  "(http_post \<Rightarrow> 'w \<Rightarrow> (exn + int) \<times> 'w) \<Rightarrow> http_post \<Rightarrow> 'w \<Rightarrow> (exn + unit) \<times> 'w" where
  "post_and_check send p w = (case send p w of
     (Inl e, w') \<Rightarrow> (Inl e, w')
   | (Inr status, w') \<Rightarrow> (if 200 \<le> status \<and> status < 300 then Inr () else Inl (Http (HttpStatusError status)), w'))"

definition platform_step ::
  "(http_post \<Rightarrow> 'w \<Rightarrow> (exn + int) \<times> 'w) \<Rightarrow> pystr \<Rightarrow> pystr \<Rightarrow> real \<Rightarrow> step_record \<Rightarrow> 'w
     \<Rightarrow> (exn + unit) \<times> 'w" where
  "platform_step send base_url token timeout r w =
     post_and_check send (platform_step_post base_url token timeout r) w"

definition platform_approval_post :: "pystr \<Rightarrow> pystr \<Rightarrow> real \<Rightarrow> agent_state \<Rightarrow> exn + http_post" where
  "platform_approval_post base_url token timeout s =
     (case (as_run_id s, as_trace_id s) of
        (Some run, Some trace) \<Rightarrow> Inr
          \<lparr>hp_url = rstrip_char 47 base_url @ lit ''/internal/v1/analysis/jobs/'' @ run
             @ lit ''/approval-requests'',
           hp_headers = [(lit ''Authorization'', lit ''Bearer '' @ token), (lit ''X-Trace-Id'', trace)],
           hp_body = JObj [(lit ''reason_codes'', jstrs (list_of (as_reasons s))),
             (lit ''sql_fingerprint'', jopt (as_fingerprint s))],
           hp_timeout = (timeout, timeout)\<rparr>
      | _ \<Rightarrow> Inl (Py KeyError))"

definition platform_ensure_pending ::
  "(http_post \<Rightarrow> 'w \<Rightarrow> (exn + int) \<times> 'w) \<Rightarrow> pystr \<Rightarrow> pystr \<Rightarrow> real \<Rightarrow> agent_state \<Rightarrow> 'w
     \<Rightarrow> (exn + unit) \<times> 'w" where
  "platform_ensure_pending send base_url token timeout s w =
     (case platform_approval_post base_url token timeout s of
        Inl e \<Rightarrow> (Inl e, w)
      | Inr p \<Rightarrow> post_and_check send p w)"

section \<open>Lemmas\<close>

lemma merge_fields [simp]:
  "as_risk (merge_state s u) = newer (as_risk u) (as_risk s)"
  "as_decision (merge_state s u) = newer (as_decision u) (as_decision s)"
  "as_attempts (merge_state s u) = newer (as_attempts u) (as_attempts s)"
  "as_error (merge_state s u) = newer (as_error u) (as_error s)"
  "as_guarded (merge_state s u) = newer (as_guarded u) (as_guarded s)"
  "as_policy (merge_state s u) = newer (as_policy u) (as_policy s)"
  "as_sql (merge_state s u) = newer (as_sql u) (as_sql s)"
  "as_intent (merge_state s u) = newer (as_intent u) (as_intent s)"
  "as_answer (merge_state s u) = newer (as_answer u) (as_answer s)"
  "as_run_id (merge_state s u) = newer (as_run_id u) (as_run_id s)"
  "as_tenant_id (merge_state s u) = newer (as_tenant_id u) (as_tenant_id s)"
  "as_trace_id (merge_state s u) = newer (as_trace_id u) (as_trace_id s)"
  by (simp_all add: merge_state_def)

lemma newer_simps [simp]:
  "newer None s = s" "newer (Some x) s = Some x" "newer u None = u"
  by (simp_all add: newer_def split: option.splits)

lemma newer_assoc: "newer v (newer u s) = newer (newer v u) s"
  by (simp add: newer_def split: option.splits)

lemma merge_no_state [simp]: "merge_state s no_state = s"
  by (simp add: merge_state_def no_state_def)

lemma merge_assoc: "merge_state (merge_state s u) v = merge_state s (merge_state u v)"
  by (simp add: merge_state_def newer_assoc)

section \<open>Properties\<close>

text \<open>What a step summary may depend on: counts, codes, and the SQL as its hash.\<close>

definition same_shape :: "(nat list \<Rightarrow> pystr) \<Rightarrow> agent_state \<Rightarrow> agent_state \<Rightarrow> bool" where
  "same_shape sha s t \<longleftrightarrow> as_intent s = as_intent t \<and> as_risk s = as_risk t
     \<and> attempts_of s = attempts_of t \<and> error_of s = error_of t
     \<and> take 5 (list_of (as_reasons s)) = take 5 (list_of (as_reasons t))
     \<and> length (list_of (as_candidate_tables s)) = length (list_of (as_candidate_tables t))
     \<and> length (list_of (as_metric_context s)) = length (list_of (as_metric_context t))
     \<and> length (list_of (as_rows s)) = length (list_of (as_rows t))
     \<and> length (list_of (as_columns s)) = length (list_of (as_columns t))
     \<and> length (list_of (as_citations s)) = length (list_of (as_citations t))
     \<and> (as_sql s = None \<or> as_sql s = Some []) = (as_sql t = None \<or> as_sql t = Some [])
     \<and> map_option (fingerprint sha) (as_sql s) = map_option (fingerprint sha) (as_sql t)"

text \<open>
  C35. Step summaries carry no content: two states with the same codes, the same counts and SQL
  texts of the same hash have the same summary, whatever the question, the SQL, the rows, the
  column names, the metric texts and the answer are.
\<close>

theorem summaries_are_redacted:
  assumes "same_shape sha s t"
  shows "state_summary sha s = state_summary sha t"
proof -
  have "(case as_sql s of None \<Rightarrow> Inr [] | Some sql \<Rightarrow> if sql = [] then Inr []
          else res_map (\<lambda>q. fingerprint sha q) [sql])
      = (case as_sql t of None \<Rightarrow> Inr [] | Some sql \<Rightarrow> if sql = [] then Inr []
          else res_map (\<lambda>q. fingerprint sha q) [sql])"
    using assms by (auto simp: same_shape_def split: option.splits)
  with assms show ?thesis by (simp add: state_summary_def same_shape_def)
qed

definition secret_state :: "pystr \<Rightarrow> row list \<Rightarrow> agent_state" where
  "secret_state question rs = no_state\<lparr>as_question := Some question, as_rows := Some rs\<rparr>"

theorem summaries_are_redacted_witness:
  "state_summary zero_sha (secret_state (lit ''a'') [[(lit ''x'', JInt 1)]])
   = state_summary zero_sha (secret_state (lit ''b'') [[(lit ''y'', JInt 2)]])"
  by (rule summaries_are_redacted)
     (simp add: same_shape_def secret_state_def no_state_def attempts_of_def error_of_def)

end
