(* ===== verification/Observability.thy ===== *)
theory Observability
  imports Metadata
begin

text \<open>
  The pure parts of \<open>observability.py\<close>: the W3C trace parent, the trace id of a node's span, and
  the route label of the HTTP metrics. Spans and counters themselves are the OpenTelemetry and
  Prometheus libraries.
\<close>

definition all_hex :: "nat \<Rightarrow> pystr \<Rightarrow> bool" where
  "all_hex n s \<longleftrightarrow> length s = n \<and> list_all is_hex s"

definition zeros :: "nat \<Rightarrow> pystr" where
  "zeros n = replicate n 48"

definition trace_id_from_traceparent :: "unidata \<Rightarrow> pystr \<Rightarrow> exn + pystr" where
  "trace_id_from_traceparent U value =
     (case split_on 45 (u_lower U value) of
        [ver, tid, sid, flags] \<Rightarrow>
          if ver \<noteq> lit ''00'' \<or> \<not> all_hex 32 tid \<or> tid = zeros 32 \<or> \<not> all_hex 16 sid
             \<or> sid = zeros 16 \<or> \<not> all_hex 2 flags
          then Inl (Py (ValueError (lit ''invalid W3C traceparent'')))
          else Inr tid
      | _ \<Rightarrow> Inl (Py (ValueError (lit ''invalid W3C traceparent''))))"

definition normalize_trace_id :: "unidata \<Rightarrow> (nat list \<Rightarrow> pystr) \<Rightarrow> pystr \<Rightarrow> exn + pystr" where
  "normalize_trace_id U sha value =
     (let lowered = u_lower U value in
      if all_hex 32 lowered \<and> lowered \<noteq> zeros 32 then Inr lowered
      else (case utf8_encode value of None \<Rightarrow> Inl encode_error | Some b \<Rightarrow> Inr (take 32 (sha b))))"

text \<open>\<open>_UUID.sub("{id}", path)[:160]\<close>: leftmost, greedy, not overlapping.\<close>

definition any_hex :: "nat \<Rightarrow> bool" where
  "any_hex c \<longleftrightarrow> is_hex c \<or> 65 \<le> c \<and> c \<le> 70"

text \<open>The length of a match at the start of a text, when there is one.\<close>

definition uuid_match :: "pystr \<Rightarrow> nat option" where
  "uuid_match s =
     (if 9 \<le> length s \<and> list_all any_hex (take 8 s) \<and> s ! 8 = 45
      then (let tail_run = length (takeWhile (\<lambda>c. any_hex c \<or> c = 45) (take 36 (drop 9 s))) in
            if 27 \<le> tail_run then Some (9 + tail_run) else None)
      else None)"

function replace_uuids :: "pystr \<Rightarrow> pystr" where
  "replace_uuids [] = []"
| "replace_uuids (c # cs) = (case uuid_match (c # cs) of
     None \<Rightarrow> c # replace_uuids cs
   | Some n \<Rightarrow> lit ''{id}'' @ replace_uuids (drop n (c # cs)))"
  by pat_completeness auto

lemma uuid_match_pos: "uuid_match s = Some n \<Longrightarrow> 36 \<le> n \<and> n \<le> length s"
proof -
  assume "uuid_match s = Some n"
  then have n: "9 \<le> length s" "36 \<le> n"
    "n = 9 + length (takeWhile (\<lambda>c. any_hex c \<or> c = 45) (take 36 (drop 9 s)))"
    by (auto simp: uuid_match_def Let_def split: if_splits)
  have "length (takeWhile (\<lambda>c. any_hex c \<or> c = 45) (take 36 (drop 9 s))) \<le> length (drop 9 s)"
    by (rule order_trans [OF length_takeWhile_le]) simp
  with n show "36 \<le> n \<and> n \<le> length s" by simp
qed

termination replace_uuids
proof (relation "measure length", simp_all, goal_cases)
  case (1 c cs n)
  then show ?case by (auto dest!: uuid_match_pos)
qed

definition safe_route :: "pystr \<Rightarrow> pystr" where
  "safe_route path = take 160 (replace_uuids path)"

lemma list_all_is_hex: "all_hex n s \<Longrightarrow> c \<in> set s \<Longrightarrow> is_hex c"
  by (auto simp: all_hex_def list_all_iff)

text \<open>
  Every node's span gets a usable trace id: whatever text the run carries, if it can be
  encoded the normalised id has 32 lower-case hexadecimal digits, and a text that already is a
  non-zero id in any case is kept up to case. An id taken from a trace parent needs no change.
\<close>

theorem trace_ids_are_hexadecimal:
  assumes "sha_digests sha" and "normalize_trace_id U sha v = Inr t"
  shows "all_hex 32 t
    \<and> (all_hex 32 (u_lower U v) \<and> u_lower U v \<noteq> zeros 32 \<longrightarrow> t = u_lower U v)
    \<and> (\<forall>parent tid. trace_id_from_traceparent U parent = Inr tid \<and> u_lower U tid = tid
          \<longrightarrow> normalize_trace_id U sha tid = Inr tid)"
proof (intro conjI allI impI)
  have digest: "all_hex 32 (take 32 (sha b))" for b
    using assms(1) by (auto simp: sha_digests_def hex64_def all_hex_def list_all_iff dest: in_set_takeD)
  with assms(2) show "all_hex 32 t"
    by (auto simp: normalize_trace_id_def Let_def split: if_splits option.splits)
  show "all_hex 32 (u_lower U v) \<and> u_lower U v \<noteq> zeros 32 \<Longrightarrow> t = u_lower U v"
    using assms(2) by (simp add: normalize_trace_id_def)
  fix parent tid
  assume "trace_id_from_traceparent U parent = Inr tid \<and> u_lower U tid = tid"
  then show "normalize_trace_id U sha tid = Inr tid"
    by (auto simp: trace_id_from_traceparent_def normalize_trace_id_def Let_def
        split: list.splits if_splits)
qed

definition ones_sha :: "nat list \<Rightarrow> pystr" where
  "ones_sha b = replicate 64 49"

theorem trace_ids_are_hexadecimal_witness:
  "normalize_trace_id ascii_uni ones_sha (lit ''run'') = Inr (replicate 32 49) \<and> all_hex 32 (replicate 32 49)"
proof -
  have n: "normalize_trace_id ascii_uni ones_sha (lit ''run'') = Inr (replicate 32 49)" by code_simp
  have "sha_digests ones_sha" by (simp add: sha_digests_def hex64_def ones_sha_def is_hex_def ascii_digit_def)
  from trace_ids_are_hexadecimal [OF this n] n show ?thesis by blast
qed

end
