(* ===== verification/Agent_Graph.thy ===== *)
theory Agent_Graph
  imports Agent_State Observability
begin

text \<open>
  The workflow graph (\<open>agent/graph.py\<close>) and the step wrapper of \<open>agent/steps.py\<close>: nine nodes,
  the edges with their conditions, the approval pause, and the recording of every step. The
  edges are a step relation on positions (node, state, world); the world holds whatever the
  actions and the sinks keep. \<open>run_from\<close> is the execution of a run by the documented rules of
  the graph runtime: run the node, merge its update, follow its edge, stop at \<open>END\<close>, at an
  interrupt, at an exception, or after the runtime's step limit.
\<close>

section \<open>Nodes\<close>

datatype node = Classify | Retrieve_Metrics | Select_Schema | Generate_SQL | Guard_SQL
  | Request_Approval | Execute_SQL | Verify | Compose

fun node_name :: "node \<Rightarrow> pystr" where
  "node_name Classify = lit ''classify''"
| "node_name Retrieve_Metrics = lit ''retrieve_metrics''"
| "node_name Select_Schema = lit ''select_schema''"
| "node_name Generate_SQL = lit ''generate_sql''"
| "node_name Guard_SQL = lit ''guard_sql''"
| "node_name Request_Approval = lit ''request_approval''"
| "node_name Execute_SQL = lit ''execute_sql''"
| "node_name Verify = lit ''verify''"
| "node_name Compose = lit ''compose''"

datatype node_result = Updated agent_state | Raised exn | Interrupted json

text \<open>
  What a graph is built from. \<open>ag_action\<close> is the method of \<open>AgentActions\<close> that a node calls;
  \<open>ag_elapsed\<close> is the time in nanoseconds since the node started.
\<close>

type_synonym 'w actions = "node \<Rightarrow> agent_state \<Rightarrow> 'w \<Rightarrow> (exn + agent_state) \<times> 'w"

record 'w agent_env =
  ag_action :: "'w actions"
  ag_record :: "step_record \<Rightarrow> 'w \<Rightarrow> (exn + unit) \<times> 'w"
  ag_pending :: "agent_state \<Rightarrow> 'w \<Rightarrow> (exn + unit) \<times> 'w"
  ag_elapsed :: "'w \<Rightarrow> int"
  ag_uni :: unidata
  ag_sha :: "nat list \<Rightarrow> pystr"
  ag_max_repairs :: int

definition mk_agent_graph :: "'w agent_env \<Rightarrow> exn + 'w agent_env" where
  "mk_agent_graph E = (if 0 \<le> ag_max_repairs E \<and> ag_max_repairs E \<le> 2 then Inr E
     else Inl (validation_error ''max_repairs must be between 0 and 2''))"

section \<open>The step wrapper\<close>

definition elapsed_ms :: "'w agent_env \<Rightarrow> 'w \<Rightarrow> int" where
  "elapsed_ms E w = max 0 (ag_elapsed E w div 1000000)"

text \<open>The \<open>except Exception\<close> clause of \<open>timed_step\<close>.\<close>

definition record_failure ::
  "'w agent_env \<Rightarrow> pystr \<Rightarrow> agent_state \<Rightarrow> (pystr \<times> json) list \<Rightarrow> exn \<Rightarrow> 'w \<Rightarrow> node_result \<times> 'w" where
  "record_failure E name s inp e w =
     (case as_run_id s of
        None \<Rightarrow> (Raised (Py KeyError), w)
      | Some run \<Rightarrow>
          (let code = (case exn_code e of Some c \<Rightarrow> c | None \<Rightarrow> exn_name_upper e) in
           case ag_record E \<lparr>sp_run_id = run, sp_step = name, sp_status = Step_Failed,
                  sp_attempt = attempts_of s, sp_input = inp, sp_output = error_summary e,
                  sp_duration_ms = elapsed_ms E w, sp_error = Some code\<rparr> w of
             (Inl e', w') \<Rightarrow> (Raised e', w')
           | (Inr _, w') \<Rightarrow> (Raised e, w')))"

definition timed_step ::
  "'w agent_env \<Rightarrow> pystr \<Rightarrow> (agent_state \<Rightarrow> 'w \<Rightarrow> node_result \<times> 'w) \<Rightarrow> agent_state \<Rightarrow> 'w
     \<Rightarrow> node_result \<times> 'w" where
  "timed_step E name operation s w =
     (case state_summary (ag_sha E) s of
        Inl e \<Rightarrow> (Raised e, w)
      | Inr inp \<Rightarrow>
         (case (case as_trace_id s of None \<Rightarrow> Inl (Py KeyError)
                | Some t \<Rightarrow> normalize_trace_id (ag_uni E) (ag_sha E) t) of
            Inl e \<Rightarrow> (Raised e, w)
          | Inr _ \<Rightarrow>
             (case operation s w of
                (Interrupted p, w1) \<Rightarrow> (Interrupted p, w1)
              | (Raised e, w1) \<Rightarrow> record_failure E name s inp e w1
              | (Updated u, w1) \<Rightarrow>
                  (case (as_run_id s, state_summary (ag_sha E) (merge_state s u)) of
                     (None, _) \<Rightarrow> record_failure E name s inp (Py KeyError) w1
                   | (Some run, Inl e) \<Rightarrow> record_failure E name s inp e w1
                   | (Some run, Inr out) \<Rightarrow>
                       (case ag_record E \<lparr>sp_run_id = run, sp_step = name,
                              sp_status = Step_Succeeded, sp_attempt = attempts_of s,
                              sp_input = inp, sp_output = out, sp_duration_ms = elapsed_ms E w1,
                              sp_error = None\<rparr> w1 of
                          (Inl e, w2) \<Rightarrow> record_failure E name s inp e w2
                        | (Inr _, w2) \<Rightarrow> (Updated u, w2))))))"

section \<open>The approval pause\<close>

definition interrupt_payload :: "pystr \<Rightarrow> agent_state \<Rightarrow> json" where
  "interrupt_payload run s = JObj
     [(lit ''run_id'', JStr run), (lit ''sql_fingerprint'', jopt (as_fingerprint s)),
      (lit ''reason_codes'', jstrs (list_of (as_reasons s)))]"

fun decision_of :: "json \<Rightarrow> decision option" where
  "decision_of (JObj kvs) =
     (case map_of kvs (lit ''decision'') of
        Some (JStr d) \<Rightarrow> if d = lit ''approved'' then Some Approved
          else if d = lit ''rejected'' then Some Rejected else None
      | _ \<Rightarrow> None)"
| "decision_of _ = None"

definition waiting_step :: "'w agent_env \<Rightarrow> pystr \<Rightarrow> agent_state \<Rightarrow> (pystr \<times> json) list \<Rightarrow> 'w \<Rightarrow> step_record"
  where
  "waiting_step E run s inp w = \<lparr>sp_run_id = run, sp_step = lit ''request_approval'',
     sp_status = Step_Waiting, sp_attempt = attempts_of s, sp_input = inp,
     sp_output = [(lit ''sql_fingerprint'', jopt (as_fingerprint s)),
       (lit ''risk_reasons'', jstrs (take 5 (list_of (as_reasons s))))],
     sp_duration_ms = elapsed_ms E w, sp_error = None\<rparr>"

text \<open>
  \<open>pause\<close>: \<open>interrupt\<close> stops the node when there is no resume value, and returns it when the
  node is run again to resume; what stands before \<open>interrupt\<close> is then run again as well.
\<close>

definition pause ::
  "'w agent_env \<Rightarrow> json option \<Rightarrow> agent_state \<Rightarrow> 'w \<Rightarrow> node_result \<times> 'w" where
  "pause E resume s w =
     (case ag_pending E s w of
        (Inl e, w1) \<Rightarrow> (Raised e, w1)
      | (Inr _, w1) \<Rightarrow>
         (case (as_run_id s, state_summary (ag_sha E) s) of
            (None, _) \<Rightarrow> (Raised (Py KeyError), w1)
          | (Some run, Inl e) \<Rightarrow> (Raised e, w1)
          | (Some run, Inr inp) \<Rightarrow>
             (case ag_record E (waiting_step E run s inp w1) w1 of
                (Inl e, w2) \<Rightarrow> (Raised e, w2)
              | (Inr _, w2) \<Rightarrow>
                 (case resume of
                    None \<Rightarrow> (Interrupted (interrupt_payload run s), w2)
                  | Some reply \<Rightarrow>
                     (case decision_of reply of
                        None \<Rightarrow> (Raised (validation_error ''invalid approval resume payload''), w2)
                      | Some Rejected \<Rightarrow> (Updated (no_state\<lparr>as_decision := Some Rejected,
                          as_error := Some (Some (lit ''APPROVAL_REJECTED''))\<rparr>), w2)
                      | Some Approved \<Rightarrow> (Updated (no_state\<lparr>as_decision := Some Approved,
                          as_error := Some None\<rparr>), w2))))))"

definition run_action :: "'w agent_env \<Rightarrow> node \<Rightarrow> agent_state \<Rightarrow> 'w \<Rightarrow> node_result \<times> 'w" where
  "run_action E n s w = (case ag_action E n s w of
     (Inl e, w') \<Rightarrow> (Raised e, w') | (Inr u, w') \<Rightarrow> (Updated u, w'))"

definition run_node ::
  "'w agent_env \<Rightarrow> node \<Rightarrow> json option \<Rightarrow> agent_state \<Rightarrow> 'w \<Rightarrow> node_result \<times> 'w" where
  "run_node E n resume s w = timed_step E (node_name n)
     (if n = Request_Approval then pause E resume else run_action E n) s w"

section \<open>The edges\<close>

text \<open>\<open>None\<close> is \<open>END\<close>; a key a condition reads and the state lacks is a \<open>KeyError\<close>.\<close>

definition may_retry :: "'w agent_env \<Rightarrow> agent_state \<Rightarrow> bool" where
  "may_retry E s \<longleftrightarrow> attempts_of s < ag_max_repairs E + 1"

fun route :: "'w agent_env \<Rightarrow> node \<Rightarrow> agent_state \<Rightarrow> exn + node option" where
  "route E Classify s = Inr (if as_risk s = Some Blocked then None else Some Retrieve_Metrics)"
| "route E Retrieve_Metrics s = (case as_intent s of None \<Rightarrow> Inl (Py KeyError)
     | Some i \<Rightarrow> Inr (Some (if i = Knowledge then Compose else Select_Schema)))"
| "route E Select_Schema s = Inr (Some Generate_SQL)"
| "route E Generate_SQL s = Inr (Some Guard_SQL)"
| "route E Guard_SQL s = (case as_risk s of None \<Rightarrow> Inl (Py KeyError)
     | Some Safe \<Rightarrow> Inr (Some Execute_SQL)
     | Some Approval \<Rightarrow> Inr (Some Request_Approval)
     | Some Blocked \<Rightarrow> Inr None
     | Some Repair_Risk \<Rightarrow> Inr (if may_retry E s then Some Generate_SQL else None))"
| "route E Request_Approval s = (case as_decision s of None \<Rightarrow> Inl (Py KeyError)
     | Some Approved \<Rightarrow> Inr (Some Execute_SQL) | Some Rejected \<Rightarrow> Inr None)"
| "route E Execute_SQL s = Inr (Some Verify)"
| "route E Verify s =
     Inr (Some (if has_error s \<and> may_retry E s then Generate_SQL else Compose))"
| "route E Compose s = Inr None"

section \<open>Runs\<close>

datatype run_end = Ended | Paused json | Crashed exn | Out_of_steps

record 'w position =
  po_node :: node
  po_state :: agent_state
  po_world :: 'w

text \<open>One step of the graph, from a node to the next.\<close>

inductive agent_step :: "'w agent_env \<Rightarrow> 'w position \<Rightarrow> 'w position \<Rightarrow> bool" for E where
  move: "run_node E n resume s w = (Updated u, w') \<Longrightarrow> route E n (merge_state s u) = Inr (Some m)
    \<Longrightarrow> agent_step E \<lparr>po_node = n, po_state = s, po_world = w\<rparr>
          \<lparr>po_node = m, po_state = merge_state s u, po_world = w'\<rparr>"

inductive_cases agent_step_cases: "agent_step E p q"

inductive reachable :: "'w agent_env \<Rightarrow> start_run \<Rightarrow> 'w \<Rightarrow> 'w position \<Rightarrow> bool" for E r w0 where
  start: "reachable E r w0 \<lparr>po_node = Classify, po_state = initial_state r, po_world = w0\<rparr>"
| step: "reachable E r w0 p \<Longrightarrow> agent_step E p q \<Longrightarrow> reachable E r w0 q"

fun run_from ::
  "'w agent_env \<Rightarrow> nat \<Rightarrow> node \<Rightarrow> json option \<Rightarrow> agent_state \<Rightarrow> 'w
     \<Rightarrow> run_end \<times> node \<times> agent_state \<times> 'w" where
  "run_from E 0 n resume s w = (Out_of_steps, n, s, w)"
| "run_from E (Suc fuel) n resume s w =
     (case run_node E n resume s w of
        (Interrupted p, w') \<Rightarrow> (Paused p, n, s, w')
      | (Raised e, w') \<Rightarrow> (Crashed e, n, s, w')
      | (Updated u, w') \<Rightarrow>
          (case route E n (merge_state s u) of
             Inl e \<Rightarrow> (Crashed e, n, merge_state s u, w')
           | Inr None \<Rightarrow> (Ended, n, merge_state s u, w')
           | Inr (Some m) \<Rightarrow> run_from E fuel m None (merge_state s u) w'))"

section \<open>Lemmas\<close>

lemma timed_step_Updated:
  assumes "timed_step E name operation s w = (Updated u, w')"
  obtains w1 where "operation s w = (Updated u, w1)"
    "\<exists>rec. ag_record E rec w1 = (Inr (), w')"
proof -
  have no_fail: "record_failure E name s inp e v \<noteq> (Updated u, w')" for inp e v
    by (auto simp: record_failure_def Let_def split: option.splits sum.splits prod.splits)
  show ?thesis
  proof (rule that [of "snd (operation s w)"])
    show "operation s w = (Updated u, snd (operation s w))"
      "\<exists>rec. ag_record E rec (snd (operation s w)) = (Inr (), w')"
      using assms no_fail
      by (auto simp: timed_step_def split: sum.splits option.splits prod.splits node_result.splits)
  qed
qed

lemma pause_Updated:
  "pause E resume s w = (Updated u, w') \<Longrightarrow>
     (\<exists>a. resume = Some a \<and> decision_of a = Some Approved
        \<and> u = no_state\<lparr>as_decision := Some Approved, as_error := Some None\<rparr>)
   \<or> (\<exists>a. resume = Some a \<and> decision_of a = Some Rejected
        \<and> u = no_state\<lparr>as_decision := Some Rejected,
              as_error := Some (Some (lit ''APPROVAL_REJECTED''))\<rparr>)"
  by (auto simp: pause_def split: sum.splits option.splits prod.splits decision.splits)

lemma run_node_approval:
  assumes "run_node E Request_Approval resume s w = (Updated u, w')"
  shows "\<exists>a d. resume = Some a \<and> decision_of a = Some d \<and> as_decision u = Some d
    \<and> as_risk u = None \<and> as_attempts u = None \<and> as_guarded u = None
    \<and> as_error u = Some (if d = Rejected then Some (lit ''APPROVAL_REJECTED'') else None)"
proof -
  from assms have "timed_step E (node_name Request_Approval) (pause E resume) s w = (Updated u, w')"
    by (simp add: run_node_def)
  then obtain w1 where "pause E resume s w = (Updated u, w1)" by (rule timed_step_Updated)
  from pause_Updated [OF this] show ?thesis by (auto simp: no_state_def)
qed

lemma run_node_action:
  assumes "run_node E n resume s w = (Updated u, w')" and "n \<noteq> Request_Approval"
  obtains w1 rec where "ag_action E n s w = (Inr u, w1)" "ag_record E rec w1 = (Inr (), w')"
proof -
  from assms have "timed_step E (node_name n) (run_action E n) s w = (Updated u, w')"
    by (simp add: run_node_def)
  then obtain w1 where "run_action E n s w = (Updated u, w1)" "\<exists>rec. ag_record E rec w1 = (Inr (), w')"
    by (rule timed_step_Updated)
  then show ?thesis using that by (auto simp: run_action_def split: prod.splits sum.splits)
qed

text \<open>The conditions under which each node is entered, read off the edges.\<close>

definition entry_ok :: "'w position \<Rightarrow> bool" where
  "entry_ok p \<longleftrightarrow>
     (po_node p = Execute_SQL \<longrightarrow> as_risk (po_state p) = Some Safe
        \<or> as_risk (po_state p) = Some Approval \<and> as_decision (po_state p) = Some Approved)
   \<and> (po_node p = Request_Approval \<longrightarrow> as_risk (po_state p) = Some Approval)"

lemma step_entry_ok:
  assumes "agent_step E p q" and "entry_ok p"
  shows "entry_ok q"
  using assms
proof (cases rule: agent_step.cases)
  case (move n resume s w u w' m)
  show ?thesis
  proof (cases "n = Request_Approval")
    case True
    with move run_node_approval [of E resume s w u w'] assms(2) show ?thesis
      by (auto simp: entry_ok_def split: option.splits decision.splits)
  next
    case False
    with move show ?thesis
      by (cases n) (auto simp: entry_ok_def split: option.splits sql_risk.splits if_splits)
  qed
qed

lemma reachable_entry_ok: "reachable E r w0 p \<Longrightarrow> entry_ok p"
proof (induction rule: reachable.induct)
  case start
  then show ?case by (simp add: entry_ok_def)
next
  case (step p q)
  from step_entry_ok [OF step.hyps(2) step.IH] show ?case .
qed

section \<open>Actions that keep to their contract\<close>

text \<open>
  What the graph relies on in \<open>AgentActions\<close>: only \<open>generate_sql\<close> moves the attempt counter, by
  one; none replaces the identity of the run; only \<open>execute_sql\<close> runs a query, at most one,
  and that is the guarded query of the state. \<open>ran\<close> reads the log of executed queries from the world, and the sinks leave it alone.
\<close>

definition no_identity :: "agent_state \<Rightarrow> bool" where
  "no_identity u \<longleftrightarrow> as_run_id u = None \<and> as_tenant_id u = None \<and> as_user_id u = None
     \<and> as_data_source_id u = None \<and> as_question u = None \<and> as_trace_id u = None"

locale agent_actions =
  fixes E :: "'w agent_env" and ran :: "'w \<Rightarrow> guarded_query list"
  assumes repairs: "0 \<le> ag_max_repairs E" "ag_max_repairs E \<le> 2"
    and attempts_kept: "n \<noteq> Generate_SQL \<Longrightarrow> n \<noteq> Request_Approval
      \<Longrightarrow> ag_action E n s w = (Inr u, w') \<Longrightarrow> as_attempts u = None"
    and attempt_counted: "ag_action E Generate_SQL s w = (Inr u, w')
      \<Longrightarrow> as_attempts u = Some (attempts_of s + 1)"
    and identity_kept: "n \<noteq> Request_Approval \<Longrightarrow> ag_action E n s w = (Inr u, w') \<Longrightarrow> no_identity u"
    and ran_kept: "n \<noteq> Execute_SQL \<Longrightarrow> ag_action E n s w = (x, w') \<Longrightarrow> ran w' = ran w"
    and ran_one: "ag_action E Execute_SQL s w = (x, w')
      \<Longrightarrow> ran w' = ran w \<or> (\<exists>g. as_guarded s = Some g \<and> ran w' = ran w @ [g])"
    and record_ran: "ag_record E rec w = (y, w') \<Longrightarrow> ran w' = ran w"
    and pending_ran: "ag_pending E s w = (y, w') \<Longrightarrow> ran w' = ran w"
begin

text \<open>How many more steps a run can make from a position, and the invariant it rests on.\<close>

definition left :: "agent_state \<Rightarrow> nat" where
  "left s = nat (ag_max_repairs E + 1 - attempts_of s)"

fun rank :: "node \<Rightarrow> agent_state \<Rightarrow> nat" where
  "rank Classify s = 5 * left s + 4"
| "rank Retrieve_Metrics s = 5 * left s + 3"
| "rank Select_Schema s = 5 * left s + 2"
| "rank Generate_SQL s = 5 * left s + 1"
| "rank Guard_SQL s = 5 * left s + 5"
| "rank Request_Approval s = 5 * left s + 4"
| "rank Execute_SQL s = 5 * left s + 3"
| "rank Verify s = 5 * left s + 2"
| "rank Compose s = 1"

definition budget_ok :: "node \<Rightarrow> agent_state \<Rightarrow> bool" where
  "budget_ok n s \<longleftrightarrow> 0 \<le> attempts_of s \<and> attempts_of s \<le> ag_max_repairs E + 1
     \<and> (n \<in> {Classify, Retrieve_Metrics, Select_Schema, Generate_SQL} \<longrightarrow> may_retry E s)"

lemma update_attempts:
  assumes "run_node E n resume s w = (Updated u, w')"
  shows "attempts_of (merge_state s u) = (if n = Generate_SQL then attempts_of s + 1 else attempts_of s)"
proof (cases "n = Request_Approval")
  case True
  with run_node_approval [of E resume s w u w'] assms show ?thesis by (auto simp: attempts_of_def)
next
  case False
  with assms obtain w1 where "ag_action E n s w = (Inr u, w1)" by (auto elim: run_node_action)
  with False attempts_kept attempt_counted show ?thesis
    by (cases "n = Generate_SQL") (fastforce simp: attempts_of_def)+
qed

lemma node_moves:
  assumes "run_node E n resume s w = (Updated u, w')" and "route E n (merge_state s u) = Inr (Some m)"
    and "budget_ok n s"
  shows "budget_ok m (merge_state s u) \<and> rank m (merge_state s u) < rank n s"
proof -
  note a = update_attempts [OF assms(1)]
  have l: "n \<noteq> Generate_SQL \<Longrightarrow> left (merge_state s u) = left s"
    "n = Generate_SQL \<Longrightarrow> Suc (left (merge_state s u)) = left s"
    using a assms(3) by (auto simp: left_def budget_ok_def may_retry_def)
  show ?thesis
    using assms(2,3) a l
    by (cases n) (auto simp: budget_ok_def may_retry_def split: option.splits sql_risk.splits
        decision.splits if_splits)
qed

lemma run_from_ends:
  assumes "budget_ok n s" and "rank n s \<le> fuel"
  shows "fst (run_from E fuel n resume s w) \<noteq> Out_of_steps"
  using assms
proof (induction fuel arbitrary: n resume s w)
  case 0
  then have False by (cases n) auto
  then show ?case ..
next
  case (Suc fuel)
  obtain x w' where x: "run_node E n resume s w = (x, w')" by (cases "run_node E n resume s w")
  show ?case
  proof (cases x)
    case (Updated u)
    show ?thesis
    proof (cases "route E n (merge_state s u)")
      case (Inr y)
      show ?thesis
      proof (cases y)
        case (Some m)
        from node_moves [of n resume s w u w' m] x Updated Inr Some Suc.prems
        have "budget_ok m (merge_state s u)" "rank m (merge_state s u) \<le> fuel" by auto
        with Suc.IH x Updated Inr Some show ?thesis by simp
      qed (use x Updated Inr in simp)
    qed (use x Updated in simp)
  qed (use x in simp_all)
qed

lemma initial_budget: "budget_ok Classify (initial_state r)"
  using repairs by (simp add: budget_ok_def may_retry_def attempts_of_def initial_state_def no_state_def)

lemma initial_rank: "rank Classify (initial_state r) \<le> 19"
  using repairs by (simp add: left_def attempts_of_def initial_state_def no_state_def)

lemma reachable_budget: "reachable E r w0 p \<Longrightarrow>
    budget_ok (po_node p) (po_state p) \<and> rank (po_node p) (po_state p) \<le> 19"
proof (induction rule: reachable.induct)
  case start
  then show ?case using initial_budget initial_rank by simp
next
  case (step p q)
  from step.hyps(2) show ?case
  proof (cases rule: agent_step.cases)
    case (move n resume s w u w' m)
    with node_moves [of n resume s w u w' m] step.IH show ?thesis by auto
  qed
qed

lemma run_node_ran:
  assumes "run_node E n resume s w = (x, w')"
  shows "ran w' = ran w \<or> (n = Execute_SQL \<and> (\<exists>g. as_guarded s = Some g \<and> ran w' = ran w @ [g]))"
proof -
  have fail: "ran v' = ran v" if "record_failure E name s inp e v = (y, v')" for name inp e v y v'
    using that record_ran
    by (auto simp: record_failure_def Let_def split: option.splits sum.splits prod.splits)
  define op where "op = (if n = Request_Approval then pause E resume else run_action E n)"
  have op: "ran w1 = ran w \<or> (n = Execute_SQL \<and> (\<exists>g. as_guarded s = Some g \<and> ran w1 = ran w @ [g]))"
    if "op s w = (y, w1)" for y w1
  proof (cases "n = Request_Approval")
    case True
    with that have "pause E resume s w = (y, w1)" by (simp add: op_def)
    then have "ran w1 = ran w"
      by (auto simp: pause_def split: sum.splits option.splits prod.splits decision.splits
          dest!: record_ran pending_ran)
    then show ?thesis by simp
  next
    case False
    with that obtain z where "ag_action E n s w = (z, w1)"
      by (auto simp: op_def run_action_def split: prod.splits sum.splits)
    with ran_kept ran_one show ?thesis by (cases "n = Execute_SQL") blast+
  qed
  have "timed_step E (node_name n) op s w = (x, w')"
    using assms by (simp add: run_node_def op_def)
  then show ?thesis
    by (auto simp: timed_step_def split: sum.splits option.splits prod.splits node_result.splits
        dest!: op fail record_ran)
qed

text \<open>Every draft is executed at most once.\<close>

definition pending_query :: "node \<Rightarrow> nat" where
  "pending_query n = (if n \<in> {Guard_SQL, Request_Approval, Execute_SQL} then 1 else 0)"

lemma reachable_ran: "reachable E r w0 p \<Longrightarrow>
    int (length (ran (po_world p)) + pending_query (po_node p))
      \<le> int (length (ran w0)) + attempts_of (po_state p)"
proof (induction rule: reachable.induct)
  case start
  then show ?case by (simp add: pending_query_def attempts_of_def initial_state_def no_state_def)
next
  case (step p q)
  from step.hyps(2) show ?case
  proof (cases rule: agent_step.cases)
    case (move n resume s w u w' m)
    note a = update_attempts [OF move(3)]
    note r = run_node_ran [OF move(3)]
    show ?thesis
      using step.IH move(1,2,4) a r
      by (cases n) (auto simp: pending_query_def split: option.splits sql_risk.splits
          decision.splits if_splits)
  qed
qed

lemma executions_bounded:
  assumes "reachable E r w0 p"
  shows "int (length (ran (po_world p))) \<le> int (length (ran w0)) + ag_max_repairs E + 1"
  using reachable_ran [OF assms] reachable_budget [OF assms] by (simp add: budget_ok_def)

text \<open>The query a step executes is the guarded one, and it was cleared.\<close>

lemma executed_was_cleared:
  assumes "reachable E r w0 p" and "run_node E (po_node p) resume (po_state p) (po_world p) = (x, w')"
    and "ran w' \<noteq> ran (po_world p)"
  shows "\<exists>g. as_guarded (po_state p) = Some g \<and> ran w' = ran (po_world p) @ [g]
    \<and> (as_risk (po_state p) = Some Safe
       \<or> as_risk (po_state p) = Some Approval \<and> as_decision (po_state p) = Some Approved)"
  using run_node_ran [OF assms(2)] assms(3) reachable_entry_ok [OF assms(1)]
  by (auto simp: entry_ok_def)

lemma update_identity:
  assumes "run_node E n resume s w = (Updated u, w')"
  shows "no_identity u"
proof (cases "n = Request_Approval")
  case True
  with assms have "timed_step E (node_name Request_Approval) (pause E resume) s w = (Updated u, w')"
    by (simp add: run_node_def)
  then obtain w1 where "pause E resume s w = (Updated u, w1)" by (rule timed_step_Updated)
  from pause_Updated [OF this] show ?thesis by (auto simp: no_identity_def no_state_def)
next
  case False
  with assms show ?thesis by (auto elim!: run_node_action dest: identity_kept)
qed

text \<open>A run that was refused ends there, and nothing is executed.\<close>

lemma rejected_run:
  assumes "decision_of a = Some Rejected" and "run_from E (Suc fuel) Request_Approval (Some a) s w = (z, n, s', w')"
  shows "ran w' = ran w \<and> n = Request_Approval
    \<and> (z = Ended \<and> as_decision s' = Some Rejected \<and> error_of s' = Some (lit ''APPROVAL_REJECTED'')
       \<or> (\<exists>e. z = Crashed e))"
proof -
  obtain x v where x: "run_node E Request_Approval (Some a) s w = (x, v)"
    by (cases "run_node E Request_Approval (Some a) s w")
  note kept = run_node_ran [OF x]
  show ?thesis
  proof (cases x)
    case (Updated u)
    with run_node_approval [of E "Some a" s w u v] x assms(1) have
      u: "as_decision u = Some Rejected" "as_error u = Some (Some (lit ''APPROVAL_REJECTED''))"
      by auto
    then have "error_of (merge_state s u) = Some (lit ''APPROVAL_REJECTED'')"
      by (simp add: error_of_def)
    with u Updated x assms(2) kept show ?thesis by auto
  next
    case (Interrupted p)
    have "pause E (Some a) s w1 \<noteq> (Interrupted p, w2)" for w1 w2
      by (auto simp: pause_def assms(1) split: sum.splits option.splits prod.splits)
    then have "run_node E Request_Approval (Some a) s w \<noteq> (Interrupted p, v)"
      by (auto simp: run_node_def timed_step_def record_failure_def Let_def
          split: sum.splits option.splits prod.splits node_result.splits)
    with x Interrupted show ?thesis by simp
  next
    case (Raised e)
    with x assms(2) kept show ?thesis by auto
  qed
qed

end

section \<open>Properties\<close>

text \<open>
  C1. The workflow never reaches \<open>execute_sql\<close> without clearance: in every position a run can get
  to, whatever the actions, the sinks and the resume values do, the node \<open>execute_sql\<close> is
  entered only with the risk \<open>safe\<close>, or with the risk \<open>approval\<close> and the decision \<open>approved\<close>.
\<close>

theorem execution_needs_clearance:
  assumes "reachable E r w0 p" and "po_node p = Execute_SQL"
  shows "as_risk (po_state p) = Some Safe
    \<or> as_risk (po_state p) = Some Approval \<and> as_decision (po_state p) = Some Approved"
  using reachable_entry_ok [OF assms(1)] assms(2) by (simp add: entry_ok_def)

section \<open>The offline demonstration\<close>

text \<open>
  \<open>DemoActions\<close> of \<open>agent/demo.py\<close>: scripted actions that ask for one repair, or for one
  approval. The world is the number of executions, the step records and the executed queries
  (none: the demo has no guarded query).
\<close>

record demo_world =
  dw_executions :: nat
  dw_steps :: "step_record list"

definition demo_action :: "bool \<Rightarrow> demo_world actions" where
  "demo_action approval n s w = (case n of
     Classify \<Rightarrow> (Inr (no_state\<lparr>as_intent := Some Hybrid\<rparr>), w)
   | Retrieve_Metrics \<Rightarrow>
       (Inr (no_state\<lparr>as_metric_context := Some [], as_citations := Some []\<rparr>), w)
   | Select_Schema \<Rightarrow> (Inr (no_state\<lparr>as_candidate_tables := Some [lit ''orders'']\<rparr>), w)
   | Generate_SQL \<Rightarrow> (Inr (no_state\<lparr>as_attempts := Some (attempts_of s + 1),
       as_sql := Some (lit ''SELECT 1''), as_error := Some None\<rparr>), w)
   | Guard_SQL \<Rightarrow> (case as_attempts s of
         None \<Rightarrow> (Inl (Py KeyError), w)
       | Some a \<Rightarrow>
           (if a = 1 \<and> \<not> approval
            then Inr (no_state\<lparr>as_risk := Some Repair_Risk,
              as_error := Some (Some (lit ''DEMO_REPAIR_REQUIRED''))\<rparr>)
            else Inr (no_state\<lparr>as_risk := Some (if approval then Approval else Safe),
              as_error := Some None\<rparr>), w))
   | Execute_SQL \<Rightarrow> (Inr (no_state\<lparr>as_columns := Some [lit ''value''],
       as_rows := Some [[(lit ''value'', JInt 1)]]\<rparr>), w\<lparr>dw_executions := Suc (dw_executions w)\<rparr>)
   | Verify \<Rightarrow> (Inr (no_state\<lparr>as_error := Some None\<rparr>), w)
   | Compose \<Rightarrow> (Inr (no_state\<lparr>as_answer := Some (lit ''Offline demonstration completed.'')\<rparr>), w)
   | Request_Approval \<Rightarrow> (Inl (Py KeyError), w))"

definition demo_env :: "bool \<Rightarrow> demo_world agent_env" where
  "demo_env approval = \<lparr>ag_action = demo_action approval,
     ag_record = (\<lambda>r w. (Inr (), w\<lparr>dw_steps := dw_steps w @ [r]\<rparr>)),
     ag_pending = (\<lambda>s w. (Inr (), w)), ag_elapsed = (\<lambda>w. 0), ag_uni = ascii_uni,
     ag_sha = zero_sha, ag_max_repairs = 2\<rparr>"

interpretation demo: agent_actions "demo_env approval" "\<lambda>w. []" for approval
  by unfold_locales
     (auto simp: demo_env_def demo_action_def no_state_def attempts_of_def no_identity_def
        split: node.splits option.splits if_splits)

definition demo_request :: start_run where
  "demo_request = \<lparr>sr_run_id = lit ''run'', sr_tenant_id = lit ''t'', sr_user_id = lit ''u'',
     sr_role = lit ''ANALYST'', sr_data_source_id = lit ''d'', sr_trace_id = zeros 31 @ [49],
     sr_question = lit ''Offline demo''\<rparr>"

definition demo_start :: demo_world where
  "demo_start = \<lparr>dw_executions = 0, dw_steps = []\<rparr>"

text \<open>The demo's two runs: one repair and no approval, and a pause for approval.\<close>

definition demo_run :: "bool \<Rightarrow> run_end \<times> node \<times> agent_state \<times> demo_world" where
  "demo_run approval =
     run_from (demo_env approval) 25 Classify None (initial_state demo_request) demo_start"

lemma demo_repairs_once:
  "(case demo_run False of (z, n, s, w) \<Rightarrow>
     (z, n, as_attempts s, dw_executions w, map sp_step (dw_steps w)))
   = (Ended, Compose, Some 2, 1, map node_name [Classify, Retrieve_Metrics, Select_Schema,
        Generate_SQL, Guard_SQL, Generate_SQL, Guard_SQL, Execute_SQL, Verify, Compose])"
  by code_simp

lemma demo_waits:
  "(case demo_run True of (z, n, s, w) \<Rightarrow> (n, as_attempts s, dw_executions w, length (dw_steps w)))
   = (Request_Approval, Some 1, 0, 6)"
  by code_simp

text \<open>Positions after a number of moves; all of them are reachable.\<close>

fun walk :: "'w agent_env \<Rightarrow> nat \<Rightarrow> 'w position \<Rightarrow> 'w position option" where
  "walk E 0 p = Some p"
| "walk E (Suc k) p = (case run_node E (po_node p) None (po_state p) (po_world p) of
     (Updated u, w') \<Rightarrow> (case route E (po_node p) (merge_state (po_state p) u) of
         Inr (Some m) \<Rightarrow> walk E k
           \<lparr>po_node = m, po_state = merge_state (po_state p) u, po_world = w'\<rparr>
       | _ \<Rightarrow> None)
   | _ \<Rightarrow> None)"

lemma walk_reachable:
  "walk E k p = Some q \<Longrightarrow> reachable E r w0 p \<Longrightarrow> reachable E r w0 q"
proof (induction k arbitrary: p)
  case (Suc k)
  obtain n s w where p: "p = \<lparr>po_node = n, po_state = s, po_world = w\<rparr>" by (cases p) auto
  with Suc.prems(1) obtain u w' m where "run_node E n None s w = (Updated u, w')"
    "route E n (merge_state s u) = Inr (Some m)"
    "walk E k \<lparr>po_node = m, po_state = merge_state s u, po_world = w'\<rparr> = Some q"
    by (auto split: prod.splits node_result.splits sum.splits option.splits)
  with p Suc show ?case by (blast intro: reachable.step agent_step.move)
qed simp

definition demo_origin :: "demo_world position" where
  "demo_origin = \<lparr>po_node = Classify, po_state = initial_state demo_request, po_world = demo_start\<rparr>"

lemma demo_reaches_execution:
  "map_option po_node (walk (demo_env False) 7 demo_origin) = Some Execute_SQL"
  by code_simp

theorem execution_needs_clearance_witness:
  "\<exists>p. reachable (demo_env False) demo_request demo_start p \<and> po_node p = Execute_SQL
     \<and> (as_risk (po_state p) = Some Safe \<or> as_decision (po_state p) = Some Approved)"
proof -
  obtain p where p: "walk (demo_env False) 7 demo_origin = Some p" "po_node p = Execute_SQL"
    using demo_reaches_execution by auto
  have "reachable (demo_env False) demo_request demo_start demo_origin"
    unfolding demo_origin_def by (rule reachable.start)
  with p(1) have "reachable (demo_env False) demo_request demo_start p" by (rule walk_reachable)
  with execution_needs_clearance [OF this p(2)] p(2) show ?thesis by blast
qed

end
