(* ===== verification/Agent_Service.thy ===== *)
theory Agent_Service
  imports Agent_Graph
begin

text \<open>
  The workflow service (\<open>agent/service.py\<close>) over the graph runtime. The runtime with its
  checkpoint store is the third-party LangGraph: the service takes its three operations as an
  argument, and the locale \<open>durable_graph\<close> states what it relies on. \<open>agent_runtime\<close> is an
  instance by the documented rules (one thread per run id, a checkpoint after every step,
  resuming at the interrupted node), built on the step relation of \<open>Agent_Graph\<close>.
\<close>

section \<open>The runtime as an argument\<close>

record task =
  tk_interrupts :: "json list"
  tk_error :: "pystr option"       \<comment> \<open>\<open>str(task.error)\<close>\<close>

record snapshot =
  sn_values :: "agent_state option"  \<comment> \<open>\<open>None\<close>: the empty dictionary\<close>
  sn_tasks :: "task list"

record 'g graph_ops =
  go_state :: "pystr \<Rightarrow> 'g \<Rightarrow> snapshot"
  go_start :: "agent_state \<Rightarrow> pystr \<Rightarrow> 'g \<Rightarrow> (exn + agent_state \<times> json list) \<times> 'g"
  go_resume :: "json \<Rightarrow> pystr \<Rightarrow> 'g \<Rightarrow> (exn + agent_state \<times> json list) \<times> 'g"

section \<open>Results\<close>

datatype run_status = Planning | Waiting_Approval | Completed | Rejected_Run | Failed_Run

record workflow_result =
  wr_run_id :: pystr
  wr_status :: run_status
  wr_state :: agent_state
  wr_interrupt :: "json option"

definition status_of :: "agent_state \<Rightarrow> bool \<Rightarrow> run_status" where
  "status_of s interrupted =
     (if interrupted then Waiting_Approval
      else if error_of s = Some (lit ''APPROVAL_REJECTED'') \<or> as_risk s = Some Blocked
      then Rejected_Run
      else if has_error s then Failed_Run
      else if as_answer s \<noteq> None \<and> as_answer s \<noteq> Some [] then Completed
      else Planning)"

fun dict_payload :: "json list \<Rightarrow> json option" where
  "dict_payload (JObj kvs # _) = Some (JObj kvs)"
| "dict_payload _ = None"

definition result_of :: "pystr \<Rightarrow> agent_state \<times> json list \<Rightarrow> workflow_result" where
  "result_of run_id raw = (case raw of (s, interrupts) \<Rightarrow>
     \<lparr>wr_run_id = run_id, wr_status = status_of s (interrupts \<noteq> []), wr_state = s,
      wr_interrupt = dict_payload interrupts\<rparr>)"

definition public_error_codes :: "(pystr \<times> pystr) list" where
  "public_error_codes = map (\<lambda>(a, b). (lit a, lit b))
     [(''SchemaSelectionError'', ''NL2SQL_SCHEMA_SELECTION_FAILED''),
      (''NL2SQLRepairExhaustedError'', ''NL2SQL_REPAIR_EXHAUSTED''),
      (''NL2SQLPolicyError'', ''NL2SQL_QUESTION_REJECTED''),
      (''LLMAuthenticationError'', ''LLM_AUTHENTICATION_ERROR''),
      (''LLMConfigurationError'', ''LLM_CONFIGURATION_ERROR''),
      (''LLMInvalidResponseError'', ''LLM_INVALID_RESPONSE''),
      (''LLMRateLimitError'', ''LLM_RATE_LIMITED''),
      (''LLMRequestRejectedError'', ''LLM_REQUEST_REJECTED''),
      (''LLMTimeoutError'', ''LLM_TIMEOUT''),
      (''LLMUnavailableError'', ''LLM_UNAVAILABLE'')]"

fun task_errors :: "task list \<Rightarrow> pystr list" where
  "task_errors [] = []"
| "task_errors (t # ts) = (case tk_error t of
     None \<Rightarrow> task_errors ts | Some e \<Rightarrow> if e = [] then task_errors ts else e # task_errors ts)"

definition snapshot_error_code :: "snapshot \<Rightarrow> pystr option" where
  "snapshot_error_code sn = (case task_errors (sn_tasks sn) of
     [] \<Rightarrow> None
   | e # _ \<Rightarrow> Some (case map_of public_error_codes (before_char 40 e) of
       Some c \<Rightarrow> c | None \<Rightarrow> lit ''AGENT_WORKFLOW_FAILED''))"

definition state_or_empty :: "snapshot \<Rightarrow> agent_state" where
  "state_or_empty sn = (case sn_values sn of None \<Rightarrow> no_state | Some s \<Rightarrow> s)"

definition snapshot_result :: "pystr \<Rightarrow> snapshot \<Rightarrow> workflow_result" where
  "snapshot_result run_id sn =
     (let s = (case snapshot_error_code sn of None \<Rightarrow> state_or_empty sn
                | Some c \<Rightarrow> (state_or_empty sn)\<lparr>as_error := Some (Some c)\<rparr>)
      in result_of run_id (s, concat (map tk_interrupts (sn_tasks sn))))"

section \<open>The service\<close>

definition inspect_run :: "'g graph_ops \<Rightarrow> pystr \<Rightarrow> 'g \<Rightarrow> exn + workflow_result" where
  "inspect_run G run_id g =
     (let sn = go_state G run_id g in
      if sn_values sn = None then Inl (Py KeyError) else Inr (snapshot_result run_id sn))"

type_synonym identity = "pystr option \<times> pystr option \<times> pystr option \<times> pystr option"

definition identity_of :: "agent_state \<Rightarrow> identity" where
  "identity_of s = (as_tenant_id s, as_user_id s, as_data_source_id s, as_question s)"

definition requested_identity :: "start_run \<Rightarrow> identity" where
  "requested_identity r = (Some (sr_tenant_id r), Some (sr_user_id r),
     Some (sr_data_source_id r), Some (strip (sr_question r)))"

definition start_workflow ::
  "'g graph_ops \<Rightarrow> start_run \<Rightarrow> 'g \<Rightarrow> (exn + workflow_result) \<times> 'g" where
  "start_workflow G r g =
     (case sn_values (go_state G (sr_run_id r) g) of
        Some s \<Rightarrow>
          (if identity_of s \<noteq> requested_identity r
           then Inl (Workflow (WorkflowConflictError (lit ''the run id belongs to a different request'')))
           else inspect_run G (sr_run_id r) g, g)
      | None \<Rightarrow>
         (case go_start G (initial_state r) (sr_run_id r) g of
            (Inl e, g') \<Rightarrow>
              (let sn = go_state G (sr_run_id r) g' in
               if snapshot_error_code sn \<noteq> None then Inr (snapshot_result (sr_run_id r) sn)
               else Inl e, g')
          | (Inr raw, g') \<Rightarrow> (Inr (result_of (sr_run_id r) raw), g')))"

fun decision_text :: "decision \<Rightarrow> pystr" where
  "decision_text Approved = lit ''approved''"
| "decision_text Rejected = lit ''rejected''"

definition resume_payload :: "approval_resume \<Rightarrow> json" where
  "resume_payload a = JObj
     [(lit ''approval_id'', JStr (ar_approval_id a)),
      (lit ''decision'', JStr (decision_text (ar_decision a))),
      (lit ''decided_by'', JStr (ar_decided_by a)), (lit ''comment'', jopt (ar_comment a))]"

definition waiting :: "snapshot \<Rightarrow> bool" where
  "waiting sn \<longleftrightarrow> sn_tasks sn \<noteq> [] \<and> list_ex (\<lambda>t. tk_interrupts t \<noteq> []) (sn_tasks sn)"

definition resume_workflow ::
  "'g graph_ops \<Rightarrow> pystr \<Rightarrow> pystr \<Rightarrow> approval_resume \<Rightarrow> 'g \<Rightarrow> (exn + workflow_result) \<times> 'g" where
  "resume_workflow G run_id tenant_id a g =
     (let sn = go_state G run_id g; s = state_or_empty sn in
      if \<not> waiting sn
      then (Inl (Workflow (WorkflowConflictError (lit ''the workflow is not waiting for approval''))), g)
      else if as_run_id s \<noteq> Some run_id \<or> as_tenant_id s \<noteq> Some tenant_id
      then (Inl (Workflow (WorkflowIdentityError (lit ''the workflow identity does not match''))), g)
      else (case go_resume G (resume_payload a) run_id g of
          (Inl e, g') \<Rightarrow> (Inl e, g')
        | (Inr raw, g') \<Rightarrow> (Inr (result_of run_id raw), g')))"

section \<open>What the service relies on in the runtime\<close>

locale durable_graph =
  fixes G :: "'g graph_ops"
  assumes started: "go_start G s run_id g = (x, g') \<Longrightarrow> go_state G run_id g = \<lparr>sn_values = None, sn_tasks = []\<rparr>
      \<Longrightarrow> \<exists>v. sn_values (go_state G run_id g') = Some v \<and> identity_of v = identity_of s"
    and resumed: "go_resume G a run_id g = (x, g') \<Longrightarrow> sn_values (go_state G run_id g) = Some v
      \<Longrightarrow> \<exists>v'. sn_values (go_state G run_id g') = Some v' \<and> identity_of v' = identity_of v"
    and start_others: "go_start G s run_id g = (x, g') \<Longrightarrow> other \<noteq> run_id
      \<Longrightarrow> go_state G other g' = go_state G other g"
    and resume_others: "go_resume G a run_id g = (x, g') \<Longrightarrow> other \<noteq> run_id
      \<Longrightarrow> go_state G other g' = go_state G other g"
    and no_ghosts: "sn_values (go_state G run_id g) = None \<Longrightarrow> sn_tasks (go_state G run_id g) = []"
begin

text \<open>After a start the run exists under its request's identity, whatever the start returned.\<close>

lemma start_exists:
  assumes "start_workflow G r g = (x, g')" and "\<forall>e. x \<noteq> Inl (Workflow e)"
  shows "\<exists>v. sn_values (go_state G (sr_run_id r) g') = Some v \<and> identity_of v = requested_identity r"
proof (cases "sn_values (go_state G (sr_run_id r) g)")
  case None
  with no_ghosts [of "sr_run_id r" g]
  have empty: "go_state G (sr_run_id r) g = \<lparr>sn_values = None, sn_tasks = []\<rparr>"
    by (cases "go_state G (sr_run_id r) g") auto
  from assms(1) None obtain y where "go_start G (initial_state r) (sr_run_id r) g = (y, g')"
    by (auto simp: start_workflow_def Let_def split: prod.splits sum.splits)
  from started [OF this empty] show ?thesis
    by (simp add: identity_of_def requested_identity_def initial_state_def no_state_def)
next
  case (Some s)
  with assms show ?thesis by (auto simp: start_workflow_def split: if_splits)
qed

lemma start_again:
  assumes "start_workflow G r g = (x, g')" and "\<forall>e. x \<noteq> Inl (Workflow e)"
    and "sr_run_id q = sr_run_id r"
  shows "start_workflow G q g' =
    (if requested_identity q = requested_identity r then inspect_run G (sr_run_id r) g'
     else Inl (Workflow (WorkflowConflictError (lit ''the run id belongs to a different request''))), g')"
  using start_exists [OF assms(1,2)] assms(3) by (auto simp: start_workflow_def)

lemma resume_keeps_identity:
  assumes "resume_workflow G run_id tenant a g = (x, g')" and "sn_values (go_state G run_id g) = Some v"
  shows "\<exists>v'. sn_values (go_state G run_id g') = Some v' \<and> identity_of v' = identity_of v"
  using assms resumed [of "resume_payload a" run_id g]
  by (auto simp: resume_workflow_def Let_def split: if_splits prod.splits sum.splits)

end

section \<open>The runtime by its documented rules\<close>

record thread =
  th_state :: agent_state
  th_node :: node
  th_end :: run_end

record 'w runtime =
  rt_threads :: "pystr \<Rightarrow> thread option"
  rt_world :: 'w

text \<open>\<open>repr\<close> of an exception begins with its class name.\<close>

definition exn_repr :: "exn \<Rightarrow> pystr" where
  "exn_repr e = exn_name e @ lit ''()''"

definition thread_snapshot :: "thread option \<Rightarrow> snapshot" where
  "thread_snapshot t = (case t of
     None \<Rightarrow> \<lparr>sn_values = None, sn_tasks = []\<rparr>
   | Some th \<Rightarrow> \<lparr>sn_values = Some (th_state th), sn_tasks = (case th_end th of
         Ended \<Rightarrow> []
       | Paused p \<Rightarrow> [\<lparr>tk_interrupts = [p], tk_error = None\<rparr>]
       | Crashed e \<Rightarrow> [\<lparr>tk_interrupts = [], tk_error = Some (exn_repr e)\<rparr>]
       | Out_of_steps \<Rightarrow> [\<lparr>tk_interrupts = [], tk_error = None\<rparr>])\<rparr>)"

fun invocation_result :: "run_end \<Rightarrow> agent_state \<Rightarrow> exn + agent_state \<times> json list" where
  "invocation_result Ended s = Inr (s, [])"
| "invocation_result (Paused p) s = Inr (s, [p])"
| "invocation_result (Crashed e) s = Inl e"
| "invocation_result Out_of_steps s = Inl (Py (OtherError (lit ''GraphRecursionError'')))"

text \<open>The runtime's default limit of 25 steps for one invocation.\<close>

definition invoke ::
  "'w agent_env \<Rightarrow> node \<Rightarrow> json option \<Rightarrow> agent_state \<Rightarrow> pystr \<Rightarrow> 'w runtime
     \<Rightarrow> (exn + agent_state \<times> json list) \<times> 'w runtime" where
  "invoke E n resume s run_id g =
     (case run_from E 25 n resume s (rt_world g) of (z, n', s', w') \<Rightarrow>
        (invocation_result z s',
         \<lparr>rt_threads = (rt_threads g)(run_id \<mapsto> \<lparr>th_state = s', th_node = n', th_end = z\<rparr>),
          rt_world = w'\<rparr>))"

definition agent_runtime :: "'w agent_env \<Rightarrow> 'w runtime graph_ops" where
  "agent_runtime E =
     \<lparr>go_state = (\<lambda>run_id g. thread_snapshot (rt_threads g run_id)),
      go_start = (\<lambda>s run_id g. invoke E Classify None s run_id g),
      go_resume = (\<lambda>a run_id g. case rt_threads g run_id of
         None \<Rightarrow> (Inl (Py (OtherError (lit ''EmptyInputError''))), g)
       | Some th \<Rightarrow> invoke E (th_node th) (Some a) (th_state th) run_id g)\<rparr>"

section \<open>Lemmas\<close>

lemma merge_identity: "no_identity u \<Longrightarrow> identity_of (merge_state s u) = identity_of s"
  by (simp add: no_identity_def identity_of_def merge_state_def)

text \<open>Only the approval node pauses.\<close>

lemma run_node_Interrupted:
  assumes "run_node E n resume s w = (Interrupted p, w')"
  shows "n = Request_Approval \<and> resume = None"
proof -
  define op where "op = (if n = Request_Approval then pause E resume else run_action E n)"
  have "timed_step E (node_name n) op s w = (Interrupted p, w')"
    using assms by (simp add: run_node_def op_def)
  then obtain v where "op s w = (Interrupted p, v)"
    by (auto simp: timed_step_def record_failure_def Let_def
        split: sum.splits option.splits prod.splits node_result.splits)
  then show ?thesis
    by (auto simp: op_def pause_def run_action_def
        split: if_splits sum.splits option.splits prod.splits decision.splits)
qed

lemma run_from_Paused:
  "run_from E fuel n resume s w = (Paused p, m, s', w') \<Longrightarrow> m = Request_Approval"
proof (induction fuel arbitrary: n resume s w)
  case (Suc fuel)
  then show ?case
    by (auto split: prod.splits node_result.splits sum.splits option.splits
        dest: run_node_Interrupted)
qed simp

context agent_actions
begin

lemma run_from_identity:
  "run_from E fuel n resume s w = (z, m, s', w') \<Longrightarrow> identity_of s' = identity_of s"
proof (induction fuel arbitrary: n resume s w)
  case (Suc fuel)
  then show ?case
    by (auto split: prod.splits node_result.splits sum.splits option.splits
        dest: update_identity simp: merge_identity)
qed simp

lemma run_from_budget:
  "run_from E fuel n resume s w = (z, m, s', w') \<Longrightarrow> budget_ok n s \<Longrightarrow> rank n s \<le> 19
    \<Longrightarrow> (\<forall>p. z = Paused p \<longrightarrow> budget_ok m s' \<and> rank m s' \<le> 19)"
proof (induction fuel arbitrary: n resume s w)
  case (Suc fuel)
  then show ?case
    by (fastforce split: prod.splits node_result.splits sum.splits option.splits dest: node_moves)
qed simp

text \<open>What holds of every thread the service has made.\<close>

definition thread_ok :: "thread \<Rightarrow> bool" where
  "thread_ok th \<longleftrightarrow> th_end th \<noteq> Out_of_steps
     \<and> (\<forall>p. th_end th = Paused p \<longrightarrow> th_node th = Request_Approval
          \<and> budget_ok Request_Approval (th_state th) \<and> rank Request_Approval (th_state th) \<le> 19)"

definition threads_ok :: "'w runtime \<Rightarrow> bool" where
  "threads_ok g \<longleftrightarrow> (\<forall>run_id th. rt_threads g run_id = Some th \<longrightarrow> thread_ok th)"

lemma invoke_thread_ok:
  assumes "budget_ok n s" "rank n s \<le> 19" and "invoke E n resume s run_id g = (x, g')"
    and "threads_ok g"
  shows "threads_ok g'"
proof -
  obtain z m s' w' where run: "run_from E 25 n resume s (rt_world g) = (z, m, s', w')"
    by (cases "run_from E 25 n resume s (rt_world g)") auto
  from run_from_ends [OF assms(1), of 25 resume "rt_world g"] assms(2) run have "z \<noteq> Out_of_steps"
    by simp
  moreover have "thread_ok \<lparr>th_state = s', th_node = m, th_end = z\<rparr>"
    using calculation run_from_budget [OF run assms(1,2)] run_from_Paused [of E 25 n resume s "rt_world g"] run
    by (auto simp: thread_ok_def)
  moreover have "rt_threads g' = (rt_threads g)(run_id \<mapsto> \<lparr>th_state = s', th_node = m, th_end = z\<rparr>)"
    using assms(3) run by (auto simp: invoke_def)
  ultimately show ?thesis using assms(4) by (simp add: threads_ok_def)
qed

end

sublocale agent_actions \<subseteq> workflow: durable_graph "agent_runtime E"
proof unfold_locales
  fix s :: agent_state and run_id x and g g' :: "'w runtime"
  assume "go_start (agent_runtime E) s run_id g = (x, g')"
  then show "\<exists>v. sn_values (go_state (agent_runtime E) run_id g') = Some v \<and> identity_of v = identity_of s"
    by (auto simp: agent_runtime_def invoke_def thread_snapshot_def split: prod.splits
        dest: run_from_identity)
next
  fix a run_id x v and g g' :: "'w runtime"
  assume "go_resume (agent_runtime E) a run_id g = (x, g')"
    and "sn_values (go_state (agent_runtime E) run_id g) = Some v"
  then show "\<exists>v'. sn_values (go_state (agent_runtime E) run_id g') = Some v' \<and> identity_of v' = identity_of v"
    by (auto simp: agent_runtime_def invoke_def thread_snapshot_def split: prod.splits option.splits)
       (blast intro: run_from_identity)
qed (auto simp: agent_runtime_def invoke_def thread_snapshot_def split: prod.splits option.splits)

section \<open>Sequences of service calls\<close>

inductive served :: "'w agent_env \<Rightarrow> 'w runtime \<Rightarrow> bool" for E where
  fresh: "served E \<lparr>rt_threads = (\<lambda>id. None), rt_world = w\<rparr>"
| start: "served E g \<Longrightarrow> start_workflow (agent_runtime E) r g = (x, g') \<Longrightarrow> served E g'"
| resume: "served E g \<Longrightarrow> resume_workflow (agent_runtime E) run_id tenant a g = (x, g') \<Longrightarrow> served E g'"

context agent_actions
begin

lemma start_steps:
  "start_workflow (agent_runtime E) r g = (x, g') \<Longrightarrow>
     g' = g \<or> (\<exists>y. invoke E Classify None (initial_state r) (sr_run_id r) g = (y, g'))"
  by (auto simp: start_workflow_def agent_runtime_def Let_def split: option.splits prod.splits sum.splits)

lemma resume_steps:
  "resume_workflow (agent_runtime E) run_id tenant a g = (x, g') \<Longrightarrow>
     g' = g \<and> (\<exists>e. x = Inl e) \<or> (\<exists>th p y. rt_threads g run_id = Some th \<and> th_end th = Paused p
        \<and> as_tenant_id (th_state th) = Some tenant
        \<and> invoke E (th_node th) (Some (resume_payload a)) (th_state th) run_id g = (y, g')
        \<and> x = res_bind y (\<lambda>raw. Inr (result_of run_id raw)))"
  by (auto simp: resume_workflow_def agent_runtime_def thread_snapshot_def waiting_def
      state_or_empty_def Let_def split: option.splits prod.splits sum.splits run_end.splits if_splits)

lemma served_threads_ok: "served E g \<Longrightarrow> threads_ok g"
proof (induction rule: served.induct)
  case (start g r x g')
  from start_steps [OF start.hyps(2)] start.IH show ?case
    using invoke_thread_ok [OF initial_budget initial_rank] by blast
next
  case (resume g run_id tenant a x g')
  from resume_steps [OF resume.hyps(2)] show ?case
  proof (elim disjE exE conjE)
    fix th p y
    assume th: "rt_threads g run_id = Some th" "th_end th = Paused p"
      and inv: "invoke E (th_node th) (Some (resume_payload a)) (th_state th) run_id g = (y, g')"
    from th resume.IH have "thread_ok th" by (simp add: threads_ok_def)
    with th(2) have "th_node th = Request_Approval" "budget_ok Request_Approval (th_state th)"
      "rank Request_Approval (th_state th) \<le> 19" by (auto simp: thread_ok_def)
    with invoke_thread_ok [OF _ _ inv resume.IH] show ?thesis by simp
  qed (use resume.IH in simp)
qed (simp add: threads_ok_def)

text \<open>A refused approval: the status, the untouched log, and no second decision.\<close>

lemma rejection_settles:
  assumes "served E g" and "ar_decision a = Rejected"
    and "resume_workflow (agent_runtime E) run_id tenant a g = (Inr res, g')"
  shows "wr_status res = Rejected_Run \<and> ran (rt_world g') = ran (rt_world g)
    \<and> (\<forall>b t. resume_workflow (agent_runtime E) run_id t b g' =
          (Inl (Workflow (WorkflowConflictError (lit ''the workflow is not waiting for approval''))), g'))"
proof -
  from resume_steps [OF assms(3)] obtain th p y where th: "rt_threads g run_id = Some th"
    "th_end th = Paused p"
    and inv: "invoke E (th_node th) (Some (resume_payload a)) (th_state th) run_id g = (y, g')"
    and res: "Inr res = res_bind y (\<lambda>raw. Inr (result_of run_id raw))"
    by auto
  from served_threads_ok [OF assms(1)] th have "th_node th = Request_Approval"
    by (auto simp: threads_ok_def thread_ok_def)
  moreover obtain z m s' w' where run: "run_from E 25 (th_node th) (Some (resume_payload a)) (th_state th)
      (rt_world g) = (z, m, s', w')"
    by (cases "run_from E 25 (th_node th) (Some (resume_payload a)) (th_state th) (rt_world g)") auto
  moreover have dec: "decision_of (resume_payload a) = Some Rejected"
    using assms(2) by (simp add: resume_payload_def)
  moreover have "(25 :: nat) = Suc 24" by simp
  ultimately have z: "ran w' = ran (rt_world g)"
    "z = Ended \<and> as_decision s' = Some Rejected \<and> error_of s' = Some (lit ''APPROVAL_REJECTED'')
      \<or> (\<exists>e. z = Crashed e)"
    using rejected_run [OF dec, of 24 "th_state th" "rt_world g" z m s' w'] by metis+
  from inv run have g': "y = invocation_result z s'"
    "g' = \<lparr>rt_threads = (rt_threads g)(run_id \<mapsto> \<lparr>th_state = s', th_node = m, th_end = z\<rparr>),
          rt_world = w'\<rparr>"
    by (auto simp: invoke_def)
  with res z have ended: "z = Ended" "error_of s' = Some (lit ''APPROVAL_REJECTED'')"
    "res = result_of run_id (s', [])" by auto
  moreover have "\<not> waiting (go_state (agent_runtime E) run_id g')"
    using ended g' by (simp add: agent_runtime_def thread_snapshot_def waiting_def)
  ultimately show ?thesis
    using z g' by (simp add: result_of_def status_of_def resume_workflow_def Let_def)
qed

end

end
