(* ===== verification/Retrieval_Text.thy ===== *)
theory Retrieval_Text
  imports Errors
begin

text \<open>
  Document parsing and chunking (\<open>retrieval/parsing.py\<close>, the section model of
  \<open>retrieval/models.py\<close>): Markdown split at its headings, PDF by page, and the sections cut into
  overlapping chunks. Opening a PDF is an argument; the Unicode database is the argument \<open>U\<close>.
\<close>

section \<open>Models\<close>

datatype source_type = MARKDOWN | PDF

record document_section =
  sec_key :: pystr
  sec_title :: pystr
  sec_locator :: pystr
  sec_content :: pystr

definition mk_section :: "document_section \<Rightarrow> exn + document_section" where
  "mk_section s =
     (if 1 \<le> length (sec_key s) \<and> length (sec_key s) \<le> 500
         \<and> 1 \<le> length (sec_title s) \<and> length (sec_title s) \<le> 500
         \<and> 1 \<le> length (sec_locator s) \<and> length (sec_locator s) \<le> 120
         \<and> 1 \<le> length (sec_content s) \<and> length (sec_content s) \<le> 100000
      then Inr s else Inl (validation_error ''DocumentSection''))"

section \<open>Names and headings\<close>

text \<open>
  \<open>PurePath(name).stem\<close> on POSIX: the last component that is neither empty nor a dot, up to
  its last dot unless that is its first or last character.
\<close>

definition path_name :: "pystr \<Rightarrow> pystr" where
  "path_name s =
     (case filter (\<lambda>w. w \<noteq> [] \<and> w \<noteq> lit ''.'') (split_on 47 s) of [] \<Rightarrow> [] | ws \<Rightarrow> last ws)"

definition path_stem :: "pystr \<Rightarrow> pystr" where
  "path_stem s =
     (let name = path_name s; i = rfind name (lit ''.'') 0 (length name) in
      if 0 < i \<and> i < int (length name) - 1 then take (nat i) name else name)"

text \<open>
  \<open>_HEADING.match(line)\<close> on a line without line breaks, and \<open>group(2).strip()\<close>: one to six
  \<open>#\<close>, at least one space, at least one further character.
\<close>

definition heading_of :: "pystr \<Rightarrow> pystr option" where
  "heading_of line =
     (let marks = takeWhile (\<lambda>c. c = 35) line; rest = drop (length marks) line;
          spaces = takeWhile is_space rest in
      if marks = [] \<or> 6 < length marks \<or> spaces = []
         \<or> (lstrip rest = [] \<and> length spaces < 2)
      then None else Some (strip rest))"

text \<open>\<open>re.sub(pattern, "-", s)\<close> for runs of characters that are not kept.\<close>

fun dash_runs :: "(nat \<Rightarrow> bool) \<Rightarrow> pystr \<Rightarrow> pystr" where
  "dash_runs keep [] = []"
| "dash_runs keep (c # cs) =
     (if keep c then c # dash_runs keep cs
      else (case cs of [] \<Rightarrow> [45]
        | d # ds \<Rightarrow> if keep d then 45 # dash_runs keep cs else dash_runs keep cs))"

definition is_cjk :: "nat \<Rightarrow> bool" where
  "is_cjk c \<longleftrightarrow> 19968 \<le> c \<and> c \<le> 40959"

definition section_key_of :: "unidata \<Rightarrow> pystr \<Rightarrow> pystr \<Rightarrow> nat \<Rightarrow> pystr" where
  "section_key_of U source heading n =
     (let slug = strip_char 45 (dash_runs (\<lambda>c. u_word U c \<or> is_cjk c) (u_lower U heading)) in
      source @ lit ''#'' @ (if slug = [] then lit ''section-'' @ str_nat (n + 1) else slug))"

section \<open>Parsing\<close>

definition flush_section ::
  "unidata \<Rightarrow> pystr \<Rightarrow> document_section list \<Rightarrow> pystr \<Rightarrow> nat \<Rightarrow> pystr list \<Rightarrow> nat
     \<Rightarrow> exn + document_section list" where
  "flush_section U source sections heading heading_line body end_line =
     (let content = strip (join [10] body) in
      if content = [] then Inr sections
      else res_bind (mk_section
          \<lparr>sec_key = section_key_of U source heading (length sections), sec_title = heading,
           sec_locator = lit ''lines='' @ str_nat heading_line @ lit ''-''
             @ str_nat (max heading_line end_line),
           sec_content = content\<rparr>)
        (\<lambda>s. Inr (sections @ [s])))"

text \<open>The loop over the lines, numbered from 1, with the section under construction.\<close>

fun markdown_lines ::
  "unidata \<Rightarrow> pystr \<Rightarrow> pystr list \<Rightarrow> nat \<Rightarrow> document_section list \<Rightarrow> pystr \<Rightarrow> nat \<Rightarrow> pystr list
     \<Rightarrow> exn + document_section list" where
  "markdown_lines U source [] n sections heading hline body =
     flush_section U source sections heading hline body (n - 1)"
| "markdown_lines U source (line # rest) n sections heading hline body =
     (case heading_of line of
        None \<Rightarrow> markdown_lines U source rest (n + 1) sections heading hline (body @ [line])
      | Some h \<Rightarrow> res_bind (flush_section U source sections heading hline body (n - 1))
          (\<lambda>sections'. markdown_lines U source rest (n + 1) sections' h n []))"

definition parse_markdown :: "unidata \<Rightarrow> pystr \<Rightarrow> nat list \<Rightarrow> exn + document_section list" where
  "parse_markdown U source payload =
     (case utf8_decode payload of
        None \<Rightarrow> Inl (Retrieval DocumentParseError)
      | Some txt \<Rightarrow>
          (let stem = path_stem source in
           res_bind (markdown_lines U source (splitlines txt) 1 []
                (if stem = [] then lit ''Document'' else stem) 1 [])
             (\<lambda>sections. if sections = [] then Inl (Retrieval DocumentParseError)
                else Inr sections)))"

text \<open>
  What \<open>pypdf\<close> says about a payload: \<open>None\<close> is any exception on opening it, \<open>Page_Error\<close> one
  on reading a page, \<open>Page_Text\<close> the text of a page (missing text is the empty text). The
  \<open>except Exception\<close> clause also turns an invalid section into a parse error.
\<close>

datatype pdf_page = Page_Error | Page_Text pystr

record pdf_file =
  pdf_encrypted :: bool
  pdf_pages :: "pdf_page list"

fun pdf_sections :: "pystr \<Rightarrow> pdf_page list \<Rightarrow> nat \<Rightarrow> document_section list option" where
  "pdf_sections source [] n = Some []"
| "pdf_sections source (Page_Error # ps) n = None"
| "pdf_sections source (Page_Text t # ps) n =
     (if strip t = [] then pdf_sections source ps (n + 1)
      else (case mk_section
          \<lparr>sec_key = source @ lit ''#page-'' @ str_nat n, sec_title = lit ''Page '' @ str_nat n,
           sec_locator = lit ''page='' @ str_nat n, sec_content = strip t\<rparr> of
          Inl e \<Rightarrow> None
        | Inr s \<Rightarrow> map_option (Cons s) (pdf_sections source ps (n + 1))))"

definition parse_pdf ::
  "(nat list \<Rightarrow> pdf_file option) \<Rightarrow> pystr \<Rightarrow> nat list \<Rightarrow> int \<Rightarrow> exn + document_section list" where
  "parse_pdf pdf source payload max_pages =
     (case pdf payload of
        None \<Rightarrow> Inl (Retrieval DocumentParseError)
      | Some f \<Rightarrow>
          if pdf_encrypted f then Inl (Retrieval DocumentParseError)
          else if int (length (pdf_pages f)) > max_pages then Inl (Retrieval DocumentLimitError)
          else (case pdf_sections source (pdf_pages f) 1 of
              None \<Rightarrow> Inl (Retrieval DocumentParseError)
            | Some sections \<Rightarrow> if sections = [] then Inl (Retrieval DocumentParseError)
                else Inr sections))"

record parse_limits =
  max_markdown_bytes :: int
  max_pdf_bytes :: int
  max_pdf_pages :: int

definition parse_document ::
  "unidata \<Rightarrow> (nat list \<Rightarrow> pdf_file option) \<Rightarrow> parse_limits \<Rightarrow> pystr \<Rightarrow> source_type \<Rightarrow> nat list
     \<Rightarrow> exn + document_section list" where
  "parse_document U pdf lims source ty payload =
     (if payload = [] then Inl (Retrieval DocumentParseError)
      else (case ty of
        MARKDOWN \<Rightarrow>
          if int (length payload) > max_markdown_bytes lims then Inl (Retrieval DocumentLimitError)
          else parse_markdown U source payload
      | PDF \<Rightarrow>
          if int (length payload) > max_pdf_bytes lims then Inl (Retrieval DocumentLimitError)
          else parse_pdf pdf source payload (max_pdf_pages lims)))"

section \<open>Chunking\<close>

text \<open>
  Where the chunk that starts at \<open>start\<close> ends: at most \<open>m\<close> characters on, moved back to after
  the last line break or sentence end if that lies in the second half. 12290 is the
  ideographic full stop.
\<close>

definition chunk_end :: "pystr \<Rightarrow> nat \<Rightarrow> nat \<Rightarrow> nat" where
  "chunk_end s m start =
     (let en = min (length s) (start + m) in
      if en < length s then
        (let b = max (rfind s [10] start en)
                   (max (rfind s [12290] start en) (rfind s (lit ''. '') start en)) in
         if b > int (start + m div 2) then nat b + 1 else en)
      else en)"

text \<open>The windows \<open>[start:end]\<close> the inner loop visits, and the chunks it appends.\<close>

function windows :: "pystr \<Rightarrow> nat \<Rightarrow> nat \<Rightarrow> nat \<Rightarrow> (nat \<times> nat) list" where
  "windows s m overlap start =
     (if start < length s then
        (start, chunk_end s m start) #
        (if length s \<le> chunk_end s m start then []
         else windows s m overlap (max (start + 1) (chunk_end s m start - overlap)))
      else [])"
  by pat_completeness auto
termination by (relation "measure (\<lambda>(s, m, overlap, start). length s - start)") auto

declare windows.simps [simp del]

definition section_chunks :: "nat \<Rightarrow> nat \<Rightarrow> document_section \<Rightarrow> document_section list" where
  "section_chunks m overlap s =
     map (\<lambda>c. s\<lparr>sec_content := c\<rparr>)
       (filter (\<lambda>c. c \<noteq> [])
         (map (\<lambda>(a, b). strip (slice (sec_content s) a b)) (windows (sec_content s) m overlap 0)))"

definition chunk_sections ::
  "document_section list \<Rightarrow> int \<Rightarrow> int \<Rightarrow> exn + (document_section \<times> nat) list" where
  "chunk_sections sections m overlap =
     (if m < 1 \<or> overlap < 0 \<or> overlap \<ge> m
      then Inl (Py (ValueError (lit ''chunk bounds are invalid'')))
      else (let cs = concat (map (section_chunks (nat m) (nat overlap)) sections) in
            Inr (zip cs [0..<length cs])))"

section \<open>Lemmas\<close>

lemma rfind_below:
  assumes "sub \<noteq> []" and "st < en"
  shows "rfind s sub st en < int en"
  using rfind_cases [of s sub st en]
proof
  assume "\<exists>i. rfind s sub st en = int i"
  then obtain i where i: "rfind s sub st en = int i" ..
  have "0 < length sub" using assms(1) by simp
  with rfind_bounds [OF i] have "i < en" by linarith
  with i show ?thesis by simp
qed simp

lemma chunk_end_bounds:
  assumes "start < length s" and "1 \<le> m"
  shows "start < chunk_end s m start \<and> chunk_end s m start \<le> length s
     \<and> chunk_end s m start \<le> start + m"
proof -
  define en where "en = min (length s) (start + m)"
  define b where "b = max (rfind s [10] start en)
                   (max (rfind s [12290] start en) (rfind s (lit ''. '') start en))"
  have e: "chunk_end s m start =
      (if en < length s then if b > int (start + m div 2) then nat b + 1 else en else en)"
    unfolding chunk_end_def en_def b_def Let_def ..
  have en: "start < en" "en \<le> length s" "en \<le> start + m" using assms by (simp_all add: en_def)
  have "b < int en" unfolding b_def
    using rfind_below [OF _ en(1), of "[10]" s] rfind_below [OF _ en(1), of "[12290]" s]
      rfind_below [OF _ en(1), of "lit ''. ''" s] by simp
  then have "start < nat b + 1 \<and> nat b + 1 \<le> en" if "b > int (start + m div 2)"
  proof -
    have "0 \<le> b" using that by linarith
    then obtain n where "b = int n" by (rule nonneg_int_cases)
    with that \<open>b < int en\<close> have "start + m div 2 < n" "n < en" by (simp_all only: of_nat_less_iff)
    with \<open>b = int n\<close> show ?thesis by (simp add: Suc_le_eq)
  qed
  with en show ?thesis unfolding e by (auto intro: order_trans)
qed

lemma chunk_end_width:
  assumes "chunk_end s m start < length s" "overlap < m" "overlap \<le> m div 2 + 1"
  shows "start + overlap < chunk_end s m start"
proof -
  define en where "en = min (length s) (start + m)"
  define b where "b = max (rfind s [10] start en)
                   (max (rfind s [12290] start en) (rfind s (lit ''. '') start en))"
  have e: "chunk_end s m start =
      (if en < length s then if b > int (start + m div 2) then nat b + 1 else en else en)"
    unfolding chunk_end_def en_def b_def Let_def ..
  show ?thesis
  proof (cases "en < length s \<and> b > int (start + m div 2)")
    case True
    then have "chunk_end s m start = nat b + 1" "start + m div 2 < nat b"
      unfolding e by (simp, simp only: zless_nat_eq_int_zless)
    with assms(3) show ?thesis by linarith
  next
    case False
    then have "chunk_end s m start = en" unfolding e by auto
    with assms(1,2) show ?thesis unfolding en_def by (simp add: min_def split: if_splits)
  qed
qed

text \<open>The unfolding of the loop at a start inside the text, as a rewrite rule used once.\<close>

lemma windows_step:
  "start < length s \<Longrightarrow> windows s m overlap start =
     (start, chunk_end s m start) #
       (if length s \<le> chunk_end s m start then []
        else windows s m overlap (max (start + 1) (chunk_end s m start - overlap)))"
  by (subst windows.simps) simp

lemma windows_end: "length s \<le> start \<Longrightarrow> windows s m overlap start = []"
  by (subst windows.simps) simp

lemma windows_bounds:
  "1 \<le> m \<Longrightarrow> (a, b) \<in> set (windows s m overlap start) \<Longrightarrow> a < b \<and> b \<le> length s \<and> b \<le> a + m"
proof (induction s m overlap start rule: windows.induct)
  case (1 s m overlap start)
  show ?case
  proof (cases "start < length s")
    case True
    from 1(3) consider "a = start \<and> b = chunk_end s m start"
      | "\<not> length s \<le> chunk_end s m start"
        "(a, b) \<in> set (windows s m overlap (max (start + 1) (chunk_end s m start - overlap)))"
      unfolding windows_step [OF True] by (auto split: if_splits)
    then show ?thesis
    proof cases
      case 1
      with chunk_end_bounds [OF True \<open>1 \<le> m\<close>] show ?thesis by blast
    next
      case 2
      from "1.IH" [OF True this(1) \<open>1 \<le> m\<close> this(2)] show ?thesis .
    qed
  qed (use 1 windows_end in auto)
qed

lemma length_windows: "length (windows s m overlap start) \<le> length s - start"
proof (induction s m overlap start rule: windows.induct)
  case (1 s m overlap start)
  show ?case
  proof (cases "start < length s")
    case True
    with "1.IH" [OF True] show ?thesis unfolding windows_step [OF True] by auto
  qed (simp add: windows_end)
qed

lemma windows_passage:
  "start \<le> i \<Longrightarrow> i < j \<Longrightarrow> j \<le> length s \<Longrightarrow> j \<le> i + overlap + 1 \<Longrightarrow> overlap < m
     \<Longrightarrow> overlap \<le> m div 2 + 1
     \<Longrightarrow> \<exists>(a, b) \<in> set (windows s m overlap start). a \<le> i \<and> j \<le> b"
proof (induction s m overlap start rule: windows.induct)
  case (1 s m overlap start)
  let ?e = "chunk_end s m start"
  have unfolded: "windows s m overlap start = (start, ?e) # (if length s \<le> ?e then []
      else windows s m overlap (max (start + 1) (?e - overlap)))"
    using 1 by (intro windows_step) simp
  show ?case
  proof (cases "j \<le> ?e")
    case True
    with 1 unfolded show ?thesis by auto
  next
    case False
    with 1 have open_end: "\<not> length s \<le> ?e" by simp
    then have "start + overlap < ?e" using 1 by (intro chunk_end_width) auto
    with False 1 have "max (start + 1) (?e - overlap) \<le> i" by auto
    with 1 open_end have "\<exists>(a, b) \<in> set (windows s m overlap (max (start + 1) (?e - overlap))).
        a \<le> i \<and> j \<le> b" by simp
    with open_end unfolded show ?thesis by auto
  qed
qed

lemma slice_contains:
  assumes "a \<le> length u" "length u + length p \<le> b"
  shows "contains p (slice (u @ p @ v) a b)"
proof -
  have "slice (u @ p @ v) a b = drop a u @ p @ take (b - length u - length p) v"
    using assms by (simp add: slice_def)
  then show ?thesis unfolding contains_iff by blast
qed

lemma contains_slice: "contains (slice s a b) s"
proof -
  have "s = take a s @ slice s a b @ drop (b - a) (drop a s)"
    unfolding slice_def by (metis append_take_drop_id)
  then show ?thesis unfolding contains_iff by blast
qed

lemma section_chunk_bounds:
  assumes "1 \<le> m" and "d \<in> set (section_chunks m overlap s)"
  shows "d = s\<lparr>sec_content := sec_content d\<rparr>" "sec_content d \<noteq> []" "length (sec_content d) \<le> m"
    "strip (sec_content d) = sec_content d" "contains (sec_content d) (sec_content s)"
proof -
  from assms(2) obtain a b where ab: "(a, b) \<in> set (windows (sec_content s) m overlap 0)"
    "d = s\<lparr>sec_content := strip (slice (sec_content s) a b)\<rparr>" "strip (slice (sec_content s) a b) \<noteq> []"
    by (auto simp: section_chunks_def)
  then show "d = s\<lparr>sec_content := sec_content d\<rparr>" "sec_content d \<noteq> []"
    "strip (sec_content d) = sec_content d" by simp_all
  from windows_bounds [OF assms(1) ab(1)] have "length (slice (sec_content s) a b) \<le> m" by auto
  with length_strip [of "slice (sec_content s) a b"] show "length (sec_content d) \<le> m"
    unfolding ab(2) by (auto dest: order_trans)
  from ab(2) contains_trans [OF contains_strip_self contains_slice]
  show "contains (sec_content d) (sec_content s)" by simp
qed

lemma chunk_sections_Inr:
  "chunk_sections sections m overlap = Inr chunks \<longleftrightarrow>
     1 \<le> m \<and> 0 \<le> overlap \<and> overlap < m
     \<and> chunks = zip (concat (map (section_chunks (nat m) (nat overlap)) sections))
                  [0..<length (concat (map (section_chunks (nat m) (nat overlap)) sections))]"
  by (auto simp: chunk_sections_def Let_def)

lemma chunk_sections_set:
  assumes "chunk_sections sections m overlap = Inr chunks"
  shows "fst ` set chunks = (\<Union>s \<in> set sections. set (section_chunks (nat m) (nat overlap) s))"
proof -
  have "set (map fst chunks) = set (concat (map (section_chunks (nat m) (nat overlap)) sections))"
    using assms by (auto simp: chunk_sections_Inr)
  then show ?thesis by simp
qed

lemma flush_keeps:
  assumes "flush_section U source sections heading hline body n = Inr sections'"
  shows "set sections \<subseteq> set sections'"
    "line \<in> set body \<Longrightarrow> strip line \<noteq> [] \<Longrightarrow> \<exists>s \<in> set sections'. contains (strip line) (sec_content s)"
proof -
  show "set sections \<subseteq> set sections'"
    using assms by (auto simp: flush_section_def Let_def split: if_splits)
next
  assume line: "line \<in> set body" "strip line \<noteq> []"
  have "contains (strip line) (join [10] body)"
    using contains_trans [OF contains_strip_self contains_join] line(1) by blast
  then have c: "contains (strip line) (strip (join [10] body))"
    by (rule contains_strip) (simp_all add: line)
  with line(2) have "strip (join [10] body) \<noteq> []" by (auto simp: contains_iff)
  with assms c show "\<exists>s \<in> set sections'. contains (strip line) (sec_content s)"
    by (auto simp: flush_section_def Let_def mk_section_def split: if_splits)
qed

lemma markdown_lines_keep:
  "markdown_lines U source ls n sections heading hline body = Inr sections'
     \<Longrightarrow> set sections \<subseteq> set sections'
       \<and> (\<forall>line \<in> set body \<union> {l \<in> set ls. heading_of l = None}. strip line \<noteq> []
            \<longrightarrow> (\<exists>s \<in> set sections'. contains (strip line) (sec_content s)))"
proof (induction U source ls n sections heading hline body arbitrary: sections'
    rule: markdown_lines.induct)
  case (1 U source n sections heading hline body)
  then have run: "flush_section U source sections heading hline body (n - 1) = Inr sections'" by simp
  from flush_keeps(1) [OF run] flush_keeps(2) [OF run] show ?case by auto
next
  case (2 U source l rest n sections heading hline body)
  show ?case
  proof (cases "heading_of l")
    case None
    with 2(1) [OF None] 2(3) show ?thesis by fastforce
  next
    case (Some h)
    with 2(3) obtain s1 where
      run: "flush_section U source sections heading hline body (n - 1) = Inr s1"
        "markdown_lines U source rest (n + 1) s1 h n [] = Inr sections'" by auto
    from 2(2) [OF Some run(2)] flush_keeps(1) [OF run(1)] flush_keeps(2) [OF run(1)]
    show ?thesis using Some by fastforce
  qed
qed

text \<open>A short passage of a section survives whole in one of its chunks.\<close>

lemma short_passage_kept:
  assumes "contains p (sec_content s)" "strip p = p" "p \<noteq> []"
    and "length p \<le> overlap + 1" "overlap < m" "overlap \<le> m div 2 + 1"
  shows "\<exists>d \<in> set (section_chunks m overlap s). contains p (sec_content d)"
proof -
  from assms(1) obtain u v where s: "sec_content s = u @ p @ v" by (auto simp: contains_iff)
  have "\<exists>(a, b) \<in> set (windows (sec_content s) m overlap 0). a \<le> length u \<and> length u + length p \<le> b"
    by (rule windows_passage) (use assms s in auto)
  then obtain a b where ab: "(a, b) \<in> set (windows (sec_content s) m overlap 0)"
    "a \<le> length u" "length u + length p \<le> b" by auto
  let ?c = "strip (slice (sec_content s) a b)"
  from ab(2,3) have p: "contains p ?c"
    unfolding s by (intro contains_strip slice_contains assms(2,3))
  with assms(3) have "?c \<noteq> []" by (auto simp: contains_iff)
  with ab(1) have "s\<lparr>sec_content := ?c\<rparr> \<in> set (section_chunks m overlap s)"
    unfolding section_chunks_def by (auto intro!: image_eqI [of _ _ ?c] rev_image_eqI [of "(a, b)"])
  with p show ?thesis by (intro bexI [of _ "s\<lparr>sec_content := ?c\<rparr>"]) simp_all
qed

section \<open>Properties\<close>

text \<open>
  Chunking keeps its bounds: the chunks are numbered from 0, and each of them is a stripped,
  non-empty piece of the content of one of the sections, at most max_characters long, that
  keeps the section's key, title and locator.
\<close>

theorem chunks_are_bounded_pieces:
  assumes "chunk_sections sections m overlap = Inr chunks"
  shows "map snd chunks = [0..<length chunks]
    \<and> (\<forall>(d, k) \<in> set chunks. sec_content d \<noteq> [] \<and> int (length (sec_content d)) \<le> m
         \<and> strip (sec_content d) = sec_content d
         \<and> (\<exists>s \<in> set sections. d = s\<lparr>sec_content := sec_content d\<rparr>
              \<and> contains (sec_content d) (sec_content s)))"
proof -
  from assms have m: "1 \<le> nat m" "int (nat m) = m" and numbers: "map snd chunks = [0..<length chunks]"
    by (auto simp: chunk_sections_Inr)
  have "sec_content d \<noteq> [] \<and> int (length (sec_content d)) \<le> m
         \<and> strip (sec_content d) = sec_content d
         \<and> (\<exists>s \<in> set sections. d = s\<lparr>sec_content := sec_content d\<rparr>
              \<and> contains (sec_content d) (sec_content s))" if "(d, k) \<in> set chunks" for d k
  proof -
    from that chunk_sections_set [OF assms] obtain s where s: "s \<in> set sections"
      "d \<in> set (section_chunks (nat m) (nat overlap) s)" by force
    from section_chunk_bounds [OF m(1) s(2)] s(1) m(2) show ?thesis by (metis of_nat_le_iff)
  qed
  with numbers show ?thesis by blast
qed

text \<open>
  C25. Text of a Markdown document is not lost: for chunk bounds with an overlap of at most half
  a chunk, every line of the payload that is not a heading, if its text without outer space is
  at most overlap + 1 characters long, is contained whole in one of the chunks.
\<close>

theorem document_lines_reach_chunks:
  assumes "parse_document U pdf lims source MARKDOWN payload = Inr sections"
    and "chunk_sections sections m overlap = Inr chunks" and "2 * overlap \<le> m"
    and "utf8_decode payload = Some txt" "line \<in> set (splitlines txt)" "heading_of line = None"
    and "strip line \<noteq> []" "int (length (strip line)) \<le> overlap + 1"
  shows "\<exists>(d, k) \<in> set chunks. contains (strip line) (sec_content d)"
proof -
  from assms(1,4) have "\<exists>h. markdown_lines U source (splitlines txt) 1 [] h 1 [] = Inr sections"
    by (auto simp: parse_document_def parse_markdown_def Let_def split: if_splits)
  with markdown_lines_keep assms(5-7) obtain s where s: "s \<in> set sections"
    "contains (strip line) (sec_content s)" by blast
  from assms(2) have "1 \<le> m" "0 \<le> overlap" "overlap < m" by (auto simp: chunk_sections_Inr)
  then have "nat overlap < nat m" "nat overlap \<le> nat m div 2 + 1"
    "length (strip line) \<le> nat overlap + 1" using assms(3,8) by auto
  from short_passage_kept [OF s(2) strip_idem assms(7) this(3,1,2)] obtain d where
    "d \<in> set (section_chunks (nat m) (nat overlap) s)" "contains (strip line) (sec_content d)" by blast
  moreover from this(1) s(1) have "d \<in> fst ` set chunks"
    unfolding chunk_sections_set [OF assms(2)] by blast
  ultimately show ?thesis by force
qed

section \<open>Witnesses\<close>

definition revenue_document :: "nat list" where
  "revenue_document = lit ''# Revenue'' @ [10] @ lit '' net sales'' @ [10] @ lit ''less returns.''"

definition no_pdf :: "nat list \<Rightarrow> pdf_file option" where
  "no_pdf b = None"

definition document_limits :: parse_limits where
  "document_limits = \<lparr>max_markdown_bytes = 2000000, max_pdf_bytes = 10000000, max_pdf_pages = 100\<rparr>"

definition revenue_sections :: "document_section list" where
  "revenue_sections =
     [\<lparr>sec_key = lit ''docs/kpi.md#revenue'', sec_title = lit ''Revenue'',
       sec_locator = lit ''lines=1-3'', sec_content = lit ''net sales'' @ [10] @ lit ''less returns.''\<rparr>]"

definition revenue_chunks :: "(document_section \<times> nat) list" where
  "revenue_chunks =
     (let s = hd revenue_sections in
      [(s\<lparr>sec_content := lit ''net sales'' @ [10] @ lit ''less ret''\<rparr>, 0),
       (s\<lparr>sec_content := lit ''less returns.''\<rparr>, 1)])"

lemma revenue_parsed:
  "parse_document ascii_uni no_pdf document_limits (lit ''docs/kpi.md'') MARKDOWN revenue_document
     = Inr revenue_sections"
  by code_simp

lemma revenue_chunked: "chunk_sections revenue_sections 18 8 = Inr revenue_chunks"
  by code_simp

theorem chunks_are_bounded_pieces_witness:
  "map snd revenue_chunks = [0, 1]
   \<and> list_all (\<lambda>(d, k). int (length (sec_content d)) \<le> 18) revenue_chunks"
proof -
  have "length revenue_chunks = 2" by code_simp
  then have "[0..<length revenue_chunks] = [0, 1]" by (simp add: upt_rec numeral_2_eq_2)
  with chunks_are_bounded_pieces [OF revenue_chunked] show ?thesis by (auto simp: list_all_iff)
qed

theorem document_lines_reach_chunks_witness:
  "\<exists>(d, k) \<in> set revenue_chunks. contains (strip (lit '' net sales'')) (sec_content d)"
proof (rule document_lines_reach_chunks [OF revenue_parsed revenue_chunked])
  show "utf8_decode revenue_document = Some revenue_document" by code_simp
  show "lit '' net sales'' \<in> set (splitlines revenue_document)" by code_simp
  show "heading_of (lit '' net sales'') = None" by code_simp
  show "strip (lit '' net sales'') \<noteq> []" by code_simp
  show "int (length (strip (lit '' net sales''))) \<le> 8 + 1" by code_simp
qed simp

end
