(* ===== verification/Embeddings.thy ===== *)
theory Embeddings
  imports Errors
begin

text \<open>
  Tokens, the hashing embedding and the two similarities (\<open>retrieval/embeddings.py\<close>, and
  \<open>_cosine_counts\<close> of \<open>retrieval/repository.py\<close>). The BLAKE2b digest is the argument
  \<open>blake\<close>; \<open>float\<close> arithmetic, square root and logarithm are those of the reals.
\<close>

section \<open>Tokens\<close>

text \<open>\<open>re.findall("[...]+", s)\<close>: the maximal runs of characters of a class.\<close>

fun runs_from :: "(nat \<Rightarrow> bool) \<Rightarrow> pystr \<Rightarrow> pystr \<Rightarrow> pystr list" where
  "runs_from P [] w = (if w = [] then [] else [rev w])"
| "runs_from P (c # cs) w =
     (if P c then runs_from P cs (c # w)
      else if w = [] then runs_from P cs [] else rev w # runs_from P cs [])"

definition latin_or_number :: "nat \<Rightarrow> bool" where
  "latin_or_number c \<longleftrightarrow> 97 \<le> c \<and> c \<le> 122 \<or> ascii_digit c"

definition chinese :: "nat \<Rightarrow> bool" where
  "chinese c \<longleftrightarrow> 19968 \<le> c \<and> c \<le> 40959"

definition grams :: "nat \<Rightarrow> pystr \<Rightarrow> pystr list" where
  "grams k run = map (\<lambda>i. slice run i (i + k)) [0..<max 1 (length run + 1 - k)]"

definition lexical_tokens :: "unidata \<Rightarrow> pystr \<Rightarrow> pystr list" where
  "lexical_tokens U txt =
     (let lowered = u_lower U txt in
      runs_from latin_or_number lowered [] @ concat (map (grams 2) (runs_from chinese lowered [])))"

definition vector_tokens :: "unidata \<Rightarrow> pystr \<Rightarrow> pystr list" where
  "vector_tokens U txt =
     (let lowered = u_lower U txt in
      runs_from latin_or_number lowered []
        @ concat (map (\<lambda>run. concat (map (\<lambda>k. grams k run) [1, 2, 3]))
            (runs_from chinese lowered [])))"

section \<open>The hashing embedding\<close>

text \<open>\<open>Counter(xs).items()\<close>: each element once, in order of first occurrence, with its count.\<close>

definition counter :: "'a list \<Rightarrow> ('a \<times> nat) list" where
  "counter xs = map (\<lambda>x. (x, count_list xs x)) (fromkeys xs)"

definition big_endian :: "nat list \<Rightarrow> nat" where
  "big_endian bs = foldl (\<lambda>n b. n * 256 + b) 0 bs"

text \<open>The slot of a token and what it adds there; \<open>digest\<close> has 16 bytes.\<close>

definition token_slot ::
  "(nat list \<Rightarrow> nat list) \<Rightarrow> nat \<Rightarrow> pystr \<times> nat \<Rightarrow> exn + nat \<times> real" where
  "token_slot blake dims tn =
     (case utf8_encode (fst tn) of
        None \<Rightarrow> Inl encode_error
      | Some b \<Rightarrow>
          (let digest = blake b in
           Inr (big_endian (take 8 digest) mod dims,
                (if odd (digest ! 8) then 1 else - 1) * (1 + ln (real (snd tn))))))"

definition add_slot :: "real list \<Rightarrow> nat \<times> real \<Rightarrow> real list" where
  "add_slot v ix = v[fst ix := v ! fst ix + snd ix]"

definition dot :: "real list \<Rightarrow> real list \<Rightarrow> real" where
  "dot a b = sum_list (map2 (*) a b)"

definition normalized :: "real list \<Rightarrow> real list" where
  "normalized v = (let n = sqrt (dot v v) in if n \<noteq> 0 then map (\<lambda>x. x / n) v else v)"

definition embed_one ::
  "unidata \<Rightarrow> (nat list \<Rightarrow> nat list) \<Rightarrow> nat \<Rightarrow> pystr \<Rightarrow> exn + real list" where
  "embed_one U blake dims txt =
     res_bind (res_map (token_slot blake dims) (counter (vector_tokens U txt)))
       (\<lambda>slots. Inr (normalized (foldl add_slot (replicate dims 0) slots)))"

definition mk_hashing :: "int \<Rightarrow> exn + nat" where
  "mk_hashing dims =
     (if 16 \<le> dims \<and> dims \<le> 2048 then Inr (nat dims)
      else Inl (Py (ValueError (lit ''dimensions must be between 16 and 2048''))))"

definition hashing_embed ::
  "unidata \<Rightarrow> (nat list \<Rightarrow> nat list) \<Rightarrow> nat \<Rightarrow> pystr list \<Rightarrow> exn + real list list" where
  "hashing_embed U blake dims texts = res_map (embed_one U blake dims) texts"

definition cosine_similarity :: "real list \<Rightarrow> real list \<Rightarrow> exn + real" where
  "cosine_similarity a b =
     (if length a \<noteq> length b
      then Inl (Py (ValueError (lit ''embedding dimensions do not match''))) else Inr (dot a b))"

section \<open>The lexical score\<close>

definition count_of :: "('a \<times> nat) list \<Rightarrow> 'a \<Rightarrow> nat" where
  "count_of c x = (case map_of c x of None \<Rightarrow> 0 | Some n \<Rightarrow> n)"

definition cosine_counts :: "('a \<times> nat) list \<Rightarrow> ('a \<times> nat) list \<Rightarrow> real" where
  "cosine_counts l r =
     (if l = [] \<or> r = [] then 0
      else (let num = sum_list (map (\<lambda>(x, n). n * count_of r x) l);
                ln' = sqrt (real (sum_list (map (\<lambda>(x, n). n * n) l)));
                rn' = sqrt (real (sum_list (map (\<lambda>(x, n). n * n) r))) in
            if num \<noteq> 0 then real num / (ln' * rn') else 0))"

section \<open>Lemmas\<close>

lemma runs_from_class:
  "run \<in> set (runs_from P s w) \<Longrightarrow> \<forall>c \<in> set w. P c \<Longrightarrow> c \<in> set run \<Longrightarrow> P c"
  by (induction P s w rule: runs_from.induct) (auto split: if_splits)

lemma grams_chars: "g \<in> set (grams k run) \<Longrightarrow> set g \<subseteq> set run"
  by (auto simp: grams_def slice_def dest: in_set_takeD in_set_dropD)

lemma vector_token_chars:
  assumes "tok \<in> set (vector_tokens U txt)" "c \<in> set tok"
  shows "latin_or_number c \<or> chinese c"
  using assms grams_chars runs_from_class [of _ latin_or_number _ "[]"]
    runs_from_class [of _ chinese _ "[]"]
  unfolding vector_tokens_def Let_def by (auto simp del: runs_from.simps) blast+

lemma utf8_encode_total: "\<forall>c \<in> set s. utf8_char c \<noteq> None \<Longrightarrow> \<exists>b. utf8_encode s = Some b"
  by (induction s) auto

lemma vector_token_encodes: "tok \<in> set (vector_tokens U txt) \<Longrightarrow> \<exists>b. utf8_encode tok = Some b"
  by (rule utf8_encode_total)
     (auto dest!: vector_token_chars simp: latin_or_number_def chinese_def ascii_digit_def utf8_char_def)

lemma length_add_slots [simp]: "length (foldl add_slot v slots) = length v"
  by (induction slots arbitrary: v) (auto simp: add_slot_def)

lemma length_normalized [simp]: "length (normalized v) = length v"
  by (simp add: normalized_def Let_def)

lemma dot_sum: "length a = length b \<Longrightarrow> dot a b = (\<Sum>i<length a. a ! i * b ! i)"
  by (simp add: dot_def sum_list_sum_nth atLeast0LessThan)

lemma dot_self_nonneg: "0 \<le> dot v v"
  by (simp add: dot_sum sum_nonneg)

lemma normalized_norm: "dot v v \<noteq> 0 \<Longrightarrow> dot (normalized v) (normalized v) = 1"
proof -
  assume v: "dot v v \<noteq> 0"
  with dot_self_nonneg [of v] have pos: "0 < dot v v" by simp
  then have "dot (normalized v) (normalized v)
      = (\<Sum>i<length v. (v ! i * v ! i) / dot v v)"
    by (simp add: dot_sum normalized_def Let_def real_sqrt_mult_self)
  also have "\<dots> = 1" using pos by (simp add: sum_divide_distrib [symmetric] dot_sum)
  finally show ?thesis .
qed

lemma dot_zero: "dot v v = 0 \<Longrightarrow> v = replicate (length v) 0"
  by (rule nth_equalityI) (auto simp: dot_sum sum_nonneg_eq_0_iff)

lemma unit_product:
  fixes f g :: "'a \<Rightarrow> real"
  assumes "finite K" "(\<Sum>x\<in>K. f x * f x) \<le> 1" "(\<Sum>x\<in>K. g x * g x) \<le> 1"
  shows "\<bar>\<Sum>x\<in>K. f x * g x\<bar> \<le> 1"
proof -
  have two: "2 * \<bar>a * b\<bar> \<le> a * a + b * b" for a b :: real
  proof -
    have "0 \<le> (\<bar>a\<bar> - \<bar>b\<bar>)\<^sup>2" by simp
    then have "2 * (\<bar>a\<bar> * \<bar>b\<bar>) \<le> \<bar>a\<bar>\<^sup>2 + \<bar>b\<bar>\<^sup>2" by (simp only: power2_diff)
    then show ?thesis by (simp only: abs_mult power2_abs power2_eq_square [symmetric])
  qed
  have "2 * \<bar>\<Sum>x\<in>K. f x * g x\<bar> \<le> (\<Sum>x\<in>K. 2 * \<bar>f x * g x\<bar>)"
    using sum_abs [of "\<lambda>x. f x * g x" K] by (simp add: sum_distrib_left [symmetric])
  also have "\<dots> \<le> (\<Sum>x\<in>K. f x * f x + g x * g x)" by (intro sum_mono two)
  also have "\<dots> \<le> 2" using assms(2,3) by (simp add: sum.distrib)
  finally show ?thesis by simp
qed

lemma embed_one_Inr:
  "\<exists>v. embed_one U blake dims txt = Inr v \<and> length v = dims
     \<and> (dot v v = 1 \<or> v = replicate dims 0)"
proof -
  let ?c = "counter (vector_tokens U txt)"
  have "\<forall>tn \<in> set ?c. \<exists>s. token_slot blake dims tn = Inr s"
  proof
    fix tn assume "tn \<in> set ?c"
    then have "fst tn \<in> set (vector_tokens U txt)" by (auto simp: counter_def)
    from vector_token_encodes [OF this] show "\<exists>s. token_slot blake dims tn = Inr s"
      by (auto simp: token_slot_def Let_def)
  qed
  then obtain g where "\<And>tn. tn \<in> set ?c \<Longrightarrow> token_slot blake dims tn = Inr (g tn)" by metis
  then obtain slots where "res_map (token_slot blake dims) ?c = Inr slots"
    using res_map_total [of ?c "token_slot blake dims" g] by blast
  then have run: "embed_one U blake dims txt
      = Inr (normalized (foldl add_slot (replicate dims 0) slots))"
    by (simp add: embed_one_def)
  let ?v = "foldl add_slot (replicate dims 0) slots"
  show ?thesis
  proof (cases "dot ?v ?v = 0")
    case True
    then have "normalized ?v = ?v" by (simp add: normalized_def Let_def)
    with dot_zero [OF True] run show ?thesis by simp
  next
    case False
    with normalized_norm run show ?thesis by simp
  qed
qed

lemma unit_dot:
  assumes "length a = length b" "dot a a \<le> 1" "dot b b \<le> 1"
  shows "\<bar>dot a b\<bar> \<le> 1"
  using unit_product [of "{..<length a}" "\<lambda>i. a ! i" "\<lambda>i. b ! i"] assms
  by (simp add: dot_sum)

lemma count_of_counter [simp]: "count_of (counter xs) x = count_list xs x"
  by (auto simp: count_of_def counter_def map_of_map_restrict restrict_map_def)

lemma sum_counter:
  "sum_list (map (\<lambda>(x, n). f x n) (counter xs)) = (\<Sum>x\<in>set xs. f x (count_list xs x))"
  for f :: "'a \<Rightarrow> nat \<Rightarrow> nat"
  by (simp add: counter_def comp_def sum_list_distinct_conv_sum_set)

lemma counter_eq_Nil [simp]: "counter xs = [] \<longleftrightarrow> xs = []"
  by (cases xs) (auto simp: counter_def)

text \<open>The squared norm of a token count, over any set that covers the tokens.\<close>

lemma squares_extend:
  assumes "finite K" "set xs \<subseteq> K"
  shows "(\<Sum>x\<in>K. real (count_list xs x) * real (count_list xs x))
     = real (\<Sum>x\<in>set xs. count_list xs x * count_list xs x)"
proof -
  have "(\<Sum>x\<in>K. real (count_list xs x) * real (count_list xs x))
      = (\<Sum>x\<in>set xs. real (count_list xs x) * real (count_list xs x))"
    by (rule sum.mono_neutral_right) (use assms in auto)
  then show ?thesis by simp
qed

lemma squares_pos: "xs \<noteq> [] \<Longrightarrow> 0 < (\<Sum>x\<in>set xs. count_list xs x * count_list xs x)"
proof -
  assume "xs \<noteq> []"
  then obtain x where "x \<in> set xs" by (cases xs) auto
  then have "0 < count_list xs x * count_list xs x" by (simp add: zero_less_iff_neq_zero count_list_0_iff)
  with \<open>x \<in> set xs\<close> show ?thesis by (intro sum_pos2 [of _ x]) auto
qed

lemma cosine_counts_value:
  assumes "xs \<noteq> []" "ys \<noteq> []"
  shows "cosine_counts (counter xs) (counter ys) =
    real (\<Sum>x\<in>set xs. count_list xs x * count_list ys x)
      / (sqrt (real (\<Sum>x\<in>set xs. count_list xs x * count_list xs x))
         * sqrt (real (\<Sum>x\<in>set ys. count_list ys x * count_list ys x)))"
  using assms by (simp add: cosine_counts_def Let_def sum_counter del: of_nat_sum)

lemma cosine_counts_nonneg: "0 \<le> cosine_counts l r"
  by (simp add: cosine_counts_def Let_def)

text \<open>Cauchy and Schwarz for token counts.\<close>

lemma count_product_le:
  "real (\<Sum>x\<in>set xs. count_list xs x * count_list ys x)
     / (sqrt (real (\<Sum>x\<in>set xs. count_list xs x * count_list xs x))
        * sqrt (real (\<Sum>x\<in>set ys. count_list ys x * count_list ys x))) \<le> 1"
proof -
  define K where "K = set xs \<union> set ys"
  define a where "a = sqrt (real (\<Sum>x\<in>set xs. count_list xs x * count_list xs x))"
  define b where "b = sqrt (real (\<Sum>x\<in>set ys. count_list ys x * count_list ys x))"
  let ?f = "\<lambda>x. real (count_list xs x) / a" and ?g = "\<lambda>x. real (count_list ys x) / b"
  have K: "finite K" "set xs \<subseteq> K" "set ys \<subseteq> K" by (auto simp: K_def)
  have fold: "(\<Sum>x\<in>K. r x / d * (r x / d)) = (\<Sum>x\<in>K. r x * r x) / (d * d)" for r and d :: real
    by (simp add: sum_divide_distrib)
  have le1: "x / (sqrt x * sqrt x) \<le> 1" if "0 \<le> x" for x using that by simp
  have f: "(\<Sum>x\<in>K. ?f x * ?f x) \<le> 1"
    unfolding fold squares_extend [OF K(1,2)] a_def by (rule le1, rule of_nat_0_le_iff)
  have g: "(\<Sum>x\<in>K. ?g x * ?g x) \<le> 1"
    unfolding fold squares_extend [OF K(1,3)] b_def by (rule le1, rule of_nat_0_le_iff)
  have "(\<Sum>x\<in>K. ?f x * ?g x) = (\<Sum>x\<in>set xs. ?f x * ?g x)"
    by (rule sum.mono_neutral_right) (use K in auto)
  also have "\<dots> = real (\<Sum>x\<in>set xs. count_list xs x * count_list ys x) / (a * b)"
    by (simp add: sum_divide_distrib)
  finally have "real (\<Sum>x\<in>set xs. count_list xs x * count_list ys x) / (a * b) \<le> 1"
    using abs_le_D1 [OF unit_product [OF K(1) f g]] by (simp only:)
  then show ?thesis unfolding a_def b_def .
qed

section \<open>Properties\<close>

text \<open>
  The hashing embedding of every text exists, has the configured number of dimensions and is
  a unit vector or zero; the similarity of two such embeddings is defined and between -1 and 1,
  and that of a text with itself is 1 unless its embedding is zero.
\<close>

theorem embedding_similarity_is_bounded:
  "\<exists>a b. hashing_embed U blake dims [s, t] = Inr [a, b] \<and> length a = dims \<and> length b = dims
     \<and> (\<exists>c. cosine_similarity a b = Inr c \<and> - 1 \<le> c \<and> c \<le> 1)
     \<and> (cosine_similarity a a = Inr 1 \<or> a = replicate dims 0)"
proof -
  obtain a where a: "embed_one U blake dims s = Inr a" "length a = dims"
    "dot a a = 1 \<or> a = replicate dims 0" using embed_one_Inr by blast
  obtain b where b: "embed_one U blake dims t = Inr b" "length b = dims"
    "dot b b = 1 \<or> b = replicate dims 0" using embed_one_Inr by blast
  have zero: "dot (replicate dims 0) (replicate dims 0) = 0" by (simp add: dot_sum)
  with a b have "\<bar>dot a b\<bar> \<le> 1" by (intro unit_dot) auto
  with a b show ?thesis by (auto simp: hashing_embed_def cosine_similarity_def)
qed

text \<open>
  The lexical score of two token lists is between 0 and 1; it is positive exactly when they
  share a token, and 1 when both have the same tokens, in any order.
\<close>

theorem lexical_score_in_unit_interval:
  "0 \<le> cosine_counts (counter xs) (counter ys) \<and> cosine_counts (counter xs) (counter ys) \<le> 1
   \<and> (0 < cosine_counts (counter xs) (counter ys) \<longleftrightarrow> set xs \<inter> set ys \<noteq> {})
   \<and> (xs = [] \<or> count_list xs \<noteq> count_list ys \<or> cosine_counts (counter xs) (counter ys) = 1)"
proof (cases "xs = [] \<or> ys = []")
  case True
  moreover have "xs = []" if "ys = []" "count_list xs = count_list ys"
    using that count_list_0_iff [of xs] by (cases xs) auto
  ultimately show ?thesis by (auto simp: cosine_counts_def)
next
  case False
  define N where "N = (\<Sum>x\<in>set xs. count_list xs x * count_list ys x)"
  define A where "A = (\<Sum>x\<in>set xs. count_list xs x * count_list xs x)"
  define B where "B = (\<Sum>x\<in>set ys. count_list ys x * count_list ys x)"
  have val: "cosine_counts (counter xs) (counter ys) = real N / (sqrt (real A) * sqrt (real B))"
    unfolding N_def A_def B_def using False by (intro cosine_counts_value) auto
  have pos: "0 < A" "0 < B" unfolding A_def B_def using False squares_pos by blast+
  have shared: "N \<noteq> 0 \<longleftrightarrow> set xs \<inter> set ys \<noteq> {}" unfolding N_def by (auto simp: count_list_0_iff)
  have "real N / (sqrt (real A) * sqrt (real B)) \<le> 1" unfolding N_def A_def B_def
    by (rule count_product_le)
  moreover have "real N / (sqrt (real A) * sqrt (real B)) = 1" if "count_list xs = count_list ys"
  proof -
    have "set xs = set ys" using that count_list_0_iff by (metis subsetI subset_antisym)
    with that have "N = A" "B = A" by (simp_all add: N_def A_def B_def)
    with pos show ?thesis by simp
  qed
  ultimately show ?thesis unfolding val using pos shared by (auto simp: zero_less_divide_iff)
qed

section \<open>Witness\<close>

definition margin_text :: pystr where
  "margin_text = lit ''Net margin net''"

theorem lexical_score_in_unit_interval_witness:
  "lexical_tokens ascii_uni margin_text = [lit ''net'', lit ''margin'', lit ''net'']
   \<and> cosine_counts (counter (lexical_tokens ascii_uni margin_text))
       (counter [lit ''margin'', lit ''net'', lit ''net'']) = 1"
proof -
  have t: "lexical_tokens ascii_uni margin_text = [lit ''net'', lit ''margin'', lit ''net'']"
    by code_simp
  have "count_list [lit ''net'', lit ''margin'', lit ''net'']
      = count_list [lit ''margin'', lit ''net'', lit ''net'']"
    by (rule ext) simp
  with lexical_score_in_unit_interval [of "[lit ''net'', lit ''margin'', lit ''net'']"
      "[lit ''margin'', lit ''net'', lit ''net'']"] t
  show ?thesis by simp
qed

end
