(* ===== verification/Metric_Store.thy ===== *)
theory Metric_Store
  imports Metadata Retrieval_Text Embeddings
begin

text \<open>
  The store of metric documents (\<open>retrieval/models.py\<close>, \<open>retrieval/repository.py\<close>): its models,
  the repository protocol as a record of operations with its contract as the locale
  \<open>metric_repository\<close>, and the in-memory repository that meets the contract.
  Fresh identifiers and the clock are the argument \<open>mint\<close> of an insertion.
\<close>

section \<open>Models\<close>

record pending_chunk =
  pc_key :: pystr
  pc_title :: pystr
  pc_locator :: pystr
  pc_ordinal :: nat
  pc_content :: pystr
  pc_embedding :: "real list"

definition mk_pending :: "pending_chunk \<Rightarrow> exn + pending_chunk" where
  "mk_pending c =
     (if 1 \<le> length (pc_content c) \<and> length (pc_content c) \<le> 10000 \<and> 16 \<le> length (pc_embedding c)
      then Inr c else Inl (validation_error ''PendingMetricChunk''))"

datatype document_status = ACTIVE | SUPERSEDED

record stored_document =
  sd_id :: uuid
  sd_tenant :: uuid
  sd_title :: pystr
  sd_version :: int
  sd_status :: document_status
  sd_source_type :: source_type
  sd_source_name :: pystr
  sd_sha256 :: pystr
  sd_chunk_count :: nat
  sd_created :: real
  sd_updated :: real

definition mk_stored_document :: "stored_document \<Rightarrow> exn + stored_document" where
  "mk_stored_document d =
     (if 1 \<le> sd_version d \<and> hex64 (sd_sha256 d) \<and> 1 \<le> sd_chunk_count d
      then Inr d else Inl (validation_error ''StoredMetricDocument''))"

record metric_chunk =
  mc_id :: uuid
  mc_tenant :: uuid
  mc_document :: uuid
  mc_document_title :: pystr
  mc_document_version :: int
  mc_key :: pystr
  mc_section_title :: pystr
  mc_locator :: pystr
  mc_ordinal :: nat
  mc_content :: pystr
  mc_embedding :: "real list"

definition mk_metric_chunk :: "metric_chunk \<Rightarrow> exn + metric_chunk" where
  "mk_metric_chunk c =
     (if 1 \<le> mc_document_version c \<and> mc_content c \<noteq> [] \<and> 16 \<le> length (mc_embedding c)
      then Inr c else Inl (validation_error ''MetricChunk''))"

record ranked_chunk =
  rk_chunk :: metric_chunk
  rk_score :: real

record mint =
  mint_document :: uuid
  mint_chunk :: "nat \<Rightarrow> uuid"
  mint_now :: real

text \<open>What \<open>replace_document\<close> is called with.\<close>

record replacement =
  rp_tenant :: uuid
  rp_title :: pystr
  rp_source_type :: source_type
  rp_source_name :: pystr
  rp_sha256 :: pystr
  rp_chunks :: "pending_chunk list"

section \<open>The repository protocol\<close>

record 's metric_repo =
  repo_replace :: "mint \<Rightarrow> replacement \<Rightarrow> 's \<Rightarrow> (exn + stored_document) \<times> 's"
  repo_lexical :: "uuid \<Rightarrow> pystr \<Rightarrow> int \<Rightarrow> 's \<Rightarrow> (exn + ranked_chunk list) \<times> 's"
  repo_vector :: "uuid \<Rightarrow> real list \<Rightarrow> int \<Rightarrow> 's \<Rightarrow> (exn + ranked_chunk list) \<times> 's"
  repo_revision :: "uuid \<Rightarrow> 's \<Rightarrow> exn + pystr"

text \<open>A ranking of chunks of a tenant: at most \<open>n\<close>, best first.\<close>

definition ranking_of :: "metric_chunk list \<Rightarrow> int \<Rightarrow> ranked_chunk list \<Rightarrow> bool" where
  "ranking_of cs n rs \<longleftrightarrow> rk_chunk ` set rs \<subseteq> set cs \<and> int (length rs) \<le> n
     \<and> sorted_wrt (\<lambda>a b. rk_score b \<le> rk_score a) rs"

text \<open>The chunk a document gets for a pending chunk.\<close>

definition stored_chunk :: "mint \<Rightarrow> replacement \<Rightarrow> int \<Rightarrow> nat \<times> pending_chunk \<Rightarrow> metric_chunk" where
  "stored_chunk m r version nc =
     \<lparr>mc_id = mint_chunk m (fst nc), mc_tenant = rp_tenant r, mc_document = mint_document m,
      mc_document_title = rp_title r, mc_document_version = version,
      mc_key = pc_key (snd nc), mc_section_title = pc_title (snd nc),
      mc_locator = pc_locator (snd nc), mc_ordinal = pc_ordinal (snd nc),
      mc_content = pc_content (snd nc), mc_embedding = pc_embedding (snd nc)\<rparr>"

text \<open>
  The contract. \<open>active s t\<close> is what the searches of tenant \<open>t\<close> see: after a replacement the
  chunks of the new document, and of the tenant's other titles what was there; the other
  tenants see no difference. Searches change nothing that can be seen, and a replacement
  changes the revision of its tenant only.
\<close>

locale metric_repository =
  fixes R :: "'s metric_repo"
    and ok :: "'s \<Rightarrow> bool"
    and active :: "'s \<Rightarrow> uuid \<Rightarrow> metric_chunk list"
  assumes ok_replace: "ok s \<Longrightarrow> repo_replace R m r s = (x, s') \<Longrightarrow> ok s'"
    and ok_lexical: "ok s \<Longrightarrow> repo_lexical R t q n s = (y, s') \<Longrightarrow>
      ok s' \<and> active s' = active s \<and> repo_revision R t' s' = repo_revision R t' s"
    and ok_vector: "ok s \<Longrightarrow> repo_vector R t v n s = (y, s') \<Longrightarrow>
      ok s' \<and> active s' = active s \<and> repo_revision R t' s' = repo_revision R t' s"
    and own_chunks: "ok s \<Longrightarrow> c \<in> set (active s t) \<Longrightarrow> mc_tenant c = t"
    and lexical_ranks: "ok s \<Longrightarrow> 0 \<le> n \<Longrightarrow> repo_lexical R t q n s = (Inr rs, s') \<Longrightarrow>
      ranking_of (active s t) n rs"
    and vector_ranks: "ok s \<Longrightarrow> 0 \<le> n \<Longrightarrow> repo_vector R t v n s = (Inr rs, s') \<Longrightarrow>
      ranking_of (active s t) n rs"
    and replace_fails: "repo_replace R m r s = (Inl e, s') \<Longrightarrow> s' = s"
    and replace_active: "ok s \<Longrightarrow> repo_replace R m r s = (Inr d, s') \<Longrightarrow>
      set (active s' (rp_tenant r)) =
        {c \<in> set (active s (rp_tenant r)). mc_document_title c \<noteq> rp_title r}
        \<union> stored_chunk m r (sd_version d) ` set (enumerate 0 (rp_chunks r))"
    and replace_local: "ok s \<Longrightarrow> repo_replace R m r s = (Inr d, s') \<Longrightarrow> t \<noteq> rp_tenant r \<Longrightarrow>
      active s' t = active s t \<and> repo_revision R t s' = repo_revision R t s"
    and replace_revises: "ok s \<Longrightarrow> repo_replace R m r s = (Inr d, s') \<Longrightarrow>
      repo_revision R (rp_tenant r) s' \<noteq> repo_revision R (rp_tenant r) s"
begin

text \<open>A search never shows a chunk of another tenant.\<close>

lemma lexical_own: "ok s \<Longrightarrow> 0 \<le> n \<Longrightarrow> repo_lexical R t q n s = (Inr rs, s') \<Longrightarrow>
    r \<in> set rs \<Longrightarrow> mc_tenant (rk_chunk r) = t"
  using lexical_ranks own_chunks unfolding ranking_of_def by blast

lemma vector_own: "ok s \<Longrightarrow> 0 \<le> n \<Longrightarrow> repo_vector R t v n s = (Inr rs, s') \<Longrightarrow>
    r \<in> set rs \<Longrightarrow> mc_tenant (rk_chunk r) = t"
  using vector_ranks own_chunks unfolding ranking_of_def by blast

text \<open>After a replacement only the new document carries its title.\<close>

lemma replaced_title:
  assumes "ok s" "repo_replace R m r s = (Inr d, s')"
    and "c \<in> set (active s' (rp_tenant r))" "mc_document_title c = rp_title r"
  shows "mc_document c = mint_document m \<and> mc_document_version c = sd_version d"
  using assms(3,4) unfolding replace_active [OF assms(1,2)] by (auto simp: stored_chunk_def)

end

section \<open>The in-memory repository\<close>

record memory_store =
  me_entries :: "((uuid \<times> pystr) \<times> (stored_document \<times> metric_chunk list)) list"
  me_revisions :: "uuid \<Rightarrow> nat"
  me_lexical_calls :: nat
  me_vector_calls :: nat

definition empty_store :: memory_store where
  "empty_store = \<lparr>me_entries = [], me_revisions = (\<lambda>t. 0), me_lexical_calls = 0, me_vector_calls = 0\<rparr>"

definition next_version :: "memory_store \<Rightarrow> uuid \<Rightarrow> pystr \<Rightarrow> int" where
  "next_version s t title =
     (case map_of (me_entries s) (t, title) of None \<Rightarrow> 1 | Some (d, cs) \<Rightarrow> sd_version d + 1)"

definition new_document :: "mint \<Rightarrow> replacement \<Rightarrow> int \<Rightarrow> stored_document" where
  "new_document m r version =
     \<lparr>sd_id = mint_document m, sd_tenant = rp_tenant r, sd_title = rp_title r,
      sd_version = version, sd_status = ACTIVE, sd_source_type = rp_source_type r,
      sd_source_name = rp_source_name r, sd_sha256 = rp_sha256 r,
      sd_chunk_count = length (rp_chunks r), sd_created = mint_now m, sd_updated = mint_now m\<rparr>"

definition memory_replace ::
  "mint \<Rightarrow> replacement \<Rightarrow> memory_store \<Rightarrow> (exn + stored_document) \<times> memory_store" where
  "memory_replace m r s =
     (if rp_chunks r = [] then (Inl (Py (ValueError (lit ''at least one chunk is required''))), s)
      else (let version = next_version s (rp_tenant r) (rp_title r) in
        case res_bind (mk_stored_document (new_document m r version)) (\<lambda>d.
               res_bind (res_map (\<lambda>nc. mk_metric_chunk (stored_chunk m r version nc))
                   (enumerate 0 (rp_chunks r)))
                 (\<lambda>cs. Inr (d, cs))) of
          Inl e \<Rightarrow> (Inl e, s)
        | Inr (d, cs) \<Rightarrow>
            (Inr d, s\<lparr>me_entries := AList.update (rp_tenant r, rp_title r) (d, cs) (me_entries s),
               me_revisions := (me_revisions s)(rp_tenant r := me_revisions s (rp_tenant r) + 1)\<rparr>)))"

definition tenant_chunks :: "memory_store \<Rightarrow> uuid \<Rightarrow> metric_chunk list" where
  "tenant_chunks s t =
     concat (map (\<lambda>((t', title), (d, cs)). if t' = t then cs else []) (me_entries s))"

text \<open>\<open>xs[:n]\<close>\<close>

definition upto_slice :: "int \<Rightarrow> 'a list \<Rightarrow> 'a list" where
  "upto_slice n xs = take (if 0 \<le> n then nat n else length xs - nat (- n)) xs"

definition by_rank :: "ranked_chunk list \<Rightarrow> ranked_chunk list" where
  "by_rank rs = sort_key (\<lambda>r. (- rk_score r, mc_ordinal (rk_chunk r), uuid_str (mc_id (rk_chunk r)))) rs"

definition lexical_score :: "unidata \<Rightarrow> pystr \<Rightarrow> metric_chunk \<Rightarrow> exn + real" where
  "lexical_score U query c =
     (let score = cosine_counts (counter (lexical_tokens U query))
            (counter (lexical_tokens U
              (mc_document_title c @ [32] @ mc_section_title c @ [32] @ mc_content c))) in
      case split_ws (mc_section_title c) of
        [] \<Rightarrow> Inl (Py IndexError)
      | w # ws \<Rightarrow>
          (let label = u_lower U w in
           Inr (if label \<noteq> [] \<and> contains label (u_lower U query) then score + 1 else score)))"

definition memory_lexical ::
  "unidata \<Rightarrow> uuid \<Rightarrow> pystr \<Rightarrow> int \<Rightarrow> memory_store \<Rightarrow> (exn + ranked_chunk list) \<times> memory_store" where
  "memory_lexical U t query n s =
     (res_bind (res_map (\<lambda>c. res_bind (lexical_score U query c)
          (\<lambda>x. Inr \<lparr>rk_chunk = c, rk_score = x\<rparr>)) (tenant_chunks s t))
        (\<lambda>rs. Inr (upto_slice n (by_rank (filter (\<lambda>r. 0 < rk_score r) rs)))),
      s\<lparr>me_lexical_calls := me_lexical_calls s + 1\<rparr>)"

definition memory_vector ::
  "uuid \<Rightarrow> real list \<Rightarrow> int \<Rightarrow> memory_store \<Rightarrow> (exn + ranked_chunk list) \<times> memory_store" where
  "memory_vector t v n s =
     (res_bind (res_map (\<lambda>c. res_bind (cosine_similarity v (mc_embedding c))
          (\<lambda>x. Inr \<lparr>rk_chunk = c, rk_score = x\<rparr>)) (tenant_chunks s t))
        (\<lambda>rs. Inr (upto_slice n (by_rank (filter (\<lambda>r. 0 < rk_score r) rs)))),
      s\<lparr>me_vector_calls := me_vector_calls s + 1\<rparr>)"

definition memory_revision :: "uuid \<Rightarrow> memory_store \<Rightarrow> exn + pystr" where
  "memory_revision t s = Inr (lit ''memory:'' @ str_nat (me_revisions s t))"

definition memory_repo :: "unidata \<Rightarrow> memory_store metric_repo" where
  "memory_repo U = \<lparr>repo_replace = memory_replace, repo_lexical = memory_lexical U,
     repo_vector = memory_vector, repo_revision = memory_revision\<rparr>"

section \<open>The contract is met\<close>

text \<open>
  The invariant of the dictionary: no key twice, and an entry holds chunks of its own tenant
  and title, all of the version of its document.
\<close>

definition store_ok :: "memory_store \<Rightarrow> bool" where
  "store_ok s \<longleftrightarrow> distinct (map fst (me_entries s))
     \<and> (\<forall>((t, title), (d, cs)) \<in> set (me_entries s). \<forall>c \<in> set cs.
          mc_tenant c = t \<and> mc_document_title c = title \<and> mc_document c = sd_id d
          \<and> mc_document_version c = sd_version d)"

lemma store_ok_empty: "store_ok empty_store"
  by (simp add: store_ok_def empty_store_def)

lemma tenant_chunks_iff:
  "c \<in> set (tenant_chunks s t) \<longleftrightarrow>
     (\<exists>title d cs. ((t, title), (d, cs)) \<in> set (me_entries s) \<and> c \<in> set cs)"
  by (force simp: tenant_chunks_def split: if_splits)

lemma memory_replace_Inr:
  "memory_replace m r s = (Inr d, s') \<longleftrightarrow>
     rp_chunks r \<noteq> [] \<and> mk_stored_document (new_document m r (next_version s (rp_tenant r) (rp_title r))) = Inr d
     \<and> (\<exists>cs. res_map (\<lambda>nc. mk_metric_chunk
              (stored_chunk m r (next_version s (rp_tenant r) (rp_title r)) nc))
            (enumerate 0 (rp_chunks r)) = Inr cs
        \<and> s' = s\<lparr>me_entries := AList.update (rp_tenant r, rp_title r) (d, cs) (me_entries s),
               me_revisions := (me_revisions s)(rp_tenant r := me_revisions s (rp_tenant r) + 1)\<rparr>)"
  by (auto simp: memory_replace_def Let_def split: sum.splits)

lemma memory_replace_Inl: "memory_replace m r s = (Inl e, s') \<Longrightarrow> s' = s"
  by (auto simp: memory_replace_def Let_def split: if_splits sum.splits)

lemma stored_chunks_eq:
  assumes "res_map (\<lambda>nc. mk_metric_chunk (f nc)) xs = Inr cs"
  shows "cs = map f xs"
proof -
  from res_map_InrD [OF assms] have "list_all2 (\<lambda>x y. y = f x) xs cs"
    by (rule list_all2_mono) (auto simp: mk_metric_chunk_def split: if_splits)
  then show ?thesis by (simp add: list_all2_conv_all_nth nth_equalityI)
qed

lemma set_update:
  "distinct (map fst al) \<Longrightarrow> set (AList.update k v al) = insert (k, v) {e \<in> set al. fst e \<noteq> k}"
proof (induction al)
  case (Cons a al)
  then have "fst a \<notin> fst ` set al" by simp
  then have "{e \<in> set al. fst e \<noteq> fst a} = set al" by (auto simp: image_iff)
  with Cons show ?case by (cases a) auto
qed simp

lemma tenant_chunks_replaced:
  assumes "store_ok s"
  shows "set (tenant_chunks (s\<lparr>me_entries := AList.update (t, title) (d, cs) (me_entries s),
             me_revisions := rev'\<rparr>) t') =
    (if t' = t then {c \<in> set (tenant_chunks s t). mc_document_title c \<noteq> title} \<union> set cs
     else set (tenant_chunks s t'))"
proof -
  have dist: "distinct (map fst (me_entries s))" using assms by (simp add: store_ok_def)
  have title: "mc_document_title c = u" if "((t, u), (d', cs')) \<in> set (me_entries s)" "c \<in> set cs'"
    for u d' cs' c using assms that by (fastforce simp: store_ok_def)
  show ?thesis
    by (rule set_eqI) (auto simp: tenant_chunks_iff set_update [OF dist] dest: title)
qed

lemma store_ok_replace:
  assumes "store_ok s" "memory_replace m r s = (x, s')"
  shows "store_ok s'"
proof (cases x)
  case (Inl e)
  with assms memory_replace_Inl show ?thesis by blast
next
  case (Inr d)
  let ?v = "next_version s (rp_tenant r) (rp_title r)"
  from assms(2) [unfolded Inr] obtain cs where
    d: "mk_stored_document (new_document m r ?v) = Inr d"
    and cs: "res_map (\<lambda>nc. mk_metric_chunk (stored_chunk m r ?v nc)) (enumerate 0 (rp_chunks r)) = Inr cs"
    and s': "s' = s\<lparr>me_entries := AList.update (rp_tenant r, rp_title r) (d, cs) (me_entries s),
               me_revisions := (me_revisions s)(rp_tenant r := me_revisions s (rp_tenant r) + 1)\<rparr>"
    unfolding memory_replace_Inr by blast
  have dist: "distinct (map fst (me_entries s))" using assms(1) by (simp add: store_ok_def)
  from d have "sd_id d = mint_document m" "sd_version d = ?v"
    by (auto simp: mk_stored_document_def new_document_def split: if_splits)
  with stored_chunks_eq [OF cs] have "\<forall>c \<in> set cs. mc_tenant c = rp_tenant r
      \<and> mc_document_title c = rp_title r \<and> mc_document c = sd_id d
      \<and> mc_document_version c = sd_version d"
    by (auto simp: stored_chunk_def)
  with assms(1) show ?thesis
    unfolding store_ok_def s' by (auto simp: set_update [OF dist] intro: AList.distinct_update)
qed

lemma upto_slice_subset: "set (upto_slice n xs) \<subseteq> set xs"
  by (auto simp: upto_slice_def dest: in_set_takeD)

lemma by_rank_ranking:
  assumes "0 \<le> n" "rk_chunk ` set rs \<subseteq> set cs"
  shows "ranking_of cs n (upto_slice n (by_rank rs))"
proof -
  have "sorted_wrt (\<lambda>a b. rk_score b \<le> rk_score a) (by_rank rs)"
  proof -
    have "sorted (map (\<lambda>r. (- rk_score r, mc_ordinal (rk_chunk r), uuid_str (mc_id (rk_chunk r)))) (by_rank rs))"
      unfolding by_rank_def by (rule sorted_sort_key)
    then show ?thesis
      unfolding sorted_map by (rule sorted_wrt_mono_rel [rotated]) (auto simp: less_eq_prod_simp)
  qed
  moreover have "set (upto_slice n (by_rank rs)) \<subseteq> set rs"
    using upto_slice_subset [of n "by_rank rs"] by (simp add: by_rank_def)
  ultimately show ?thesis
    using assms by (auto simp: ranking_of_def upto_slice_def sorted_wrt_take)
qed

lemma scored_subset:
  "res_map (\<lambda>c. res_bind (f c) (\<lambda>x. Inr \<lparr>rk_chunk = c, rk_score = x\<rparr>)) cs = Inr rs
     \<Longrightarrow> rk_chunk ` set rs \<subseteq> set cs"
proof (drule res_map_InrD)
  assume "list_all2 (\<lambda>c r. res_bind (f c) (\<lambda>x. Inr \<lparr>rk_chunk = c, rk_score = x\<rparr>) = Inr r) cs rs"
  then have "list_all2 (\<lambda>c r. c = rk_chunk r) cs rs" by (rule list_all2_mono) auto
  then have "cs = map rk_chunk rs" by (simp add: list_all2_conv_all_nth nth_equalityI)
  then show "rk_chunk ` set rs \<subseteq> set cs" by simp
qed

lemma score_filter_subset:
  "rk_chunk ` set rs \<subseteq> A \<Longrightarrow> rk_chunk ` set (filter P rs) \<subseteq> A"
  by auto

lemma scored_ranking:
  assumes "0 \<le> n"
    and "res_map (\<lambda>c. res_bind (f c) (\<lambda>x. Inr \<lparr>rk_chunk = c, rk_score = x\<rparr>)) cs = Inr rs"
  shows "ranking_of cs n (upto_slice n (by_rank (filter P rs)))"
  by (intro by_rank_ranking assms(1) score_filter_subset scored_subset [OF assms(2)])

lemma tenant_chunks_calls [simp]:
  "tenant_chunks (s\<lparr>me_lexical_calls := n\<rparr>) = tenant_chunks s"
  "tenant_chunks (s\<lparr>me_vector_calls := n\<rparr>) = tenant_chunks s"
  by (auto simp: tenant_chunks_def fun_eq_iff)

lemma store_ok_calls [simp]:
  "store_ok (s\<lparr>me_lexical_calls := n\<rparr>) = store_ok s"
  "store_ok (s\<lparr>me_vector_calls := n\<rparr>) = store_ok s"
  by (simp_all add: store_ok_def)

lemma memory_revision_calls [simp]:
  "memory_revision t (s\<lparr>me_lexical_calls := n\<rparr>) = memory_revision t s"
  "memory_revision t (s\<lparr>me_vector_calls := n\<rparr>) = memory_revision t s"
  by (simp_all add: memory_revision_def)

lemma tenant_chunks_other:
  assumes "t \<noteq> t'"
  shows "tenant_chunks (s\<lparr>me_entries := AList.update (t', title) v (me_entries s),
      me_revisions := rev'\<rparr>) t = tenant_chunks s t"
proof -
  have "concat (map (\<lambda>((t1, title), (d, cs)). if t1 = t then cs else []) (AList.update (t', title) v al))
      = concat (map (\<lambda>((t1, title), (d, cs)). if t1 = t then cs else []) al)" for al
    by (induction al) (use assms in \<open>auto split: prod.splits\<close>)
  then show ?thesis by (simp add: tenant_chunks_def)
qed

lemma memory_replace_chunks:
  assumes ok: "store_ok s" and run: "memory_replace m r s = (Inr d, s')"
  shows "set (tenant_chunks s' (rp_tenant r)) =
        {c \<in> set (tenant_chunks s (rp_tenant r)). mc_document_title c \<noteq> rp_title r}
        \<union> stored_chunk m r (sd_version d) ` set (enumerate 0 (rp_chunks r))"
    and "memory_revision (rp_tenant r) s' \<noteq> memory_revision (rp_tenant r) s"
proof -
  from run obtain cs where d: "mk_stored_document (new_document m r (next_version s (rp_tenant r) (rp_title r))) = Inr d"
    and cs: "res_map (\<lambda>nc. mk_metric_chunk
        (stored_chunk m r (next_version s (rp_tenant r) (rp_title r)) nc)) (enumerate 0 (rp_chunks r)) = Inr cs"
    and s': "s' = s\<lparr>me_entries := AList.update (rp_tenant r, rp_title r) (d, cs) (me_entries s),
               me_revisions := (me_revisions s)(rp_tenant r := me_revisions s (rp_tenant r) + 1)\<rparr>"
    by (auto simp: memory_replace_Inr)
  have v: "next_version s (rp_tenant r) (rp_title r) = sd_version d"
    using d by (auto simp: mk_stored_document_def new_document_def split: if_splits)
  show "set (tenant_chunks s' (rp_tenant r)) =
        {c \<in> set (tenant_chunks s (rp_tenant r)). mc_document_title c \<noteq> rp_title r}
        \<union> stored_chunk m r (sd_version d) ` set (enumerate 0 (rp_chunks r))"
    unfolding s' using stored_chunks_eq [OF cs] by (simp add: tenant_chunks_replaced [OF ok] v)
  show "memory_revision (rp_tenant r) s' \<noteq> memory_revision (rp_tenant r) s"
    unfolding s' by (simp add: memory_revision_def)
qed

lemma memory_searches_keep:
  "memory_lexical U t q n s = (y, s') \<Longrightarrow>
     store_ok s' = store_ok s \<and> tenant_chunks s' = tenant_chunks s \<and> memory_revision t' s' = memory_revision t' s"
  "memory_vector t v n s = (y, s') \<Longrightarrow>
     store_ok s' = store_ok s \<and> tenant_chunks s' = tenant_chunks s \<and> memory_revision t' s' = memory_revision t' s"
  by (auto simp: memory_lexical_def memory_vector_def)

lemma memory_searches_rank:
  "0 \<le> n \<Longrightarrow> memory_lexical U t q n s = (Inr rs, s') \<Longrightarrow> ranking_of (tenant_chunks s t) n rs"
  "0 \<le> n \<Longrightarrow> memory_vector t v n s = (Inr rs, s') \<Longrightarrow> ranking_of (tenant_chunks s t) n rs"
  by (auto simp: memory_lexical_def memory_vector_def intro: scored_ranking)

lemma memory_chunks_owned: "store_ok s \<Longrightarrow> c \<in> set (tenant_chunks s t) \<Longrightarrow> mc_tenant c = t"
  by (fastforce simp: tenant_chunks_iff store_ok_def)

lemma memory_replace_elsewhere:
  assumes "memory_replace m r s = (Inr d, s')" "t \<noteq> rp_tenant r"
  shows "tenant_chunks s' t = tenant_chunks s t" "memory_revision t s' = memory_revision t s"
  using assms by (auto simp: memory_replace_Inr tenant_chunks_other memory_revision_def)

interpretation mem: metric_repository "memory_repo U" store_ok tenant_chunks for U
  by (unfold_locales, unfold memory_repo_def metric_repo.simps)
     (use store_ok_replace memory_searches_keep memory_chunks_owned memory_searches_rank
       memory_replace_Inl memory_replace_chunks memory_replace_elsewhere in \<open>simp_all\<close>)

section \<open>Histories\<close>

datatype store_op =
    Replace mint replacement | Lexical uuid pystr int | Vector uuid "real list" int

fun apply_op :: "unidata \<Rightarrow> store_op \<Rightarrow> memory_store \<Rightarrow> memory_store" where
  "apply_op U (Replace m r) s = snd (memory_replace m r s)"
| "apply_op U (Lexical t q n) s = snd (memory_lexical U t q n s)"
| "apply_op U (Vector t v n) s = snd (memory_vector t v n s)"

definition store_after :: "unidata \<Rightarrow> store_op list \<Rightarrow> memory_store" where
  "store_after U ops = fold (apply_op U) ops empty_store"

text \<open>A replacement the models accept, and the replacements of a title or of a tenant.\<close>

definition replacement_ok :: "replacement \<Rightarrow> bool" where
  "replacement_ok r \<longleftrightarrow> rp_chunks r \<noteq> [] \<and> hex64 (rp_sha256 r)
     \<and> list_all (\<lambda>c. pc_content c \<noteq> [] \<and> 16 \<le> length (pc_embedding c)) (rp_chunks r)"

fun replaces_title :: "uuid \<Rightarrow> pystr \<Rightarrow> store_op \<Rightarrow> bool" where
  "replaces_title t title (Replace m r) = (rp_tenant r = t \<and> rp_title r = title \<and> replacement_ok r)"
| "replaces_title t title _ = False"

fun replaces_tenant :: "uuid \<Rightarrow> store_op \<Rightarrow> bool" where
  "replaces_tenant t (Replace m r) = (rp_tenant r = t \<and> replacement_ok r)"
| "replaces_tenant t _ = False"

lemma store_ok_after: "store_ok (store_after U ops)"
proof -
  have "store_ok s \<Longrightarrow> store_ok (apply_op U op s)" for op s
    by (cases op) (auto simp: memory_lexical_def memory_vector_def
        intro: store_ok_replace [OF _ prod.collapse [symmetric]])
  then have "store_ok s \<Longrightarrow> store_ok (fold (apply_op U) ops s)" for s
    by (induction ops arbitrary: s) auto
  with store_ok_empty show ?thesis by (simp add: store_after_def)
qed

lemma memory_replace_ok:
  assumes "1 \<le> next_version s (rp_tenant r) (rp_title r)"
  shows "\<exists>x s'. memory_replace m r s = (x, s') \<and>
    (if replacement_ok r
     then \<exists>d cs. x = Inr d \<and> sd_version d = next_version s (rp_tenant r) (rp_title r)
       \<and> s' = s\<lparr>me_entries := AList.update (rp_tenant r, rp_title r) (d, cs) (me_entries s),
               me_revisions := (me_revisions s)(rp_tenant r := me_revisions s (rp_tenant r) + 1)\<rparr>
     else s' = s)"
proof (cases "replacement_ok r")
  case True
  let ?v = "next_version s (rp_tenant r) (rp_title r)"
  have "mk_stored_document (new_document m r ?v) = Inr (new_document m r ?v)"
    using True assms by (auto simp: replacement_ok_def mk_stored_document_def new_document_def Suc_le_eq)
  moreover have "res_map (\<lambda>nc. mk_metric_chunk (stored_chunk m r ?v nc)) (enumerate 0 (rp_chunks r))
      = Inr (map (stored_chunk m r ?v) (enumerate 0 (rp_chunks r)))"
    by (rule res_map_total)
       (use True assms in \<open>auto simp: replacement_ok_def mk_metric_chunk_def stored_chunk_def
          list_all_iff in_set_enumerate_eq\<close>)
  ultimately have "memory_replace m r s = (Inr (new_document m r ?v),
      s\<lparr>me_entries := AList.update (rp_tenant r, rp_title r) (new_document m r ?v,
           map (stored_chunk m r ?v) (enumerate 0 (rp_chunks r))) (me_entries s),
        me_revisions := (me_revisions s)(rp_tenant r := me_revisions s (rp_tenant r) + 1)\<rparr>)"
    using True by (simp add: memory_replace_def replacement_ok_def Let_def)
  with True show ?thesis by (auto simp: new_document_def)
next
  case False
  obtain x s' where run: "memory_replace m r s = (x, s')" by (cases "memory_replace m r s")
  have "s' = s"
  proof (cases x)
    case (Inr d)
    from run [unfolded Inr] obtain cs where
      d: "mk_stored_document (new_document m r (next_version s (rp_tenant r) (rp_title r))) = Inr d"
      and c: "rp_chunks r \<noteq> []" "res_map (\<lambda>nc. mk_metric_chunk
        (stored_chunk m r (next_version s (rp_tenant r) (rp_title r)) nc)) (enumerate 0 (rp_chunks r)) = Inr cs"
      unfolding memory_replace_Inr by blast
    from res_map_InrD [OF c(2)] have "list_all (\<lambda>c. pc_content c \<noteq> [] \<and> 16 \<le> length (pc_embedding c)) (rp_chunks r)"
      by (auto simp: list_all2_conv_all_nth list_all_length mk_metric_chunk_def stored_chunk_def
          nth_enumerate_eq split: if_splits)
    with c(1) d have "replacement_ok r"
      by (auto simp: replacement_ok_def mk_stored_document_def new_document_def split: if_splits)
    with False show ?thesis by blast
  qed (use run memory_replace_Inl in blast)
  with run False show ?thesis by simp
qed

section \<open>Properties\<close>

definition title_version :: "memory_store \<Rightarrow> uuid \<Rightarrow> pystr \<Rightarrow> int" where
  "title_version s t title = (case map_of (me_entries s) (t, title) of
     None \<Rightarrow> 0 | Some (d, cs) \<Rightarrow> sd_version d)"

lemma next_version_eq: "next_version s t title = title_version s t title + 1"
  by (auto simp: next_version_def title_version_def split: option.splits)

text \<open>One operation adds one to what it replaces, and nothing to anything else.\<close>

lemma replace_counts:
  assumes "1 \<le> next_version s (rp_tenant r) (rp_title r)"
  shows "title_version (apply_op U (Replace m r) s) t title
      = title_version s t title + of_bool (replaces_title t title (Replace m r))"
    and "me_revisions (apply_op U (Replace m r) s) t
      = me_revisions s t + of_bool (replaces_tenant t (Replace m r))"
proof -
  from memory_replace_ok [OF assms, of m] obtain x s' where run: "memory_replace m r s = (x, s')"
    and effect: "if replacement_ok r
      then \<exists>d cs. x = Inr d \<and> sd_version d = next_version s (rp_tenant r) (rp_title r)
        \<and> s' = s\<lparr>me_entries := AList.update (rp_tenant r, rp_title r) (d, cs) (me_entries s),
           me_revisions := (me_revisions s)(rp_tenant r := me_revisions s (rp_tenant r) + 1)\<rparr>
      else s' = s" by blast
  have eq: "apply_op U (Replace m r) s = s'" using run by simp
  show "title_version (apply_op U (Replace m r) s) t title
      = title_version s t title + of_bool (replaces_title t title (Replace m r))"
    using effect unfolding eq by (auto simp: title_version_def next_version_eq split: if_splits)
  show "me_revisions (apply_op U (Replace m r) s) t
      = me_revisions s t + of_bool (replaces_tenant t (Replace m r))"
    using effect unfolding eq by (auto split: if_splits)
qed

lemma search_counts:
  assumes "\<And>m r. op \<noteq> Replace m r"
  shows "title_version (apply_op U op s) t title = title_version s t title"
    and "me_revisions (apply_op U op s) t = me_revisions s t"
    and "\<not> replaces_title t title op \<and> \<not> replaces_tenant t op"
  using assms by (cases op; simp add: memory_lexical_def memory_vector_def title_version_def)+

lemma versions_counted:
  "title_version (store_after U ops) t title = int (length (filter (replaces_title t title) ops))
   \<and> me_revisions (store_after U ops) t = length (filter (replaces_tenant t) ops)"
proof (induction ops arbitrary: t title rule: rev_induct)
  case Nil
  show ?case by (simp add: store_after_def empty_store_def title_version_def)
next
  case (snoc op ops)
  have step: "store_after U (ops @ [op]) = apply_op U op (store_after U ops)" by (simp add: store_after_def)
  show ?case
  proof (cases "\<exists>m r. op = Replace m r")
    case True
    then obtain m r where op: "op = Replace m r" by blast
    have "1 \<le> next_version (store_after U ops) (rp_tenant r) (rp_title r)"
      unfolding next_version_eq using snoc.IH [of "rp_tenant r" "rp_title r"] by simp
    from replace_counts [OF this] snoc.IH show ?thesis unfolding op step [unfolded op] by simp
  next
    case False
    with search_counts [of op] snoc.IH show ?thesis unfolding step by simp
  qed
qed

text \<open>
  C27. The in-memory repository refines a counter: after any history of calls the active version
  of a title of a tenant is the number of accepted replacements of it (0 when there is none),
  and the revision of a tenant is the number of accepted replacements of the tenant. Searches,
  refused replacements and other tenants do not count.
\<close>

theorem versions_count_replacements:
  "title_version (store_after U ops) t title = int (length (filter (replaces_title t title) ops))
   \<and> memory_revision t (store_after U ops)
       = Inr (lit ''memory:'' @ str_nat (length (filter (replaces_tenant t) ops)))"
  by (simp add: versions_counted memory_revision_def)

text \<open>
  C28. Tenants are isolated and only active documents are found: after any history, what a
  lexical search returns is a ranking (at most n, best score first) of chunks of the searching
  tenant, each of which belongs to the current version of its document.
\<close>

theorem searches_stay_in_tenant:
  assumes "memory_lexical U t query n (store_after U ops) = (Inr rs, s')" and "0 \<le> n"
  shows "ranking_of (tenant_chunks (store_after U ops) t) n rs
    \<and> (\<forall>r \<in> set rs. mc_tenant (rk_chunk r) = t
         \<and> mc_document_version (rk_chunk r)
             = title_version (store_after U ops) t (mc_document_title (rk_chunk r)))"
proof -
  let ?s = "store_after U ops"
  have ok: "store_ok ?s" by (rule store_ok_after)
  from assms have run: "repo_lexical (memory_repo U) t query n ?s = (Inr rs, s')"
    by (simp add: memory_repo_def)
  have rank: "ranking_of (tenant_chunks ?s t) n rs"
    by (rule mem.lexical_ranks [OF ok assms(2) run])
  have "mc_document_version c = title_version ?s t (mc_document_title c)"
    if "c \<in> set (tenant_chunks ?s t)" for c
  proof -
    from that obtain title d cs where e: "((t, title), (d, cs)) \<in> set (me_entries ?s)" "c \<in> set cs"
      by (auto simp: tenant_chunks_iff)
    with ok have "map_of (me_entries ?s) (t, title) = Some (d, cs)"
      "mc_document_title c = title" "mc_document_version c = sd_version d"
      by (auto simp: store_ok_def intro!: map_of_is_SomeI)
    then show ?thesis by (simp add: title_version_def)
  qed
  with rank mem.lexical_own [OF ok assms(2) run] show ?thesis
    unfolding ranking_of_def by blast
qed

section \<open>Witness\<close>

definition sample_mint :: mint where
  "sample_mint = \<lparr>mint_document = 100, mint_chunk = (\<lambda>i. 200 + i), mint_now = 0\<rparr>"

definition sample_replacement :: replacement where
  "sample_replacement =
     \<lparr>rp_tenant = 7, rp_title = lit ''kpi'', rp_source_type = MARKDOWN, rp_source_name = lit ''kpi.md'',
      rp_sha256 = replicate 64 48,
      rp_chunks = [\<lparr>pc_key = lit ''kpi.md#net'', pc_title = lit ''Net'', pc_locator = lit ''lines=1-2'',
        pc_ordinal = 0, pc_content = lit ''net sales'', pc_embedding = replicate 16 (1 / 4)\<rparr>]\<rparr>"

definition sample_history :: "store_op list" where
  "sample_history = [Replace sample_mint sample_replacement,
     Replace sample_mint (sample_replacement\<lparr>rp_tenant := 8\<rparr>),
     Replace sample_mint sample_replacement]"

definition sample_chunk :: metric_chunk where
  "sample_chunk = stored_chunk sample_mint sample_replacement 2 (0, hd (rp_chunks sample_replacement))"

definition sample_store :: memory_store where
  "sample_store =
     snd (memory_replace sample_mint sample_replacement
       (snd (memory_replace sample_mint (sample_replacement\<lparr>rp_tenant := 8\<rparr>)
         (snd (memory_replace sample_mint sample_replacement empty_store)))))"

lemma sample_store_after: "store_after ascii_uni sample_history = sample_store"
  by (simp add: store_after_def sample_history_def sample_store_def)

lemma sample_tenant_chunks: "tenant_chunks sample_store 7 = [sample_chunk]"
  by code_simp

theorem searches_stay_in_tenant_witness:
  "\<exists>r s'. memory_lexical ascii_uni 7 (lit ''net'') 5 (store_after ascii_uni sample_history) = (Inr [r], s')
     \<and> mc_tenant (rk_chunk r) = 7 \<and> 1 \<le> rk_score r"
proof -
  let ?s = "sample_store"
  let ?x = "cosine_counts (counter (lexical_tokens ascii_uni (lit ''net'')))
      (counter (lexical_tokens ascii_uni (mc_document_title sample_chunk @ [32]
        @ mc_section_title sample_chunk @ [32] @ mc_content sample_chunk))) + 1"
  have w: "split_ws (mc_section_title sample_chunk) = [lit ''Net'']"
    "contains (u_lower ascii_uni (lit ''Net'')) (u_lower ascii_uni (lit ''net''))"
    "u_lower ascii_uni (lit ''Net'') \<noteq> []" by code_simp+
  then have x: "lexical_score ascii_uni (lit ''net'') sample_chunk = Inr ?x"
    by (simp add: lexical_score_def Let_def)
  have pos: "1 \<le> ?x" by (simp add: cosine_counts_nonneg)
  from x have run: "memory_lexical ascii_uni 7 (lit ''net'') 5 ?s
      = (Inr [\<lparr>rk_chunk = sample_chunk, rk_score = ?x\<rparr>],
         ?s\<lparr>me_lexical_calls := me_lexical_calls ?s + 1\<rparr>)"
    by (simp add: memory_lexical_def sample_tenant_chunks by_rank_def upto_slice_def
        add_pos_nonneg cosine_counts_nonneg add_nonneg_pos)
  have "mc_tenant sample_chunk = 7"
    using searches_stay_in_tenant [OF run [folded sample_store_after]] by simp
  with run pos show ?thesis unfolding sample_store_after by auto
qed

end
