(* ===== verification/Retrieval_Providers.thy ===== *)
theory Retrieval_Providers
  imports Metric_Store Language_Model Query_Executor "HOL-Library.Multiset"
begin

text \<open>
  The HTTP adapters and the rerankers of \<open>retrieval/providers.py\<close>, with the hit models of
  \<open>retrieval/models.py\<close>. The transport answers each post in turn and is an argument, as for the
  language model; the texts \<open>float()\<close> and \<open>int()\<close> read are the argument \<open>P\<close>, which refuses what is
  not a finite number.
\<close>

section \<open>Hits\<close>

record citation =
  ci_document :: uuid
  ci_document_title :: pystr
  ci_document_version :: int
  ci_key :: pystr
  ci_section_title :: pystr
  ci_locator :: pystr

record retrieval_hit =
  hit_content :: pystr
  hit_citation :: citation
  hit_lexical :: "real option"
  hit_vector :: "real option"
  hit_fused :: real
  hit_rerank :: "real option"

definition mk_hit :: "retrieval_hit \<Rightarrow> exn + retrieval_hit" where
  "mk_hit h = (if 0 \<le> hit_fused h then Inr h else Inl (validation_error ''RetrievalHit''))"

section \<open>\<open>post_json\<close>\<close>

type_synonym transport = "http_post list \<Rightarrow> http_post \<Rightarrow> exn + http_response"

definition one_post :: "transport \<Rightarrow> http_post \<Rightarrow> http_post list \<Rightarrow> exn + (pystr \<times> json) list" where
  "one_post transport p sent =
     res_bind (transport sent p) (\<lambda>resp.
       if \<not> (200 \<le> hr_status resp \<and> hr_status resp < 300)
       then Inl (Http (HttpStatusError (hr_status resp)))
       else (case hr_json resp of
           Some (JObj kvs) \<Rightarrow> Inr kvs
         | _ \<Rightarrow> Inl (Py (ValueError (lit ''invalid provider envelope'')))))"

fun caught_by_post :: "exn \<Rightarrow> bool" where
  "caught_by_post (Http _) = True"
| "caught_by_post (Py (ValueError _)) = True"
| "caught_by_post _ = False"

fun transient :: "exn \<Rightarrow> bool" where
  "transient (Http (HttpStatusError s)) = (s = 429 \<or> 500 \<le> s)"
| "transient (Http _) = True"
| "transient _ = False"

definition post_backoff :: "nat \<Rightarrow> real" where
  "post_backoff k = min (1 / 5 * 2 ^ k) 1"

text \<open>The \<open>for\<close> loop at \<open>attempt\<close>, with \<open>n\<close> rounds left; the last component is what it slept.\<close>

fun post_loop ::
  "transport \<Rightarrow> http_post \<Rightarrow> nat \<Rightarrow> nat \<Rightarrow> nat \<Rightarrow> http_post list
     \<Rightarrow> (exn + (pystr \<times> json) list) \<times> http_post list \<times> real list" where
  "post_loop transport p attempts attempt 0 sent =
     (Inl (Retrieval RetrievalProviderError), sent, [])"
| "post_loop transport p attempts attempt (Suc n) sent =
     (case one_post transport p sent of
        Inr kvs \<Rightarrow> (Inr kvs, sent @ [p], [])
      | Inl e \<Rightarrow>
          if \<not> caught_by_post e then (Inl e, sent @ [p], [])
          else if \<not> transient e \<or> attempt + 1 = attempts
          then (Inl (Retrieval RetrievalProviderError), sent @ [p], [])
          else later (post_backoff attempt)
            (post_loop transport p attempts (attempt + 1) n (sent @ [p])))"

definition post_json ::
  "transport \<Rightarrow> pystr \<Rightarrow> json \<Rightarrow> pystr \<Rightarrow> real \<Rightarrow> nat \<Rightarrow> http_post list
     \<Rightarrow> (exn + (pystr \<times> json) list) \<times> http_post list \<times> real list" where
  "post_json transport url payload key timeout attempts sent =
     post_loop transport
       \<lparr>hp_url = url,
        hp_headers = (if key = [] then [] else [(lit ''Authorization'', lit ''Bearer '' @ key)]),
        hp_body = payload, hp_timeout = (timeout, timeout)\<rparr>
       attempts 0 attempts sent"

section \<open>Reading a provider's answer\<close>

text \<open>Iterating a JSON value: \<open>None\<close> is a \<open>TypeError\<close>.\<close>

fun py_iter :: "json \<Rightarrow> json list option" where
  "py_iter (JList xs) = Some xs"
| "py_iter (JStr s) = Some (map (\<lambda>c. JStr [c]) s)"
| "py_iter (JObj kvs) = Some (map (JStr \<circ> fst) kvs)"
| "py_iter _ = None"

text \<open>\<open>item[key]\<close> for a text key: \<open>None\<close> is a \<open>KeyError\<close> or a \<open>TypeError\<close>.\<close>

fun py_item :: "json \<Rightarrow> string \<Rightarrow> json option" where
  "py_item (JObj kvs) k = map_of kvs (lit k)"
| "py_item _ k = None"

fun opt_map :: "('a \<Rightarrow> 'b option) \<Rightarrow> 'a list \<Rightarrow> 'b list option" where
  "opt_map f [] = Some []"
| "opt_map f (x # xs) = (case f x of None \<Rightarrow> None | Some y \<Rightarrow> map_option (Cons y) (opt_map f xs))"

text \<open>\<open>set(values) == set(range(n))\<close>\<close>

definition covers_range :: "real list \<Rightarrow> nat \<Rightarrow> bool" where
  "covers_range xs n \<longleftrightarrow> list_all (\<lambda>x. x \<in> set (map real [0..<n])) xs
     \<and> list_all (\<lambda>i. real i \<in> set xs) [0..<n]"

section \<open>The HTTP embedding provider\<close>

record http_embedding =
  he_url :: pystr
  he_model :: pystr
  he_key :: pystr
  he_timeout :: real
  he_attempts :: nat
  he_dimensions :: nat

record provider_state =
  ps_sent :: "http_post list"
  ps_slept :: "real list"
  ps_input_tokens :: int
  ps_requests :: nat
  ps_usage_known :: bool
  ps_rerank_requests :: nat

definition mk_http_embedding ::
  "pystr \<Rightarrow> pystr \<Rightarrow> nat \<Rightarrow> pystr \<Rightarrow> real \<Rightarrow> nat \<Rightarrow> http_embedding" where
  "mk_http_embedding base_url model dims key timeout attempts =
     \<lparr>he_url = rstrip_char 47 base_url @ lit ''/embeddings'', he_model = model, he_key = key,
      he_timeout = timeout, he_attempts = attempts, he_dimensions = dims\<rparr>"

definition embedding_profile :: "(nat list \<Rightarrow> pystr) \<Rightarrow> pystr \<Rightarrow> http_embedding \<Rightarrow> exn + pystr" where
  "embedding_profile sha base_url c =
     (case utf8_encode (rstrip_char 47 base_url) of
        None \<Rightarrow> Inl encode_error
      | Some b \<Rightarrow> Inr (lit ''http:'' @ take 12 (sha b) @ lit '':'' @ he_model c @ lit '':''
          @ str_nat (he_dimensions c)))"

function batches :: "nat \<Rightarrow> 'a list \<Rightarrow> 'a list list" where
  "batches k xs = (if xs = [] \<or> k = 0 then [] else take k xs # batches k (drop k xs))"
  by pat_completeness auto
termination by (relation "measure (\<lambda>(k, xs). length xs)") auto

declare batches.simps [simp del]

definition item_vector :: "py_parsers \<Rightarrow> nat \<Rightarrow> json \<Rightarrow> real list option" where
  "item_vector P dims item =
     (case Option.bind (Option.bind (py_item item ''embedding'') py_iter) (opt_map (py_float P)) of
        None \<Rightarrow> None
      | Some v \<Rightarrow> if length v \<noteq> dims \<or> sqrt (dot v v) = 0 then None
                 else Some (map (\<lambda>x. x / sqrt (dot v v)) v))"

definition batch_vectors :: "py_parsers \<Rightarrow> nat \<Rightarrow> nat \<Rightarrow> (pystr \<times> json) list \<Rightarrow> real list list option" where
  "batch_vectors P dims n kvs =
     (case Option.bind (map_of kvs (lit ''data'')) py_iter of
        None \<Rightarrow> None
      | Some items \<Rightarrow>
          (case opt_map (\<lambda>it. Option.bind (py_item it ''index'') num_value) items of
             None \<Rightarrow> None
           | Some indices \<Rightarrow>
               if length items \<noteq> n \<or> \<not> covers_range indices n then None
               else opt_map (item_vector P dims) (map snd (sort_key fst (zip indices items)))))"

text \<open>
  The usage of an answer: whether it names the tokens, and how many. A usage that is a text
  or a list has no \<open>get\<close>: that \<open>AttributeError\<close> is not among the caught classes.
\<close>

definition usage_of :: "py_parsers \<Rightarrow> (pystr \<times> json) list \<Rightarrow> bool \<times> (exn + int)" where
  "usage_of P kvs =
     (let refused = Inl (Retrieval RetrievalProviderError);
          no_get = Inl (Py (OtherError (lit ''AttributeError''))) in
      case map_of kvs (lit ''usage'') of
        None \<Rightarrow> (False, Inr 0)
      | Some (JObj us) \<Rightarrow>
          (case map_of us (lit ''prompt_tokens'') of
             None \<Rightarrow> (False, Inr 0)
           | Some j \<Rightarrow> (True, case py_int P j of None \<Rightarrow> refused | Some n \<Rightarrow> Inr n))
      | Some (JList xs) \<Rightarrow> (list_ex (\<lambda>x. x = JStr (lit ''prompt_tokens'')) xs, no_get)
      | Some (JStr s) \<Rightarrow> (contains (lit ''prompt_tokens'') s, no_get)
      | Some _ \<Rightarrow> (True, refused))"

definition embed_batch ::
  "transport \<Rightarrow> py_parsers \<Rightarrow> http_embedding \<Rightarrow> pystr list \<Rightarrow> provider_state
     \<Rightarrow> (exn + real list list) \<times> provider_state" where
  "embed_batch transport P c batch h =
     (case post_json transport (he_url c)
             (JObj [(lit ''model'', JStr (he_model c)), (lit ''input'', jstrs batch)])
             (he_key c) (he_timeout c) (he_attempts c) (ps_sent h) of
        (r, sent, ds) \<Rightarrow>
          (let h1 = h\<lparr>ps_sent := sent, ps_slept := ps_slept h @ ds\<rparr> in
           case r of
             Inl e \<Rightarrow> (Inl e, h1)
           | Inr kvs \<Rightarrow>
               (case batch_vectors P (he_dimensions c) (length batch) kvs of
                  None \<Rightarrow> (Inl (Retrieval RetrievalProviderError), h1)
                | Some vs \<Rightarrow>
                    (case usage_of P kvs of (named, n) \<Rightarrow>
                      (let h2 = h1\<lparr>ps_usage_known := ps_usage_known h1 \<and> named\<rparr> in
                       case n of
                         Inl e \<Rightarrow> (Inl e, h2)
                       | Inr k \<Rightarrow> (Inr vs, h2\<lparr>ps_input_tokens := ps_input_tokens h2 + k,
                                            ps_requests := ps_requests h2 + 1\<rparr>))))))"

fun embed_batches ::
  "transport \<Rightarrow> py_parsers \<Rightarrow> http_embedding \<Rightarrow> pystr list list \<Rightarrow> provider_state
     \<Rightarrow> (exn + real list list) \<times> provider_state" where
  "embed_batches transport P c [] h = (Inr [], h)"
| "embed_batches transport P c (b # bs) h =
     (case embed_batch transport P c b h of
        (Inl e, h') \<Rightarrow> (Inl e, h')
      | (Inr vs, h') \<Rightarrow>
          (case embed_batches transport P c bs h' of
             (Inl e, h'') \<Rightarrow> (Inl e, h'')
           | (Inr ws, h'') \<Rightarrow> (Inr (vs @ ws), h'')))"

definition http_embed ::
  "transport \<Rightarrow> py_parsers \<Rightarrow> http_embedding \<Rightarrow> pystr list \<Rightarrow> provider_state
     \<Rightarrow> (exn + real list list) \<times> provider_state" where
  "http_embed transport P c texts h = embed_batches transport P c (batches 32 texts) h"

section \<open>Rerankers\<close>

definition token_overlap :: "unidata \<Rightarrow> pystr \<Rightarrow> pystr \<Rightarrow> nat" where
  "token_overlap U query content = length (remdups (filter
     (\<lambda>t. t \<in> set (lexical_tokens U content)) (lexical_tokens U query)))"

definition overlap_rerank ::
  "unidata \<Rightarrow> pystr \<Rightarrow> retrieval_hit list \<Rightarrow> provider_state
     \<Rightarrow> (exn + retrieval_hit list) \<times> provider_state" where
  "overlap_rerank U query hits h =
     (Inr (sort_key (\<lambda>x. - int (token_overlap U query (hit_content x))) hits), h)"

record http_reranker =
  hk_url :: pystr
  hk_model :: pystr
  hk_key :: pystr
  hk_timeout :: real
  hk_attempts :: nat

fun json_int :: "json \<Rightarrow> int option" where
  "json_int (JInt i) = Some i"
| "json_int _ = None"

definition reranked :: "py_parsers \<Rightarrow> retrieval_hit list \<Rightarrow> (pystr \<times> json) list \<Rightarrow> retrieval_hit list option" where
  "reranked P hits kvs =
     (case Option.bind (map_of kvs (lit ''results'')) py_iter of
        None \<Rightarrow> None
      | Some results \<Rightarrow>
          if length results \<noteq> length hits then None
          else (case (opt_map (\<lambda>it. Option.bind (py_item it ''index'') json_int) results,
                      opt_map (\<lambda>it. Option.bind (py_item it ''relevance_score'') (py_float P)) results) of
              (Some indices, Some scores) \<Rightarrow>
                if \<not> covers_range (map real_of_int indices) (length hits) then None
                else Some (map (\<lambda>(i, x). (hits ! nat i)\<lparr>hit_rerank := Some x\<rparr>)
                  (sort_key (\<lambda>ix. - snd ix) (zip indices scores)))
            | _ \<Rightarrow> None))"

definition http_rerank ::
  "transport \<Rightarrow> py_parsers \<Rightarrow> http_reranker \<Rightarrow> pystr \<Rightarrow> retrieval_hit list \<Rightarrow> provider_state
     \<Rightarrow> (exn + retrieval_hit list) \<times> provider_state" where
  "http_rerank transport P c query hits h =
     (if hits = [] then (Inr [], h)
      else (case post_json transport (hk_url c)
             (JObj [(lit ''model'', JStr (hk_model c)), (lit ''query'', JStr query),
                    (lit ''documents'', jstrs (map hit_content hits)),
                    (lit ''top_n'', JInt (int (length hits)))])
             (hk_key c) (hk_timeout c) (hk_attempts c) (ps_sent h) of
        (r, sent, ds) \<Rightarrow>
          (let h1 = h\<lparr>ps_sent := sent, ps_slept := ps_slept h @ ds\<rparr> in
           case r of
             Inl e \<Rightarrow> (Inl e, h1)
           | Inr kvs \<Rightarrow>
               (case reranked P hits kvs of
                  None \<Rightarrow> Inl (Retrieval RetrievalProviderError)
                | Some hs \<Rightarrow> Inr hs,
                h1\<lparr>ps_rerank_requests := ps_rerank_requests h1 + 1\<rparr>))))"

text \<open>
  The contract of a reranker: the same hits, in another order, with nothing but the rerank
  score changed.
\<close>

definition unscored :: "retrieval_hit \<Rightarrow> retrieval_hit" where
  "unscored x = x\<lparr>hit_rerank := None\<rparr>"

locale reranker =
  fixes rerank :: "pystr \<Rightarrow> retrieval_hit list \<Rightarrow> 'h \<Rightarrow> (exn + retrieval_hit list) \<times> 'h"
  assumes permutes: "rerank q hits h = (Inr hs, h') \<Longrightarrow>
    mset (map unscored hs) = mset (map unscored hits)"
begin

lemma keeps_count: "rerank q hits h = (Inr hs, h') \<Longrightarrow> length hs = length hits"
  using permutes by (metis length_map mset_eq_length)

lemma keeps_hits: "rerank q hits h = (Inr hs, h') \<Longrightarrow> unscored ` set hs = unscored ` set hits"
  using permutes by (metis list.set_map mset_eq_setD)

end

section \<open>Lemmas\<close>

text \<open>A run of the retry loop: how often it posted, why it went on, and how long it slept.\<close>

lemma post_loop_run:
  assumes "post_loop transport p attempts attempt n sent = (r, sent', ds)"
    and "attempt + n = attempts" and "1 \<le> n"
  shows "\<exists>k. 1 \<le> k \<and> k \<le> n \<and> sent' = sent @ replicate k p
    \<and> ds = map post_backoff [attempt..<attempt + k - 1]
    \<and> (\<forall>j < k - 1. \<exists>e. one_post transport p (sent @ replicate j p) = Inl e \<and> transient e)
    \<and> (case r of Inr kvs \<Rightarrow> one_post transport p (sent @ replicate (k - 1) p) = Inr kvs
       | Inl e \<Rightarrow> e = Retrieval RetrievalProviderError \<or> \<not> caught_by_post e)"
  using assms
proof (induction n arbitrary: attempt sent r sent' ds)
  case (Suc n)
  show ?case
  proof (cases "one_post transport p sent")
    case (Inr kvs)
    with Suc.prems have "r = Inr kvs" "sent' = sent @ [p]" "ds = []" by auto
    with Inr show ?thesis by (intro exI [of _ 1]) auto
  next
    case (Inl e)
    show ?thesis
    proof (cases "caught_by_post e \<and> transient e \<and> attempt + 1 \<noteq> attempts")
      case False
      with Suc.prems(1) have "sent' = sent @ [p]" "ds = []"
        "\<exists>e'. r = Inl e' \<and> (e' = Retrieval RetrievalProviderError \<or> \<not> caught_by_post e')"
        by (auto simp: Inl split: if_splits)
      then show ?thesis by (intro exI [of _ 1]) auto
    next
      case True
      with Inl Suc.prems obtain ds' where ds: "ds = post_backoff attempt # ds'"
        and rest: "post_loop transport p attempts (attempt + 1) n (sent @ [p]) = (r, sent', ds')"
        by (auto simp: later_eq)
      from True Suc.prems(2) have n: "attempt + 1 + n = attempts" "1 \<le> n" by auto
      from Suc.IH [OF rest n] obtain k where k: "1 \<le> k" "k \<le> n" "sent' = (sent @ [p]) @ replicate k p"
        "ds' = map post_backoff [attempt + 1..<attempt + 1 + k - 1]"
        and why: "\<forall>j < k - 1. \<exists>e. one_post transport p ((sent @ [p]) @ replicate j p) = Inl e \<and> transient e"
        and last: "case r of Inr kvs \<Rightarrow> one_post transport p ((sent @ [p]) @ replicate (k - 1) p) = Inr kvs
       | Inl e \<Rightarrow> e = Retrieval RetrievalProviderError \<or> \<not> caught_by_post e" by blast
      have shift: "(sent @ [p]) @ replicate j p = sent @ replicate (Suc j) p" for j by simp
      have "\<forall>j < Suc k - 1. \<exists>e. one_post transport p (sent @ replicate j p) = Inl e \<and> transient e"
      proof (intro allI impI)
        fix j assume "j < Suc k - 1"
        with why Inl True show "\<exists>e. one_post transport p (sent @ replicate j p) = Inl e \<and> transient e"
          unfolding shift by (cases j) auto
      qed
      moreover have "ds = map post_backoff [attempt..<attempt + Suc k - 1]"
        using k(1) unfolding ds k(4) by (simp add: upt_conv_Cons)
      moreover have "Suc (k - 1) = k" using k(1) by simp
      note last [unfolded shift this]
      ultimately show ?thesis using k(2,3)
        by (intro exI [of _ "Suc k"]) (simp cong: sum.case_cong)
    qed
  qed
qed simp

lemma opt_map_Some: "opt_map f xs = Some ys \<longleftrightarrow> list_all2 (\<lambda>x y. f x = Some y) xs ys"
  by (induction xs arbitrary: ys) (auto simp: list_all2_Cons1 split: option.splits)

lemma opt_map_length: "opt_map f xs = Some ys \<Longrightarrow> length ys = length xs"
  by (auto simp: opt_map_Some list_all2_lengthD)

lemma opt_map_all: "opt_map f xs = Some ys \<Longrightarrow> (\<And>x y. f x = Some y \<Longrightarrow> Q y) \<Longrightarrow> list_all Q ys"
  by (induction xs arbitrary: ys) (auto split: option.splits)

lemma covers_range_permutes:
  assumes "covers_range (map real_of_int indices) n" "length indices = n"
  shows "mset (map nat indices) = mset [0..<n]"
proof -
  have nonneg: "i \<in> set indices \<Longrightarrow> \<exists>k<n. i = int k" for i
    using assms(1) by (force simp: covers_range_def list_all_iff)
  have sub: "set (map nat indices) \<subseteq> {0..<n}" using nonneg by fastforce
  have sup: "{0..<n} \<subseteq> set (map nat indices)"
  proof
    fix k assume "k \<in> {0..<n}"
    with assms(1) have "real k \<in> real_of_int ` set indices" by (auto simp: covers_range_def list_all_iff)
    then obtain i where "i \<in> set indices" "real k = real_of_int i" by auto
    then have "i = int k" by linarith
    with \<open>i \<in> set indices\<close> show "k \<in> set (map nat indices)" by force
  qed
  from sub sup have eq: "set (map nat indices) = set [0..<n]" by auto
  with assms(2) have "distinct (map nat indices)" by (intro card_distinct) simp
  with eq show ?thesis by (subst set_eq_iff_mset_eq_distinct [symmetric]) auto
qed

lemma reranked_permutes:
  assumes "reranked P hits kvs = Some hs"
  shows "mset (map unscored hs) = mset (map unscored hits)"
    "sorted_wrt (\<lambda>a b. the (hit_rerank b) \<le> the (hit_rerank a)) hs"
    "\<forall>x \<in> set hs. hit_rerank x \<noteq> None"
proof -
  from assms obtain results indices scores where
    len: "length results = length hits"
    and i: "opt_map (\<lambda>it. Option.bind (py_item it ''index'') json_int) results = Some indices"
    and x: "opt_map (\<lambda>it. Option.bind (py_item it ''relevance_score'') (py_float P)) results = Some scores"
    and cov: "covers_range (map real_of_int indices) (length hits)"
    and hs: "hs = map (\<lambda>(i, x). (hits ! nat i)\<lparr>hit_rerank := Some x\<rparr>)
                  (sort_key (\<lambda>ix. - snd ix) (zip indices scores))"
    by (auto simp: reranked_def split: option.splits if_splits)
  have l: "length indices = length hits" "length scores = length hits"
    using opt_map_length [OF i] opt_map_length [OF x] len by simp_all
  let ?g = "\<lambda>(i, x). unscored (hits ! nat i)"
  have "mset (map unscored hs) = mset (map ?g (sort_key (\<lambda>ix. - snd ix) (zip indices scores)))"
    unfolding hs map_map by (rule arg_cong [of _ _ mset]) (auto simp: unscored_def)
  also have "\<dots> = mset (map ?g (zip indices scores))" by (simp only: mset_map mset_sort)
  also have "map ?g (zip indices scores) = map (\<lambda>k. unscored (hits ! k)) (map nat indices)"
    by (rule nth_equalityI) (use l in auto)
  also have "mset (map (\<lambda>k. unscored (hits ! k)) (map nat indices))
      = mset (map (\<lambda>k. unscored (hits ! k)) [0..<length hits])"
    using covers_range_permutes [OF cov l(1)] by (metis mset_map)
  also have "map (\<lambda>k. unscored (hits ! k)) [0..<length hits] = map unscored hits"
    by (rule nth_equalityI) auto
  finally show "mset (map unscored hs) = mset (map unscored hits)" .
  have "sorted (map (\<lambda>ix. - snd ix) (sort_key (\<lambda>ix. - snd ix) (zip indices scores)))"
    by (rule sorted_sort_key)
  then show "sorted_wrt (\<lambda>a b. the (hit_rerank b) \<le> the (hit_rerank a)) hs"
    unfolding hs by (auto simp: sorted_wrt_map sorted_map case_prod_unfold)
  show "\<forall>x \<in> set hs. hit_rerank x \<noteq> None" unfolding hs by auto
qed

lemma http_rerank_Inr:
  "http_rerank transport P c query hits h = (Inr hs, h') \<Longrightarrow>
     hits = [] \<and> hs = [] \<or> (\<exists>kvs. reranked P hits kvs = Some hs)"
  by (auto simp: http_rerank_def Let_def split: if_splits prod.splits sum.splits option.splits)

interpretation overlap: reranker "overlap_rerank U" for U
proof
  fix q hits hs and h h' :: provider_state
  assume "overlap_rerank U q hits h = (Inr hs, h')"
  then have "mset hs = mset hits" by (auto simp: overlap_rerank_def)
  then show "mset (map unscored hs) = mset (map unscored hits)" by (simp only: mset_map)
qed

interpretation cross_encoder: reranker "http_rerank transport P c" for transport P c
proof
  fix q hits hs and h h' :: provider_state
  assume "http_rerank transport P c q hits h = (Inr hs, h')"
  from http_rerank_Inr [OF this] reranked_permutes(1)
  show "mset (map unscored hs) = mset (map unscored hits)" by auto
qed

lemma batches_step: "xs \<noteq> [] \<Longrightarrow> 0 < k \<Longrightarrow> batches k xs = take k xs # batches k (drop k xs)"
  by (subst batches.simps) simp

lemma concat_batches: "0 < k \<Longrightarrow> concat (batches k xs) = xs"
proof (induction k xs rule: batches.induct)
  case (1 k xs)
  show ?case
  proof (cases "xs = []")
    case True
    then show ?thesis by (simp add: batches.simps)
  next
    case False
    with 1 show ?thesis by (simp add: batches_step)
  qed
qed

lemma batch_size: "b \<in> set (batches k xs) \<Longrightarrow> 0 < length b \<and> length b \<le> k"
proof (induction k xs rule: batches.induct)
  case (1 k xs)
  show ?case
  proof (cases "xs = [] \<or> k = 0")
    case True
    with 1(2) show ?thesis by (subst (asm) batches.simps) simp
  next
    case False
    with 1 show ?thesis by (auto simp: batches_step)
  qed
qed

lemma item_vector_unit: "item_vector P dims it = Some v \<Longrightarrow> length v = dims \<and> dot v v = 1"
proof -
  assume "item_vector P dims it = Some v"
  then obtain w where w: "length w = dims" "sqrt (dot w w) \<noteq> 0" "v = map (\<lambda>x. x / sqrt (dot w w)) w"
    by (auto simp: item_vector_def split: option.splits if_splits)
  then have "v = normalized w" by (simp add: normalized_def Let_def)
  moreover have "dot (normalized w) (normalized w) = 1" using w(2) by (intro normalized_norm) simp
  ultimately show ?thesis using w(1) by (simp del: w(3))
qed

lemma batch_vectors_Some:
  assumes "batch_vectors P dims n kvs = Some vs"
  shows "length vs = n \<and> list_all (\<lambda>v. length v = dims \<and> dot v v = 1) vs"
proof -
  from assms obtain items indices where
    i: "opt_map (\<lambda>it. Option.bind (py_item it ''index'') num_value) items = Some indices"
    and n: "length items = n"
    and v: "opt_map (item_vector P dims) (map snd (sort_key fst (zip indices items))) = Some vs"
    by (auto simp: batch_vectors_def split: option.splits if_splits)
  have "length vs = n" using opt_map_length [OF v] opt_map_length [OF i] n by simp
  moreover from v have "list_all (\<lambda>v. length v = dims \<and> dot v v = 1) vs"
    by (rule opt_map_all) (rule item_vector_unit)
  ultimately show ?thesis by blast
qed

lemma embed_batch_Inr:
  "embed_batch transport P c b h = (Inr vs, h') \<Longrightarrow>
     length vs = length b \<and> list_all (\<lambda>v. length v = he_dimensions c \<and> dot v v = 1) vs
     \<and> ps_requests h' = ps_requests h + 1"
  by (auto simp: embed_batch_def Let_def split: prod.splits sum.splits option.splits
      dest: batch_vectors_Some)

lemma embed_batches_Inr:
  "embed_batches transport P c bs h = (Inr vs, h') \<Longrightarrow>
     length vs = length (concat bs) \<and> list_all (\<lambda>v. length v = he_dimensions c \<and> dot v v = 1) vs
     \<and> ps_requests h' = ps_requests h + length bs"
proof (induction bs arbitrary: h vs)
  case (Cons b bs)
  then obtain us h1 ws where "embed_batch transport P c b h = (Inr us, h1)"
    "embed_batches transport P c bs h1 = (Inr ws, h')" "vs = us @ ws"
    by (auto split: prod.splits sum.splits)
  with embed_batch_Inr Cons.IH show ?case by fastforce
qed simp

section \<open>Properties\<close>

text \<open>
  A provider call posts its request at least once and at most max_attempts times, always the
  same request; it posts again only after a transport error or a status 429 or 5xx, sleeping
  0.2 seconds doubled each time and at most one second; it ends with an answer of the provider,
  with RetrievalProviderError, or with an exception that is neither an HTTP error nor a
  ValueError.
\<close>

theorem provider_posts_are_bounded:
  assumes "post_json transport url payload key timeout attempts sent = (r, sent', ds)"
    and "1 \<le> attempts"
  shows "\<exists>k p. 1 \<le> k \<and> k \<le> attempts \<and> sent' = sent @ replicate k p
    \<and> hp_url p = url \<and> hp_body p = payload
    \<and> ds = map post_backoff [0..<k - 1] \<and> list_all (\<lambda>d. d \<le> 1) ds
    \<and> (\<forall>j < k - 1. \<exists>e. one_post transport p (sent @ replicate j p) = Inl e \<and> transient e)
    \<and> (case r of Inr kvs \<Rightarrow> one_post transport p (sent @ replicate (k - 1) p) = Inr kvs
       | Inl e \<Rightarrow> e = Retrieval RetrievalProviderError \<or> \<not> caught_by_post e)"
proof -
  let ?p = "\<lparr>hp_url = url,
        hp_headers = (if key = [] then [] else [(lit ''Authorization'', lit ''Bearer '' @ key)]),
        hp_body = payload, hp_timeout = (timeout, timeout)\<rparr>"
  from post_loop_run [OF assms(1) [unfolded post_json_def] _ assms(2)] obtain k where
    "1 \<le> k" "k \<le> attempts" "sent' = sent @ replicate k ?p"
    "ds = map post_backoff [0..<0 + k - 1]"
    "\<forall>j < k - 1. \<exists>e. one_post transport ?p (sent @ replicate j ?p) = Inl e \<and> transient e"
    "case r of Inr kvs \<Rightarrow> one_post transport ?p (sent @ replicate (k - 1) ?p) = Inr kvs
       | Inl e \<Rightarrow> e = Retrieval RetrievalProviderError \<or> \<not> caught_by_post e" by auto
  then show ?thesis
    by (intro exI [of _ k] exI [of _ ?p]) (auto simp: list_all_iff post_backoff_def)
qed

text \<open>
  An HTTP embedding answers every text, in batches of at most 32 and one request each, with
  a vector of the configured dimension and length one.
\<close>

theorem http_embeddings_align:
  assumes "http_embed transport P c texts h = (Inr vs, h')"
  shows "length vs = length texts
    \<and> list_all (\<lambda>v. length v = he_dimensions c \<and> dot v v = 1) vs
    \<and> ps_requests h' = ps_requests h + length (batches 32 texts)
    \<and> concat (batches 32 texts) = texts \<and> list_all (\<lambda>b. length b \<le> 32) (batches 32 texts)"
  using embed_batches_Inr [OF assms [unfolded http_embed_def]] concat_batches [of 32 texts]
  by (auto simp: list_all_iff dest: batch_size)

text \<open>
  The HTTP reranker returns the hits it was given, each once and changed in nothing but the
  rerank score; unless there were none, every hit carries a score and the scores descend.
\<close>

theorem reranking_permutes_hits:
  assumes "http_rerank transport P c query hits h = (Inr hs, h')"
  shows "mset (map unscored hs) = mset (map unscored hits)
    \<and> sorted_wrt (\<lambda>a b. the (hit_rerank b) \<le> the (hit_rerank a)) hs
    \<and> list_all (\<lambda>x. hit_rerank x \<noteq> None) hs"
  using cross_encoder.permutes [OF assms] http_rerank_Inr [OF assms] reranked_permutes(2,3)
  by (auto simp: list_all_iff)

section \<open>Witnesses\<close>

definition busy_once :: "transport" where
  "busy_once sent p = Inr \<lparr>hr_status = (if sent = [] then 429 else 200),
     hr_json = Some (JObj
       [(lit ''data'', JList [JObj [(lit ''index'', JInt 0), (lit ''embedding'', JList [JInt 1, JInt 0])]]),
        (lit ''results'', JList
          [JObj [(lit ''index'', JInt 1), (lit ''relevance_score'', JInt 3)],
           JObj [(lit ''index'', JInt 0), (lit ''relevance_score'', JInt 5)]])]),
     hr_header = (\<lambda>k. None)\<rparr>"

definition plain_parsers :: py_parsers where
  "plain_parsers = \<lparr>json_loads = (\<lambda>s. Inl (Py (ValueError s))), float_of_text = (\<lambda>s. None),
     int_of_text = (\<lambda>s. None)\<rparr>"

definition fresh_provider :: provider_state where
  "fresh_provider = \<lparr>ps_sent = [], ps_slept = [], ps_input_tokens = 0, ps_requests = 0,
     ps_usage_known = True, ps_rerank_requests = 0\<rparr>"

definition small_embedding :: http_embedding where
  "small_embedding = \<lparr>he_url = lit ''http://e'', he_model = lit ''m'', he_key = [], he_timeout = 20,
     he_attempts = 3, he_dimensions = 2\<rparr>"

definition small_reranker :: http_reranker where
  "small_reranker = \<lparr>hk_url = lit ''http://r'', hk_model = lit ''m'', hk_key = [], hk_timeout = 20,
     hk_attempts = 3\<rparr>"

definition plain_hit :: "pystr \<Rightarrow> retrieval_hit" where
  "plain_hit t = \<lparr>hit_content = t, hit_citation = \<lparr>ci_document = 1, ci_document_title = lit ''kpi'',
     ci_document_version = 1, ci_key = lit ''k'', ci_section_title = lit ''s'', ci_locator = lit ''l''\<rparr>,
     hit_lexical = None, hit_vector = None, hit_fused = 0, hit_rerank = None\<rparr>"

theorem provider_posts_are_bounded_witness:
  "\<exists>r sent. post_json busy_once (lit ''u'') JNull [] 20 3 [] = (r, sent, [1 / 5]) \<and> length sent = 2"
proof -
  obtain r sent ds where run: "post_json busy_once (lit ''u'') JNull [] 20 3 [] = (r, sent, ds)"
    by (metis prod_cases3)
  have "snd (snd (post_json busy_once (lit ''u'') JNull [] 20 3 [])) = [1 / 5]"
    by (simp add: post_json_def numeral_3_eq_3 one_post_def busy_once_def later_def post_backoff_def)
  with run have ds: "ds = [1 / 5]" by simp
  from provider_posts_are_bounded [OF run] obtain k p where "sent = replicate k p"
    "ds = map post_backoff [0..<k - 1]" "1 \<le> k" by auto
  moreover from this(2) ds have "k - 1 = 1" by (metis length_Cons length_map length_upt list.size(3) diff_zero One_nat_def)
  ultimately show ?thesis using run ds by simp
qed

theorem http_embeddings_align_witness:
  "\<exists>vs h'. http_embed busy_once plain_parsers small_embedding [lit ''net''] fresh_provider = (Inr vs, h')
     \<and> length vs = 1 \<and> ps_requests h' = 1"
proof -
  have b: "batches 32 [lit ''net''] = [[lit ''net'']]"
    by (simp add: batches_step) (simp add: batches.simps)
  have "\<exists>vs h'. http_embed busy_once plain_parsers small_embedding [lit ''net''] fresh_provider = (Inr vs, h')"
    by (simp add: http_embed_def b embed_batch_def post_json_def numeral_3_eq_3 one_post_def
        busy_once_def later_def small_embedding_def fresh_provider_def batch_vectors_def
        covers_range_def item_vector_def dot_def usage_of_def)
  then obtain vs h' where
    run: "http_embed busy_once plain_parsers small_embedding [lit ''net''] fresh_provider = (Inr vs, h')"
    by blast
  from http_embeddings_align [OF run] run b show ?thesis by (simp add: fresh_provider_def)
qed

theorem reranking_permutes_hits_witness:
  "\<exists>hs h'. http_rerank busy_once plain_parsers small_reranker (lit ''q'')
       [plain_hit (lit ''b''), plain_hit (lit ''a'')] fresh_provider = (Inr hs, h')
     \<and> map unscored hs = [plain_hit (lit ''b''), plain_hit (lit ''a'')] \<and> length hs = 2"
proof -
  have "\<exists>hs h'. http_rerank busy_once plain_parsers small_reranker (lit ''q'')
       [plain_hit (lit ''b''), plain_hit (lit ''a'')] fresh_provider = (Inr hs, h')
     \<and> map unscored hs = [plain_hit (lit ''b''), plain_hit (lit ''a'')]"
    by (simp add: http_rerank_def post_json_def numeral_3_eq_3 one_post_def
        busy_once_def later_def small_reranker_def fresh_provider_def reranked_def
        covers_range_def plain_hit_def unscored_def)
  then obtain hs h' where run: "http_rerank busy_once plain_parsers small_reranker (lit ''q'')
       [plain_hit (lit ''b''), plain_hit (lit ''a'')] fresh_provider = (Inr hs, h')"
    "map unscored hs = [plain_hit (lit ''b''), plain_hit (lit ''a'')]"
    by (elim exE conjE)
  from reranking_permutes_hits [OF run(1)] have "length hs = 2"
    by (metis length_Cons length_map list.size(3) mset_eq_length numeral_2_eq_2)
  with run show ?thesis by (intro exI conjI)
qed

end
