(* ===== verification/Metric_Retrieval.thy ===== *)
theory Metric_Retrieval
  imports Retrieval_Providers Expiring_Store
begin

text \<open>
  The metric retrieval service: its result models, the result cache (\<open>retrieval/cache.py\<close>),
  ingestion, ranking with weighted reciprocal rank fusion and the evidence rule
  (\<open>retrieval/service.py\<close>), and the two evaluations (\<open>retrieval/evaluation.py\<close>,
  \<open>retrieval/benchmark.py\<close>). The repository is a parameter under the contract
  \<open>metric_repository\<close>; embedding and reranking are parameters that thread a provider state.
\<close>

section \<open>Results and the cache\<close>

datatype retrieval_mode = Lexical_Mode | Vector_Mode | Hybrid | Hybrid_Rerank

record retrieval_result =
  rr_query :: pystr
  rr_mode :: retrieval_mode
  rr_revision :: pystr
  rr_hits :: "retrieval_hit list"
  rr_citations :: "citation list"
  rr_should_answer :: bool

definition mk_result :: "retrieval_result \<Rightarrow> exn + retrieval_result" where
  "mk_result r = (if 1 \<le> length (rr_query r) \<and> length (rr_query r) \<le> 4000 then Inr r
     else Inl (validation_error ''RetrievalResult''))"

type_synonym cache_key = "uuid \<times> pystr \<times> pystr \<times> retrieval_mode \<times> int"

record retrieval_cache =
  rc_ttl :: int
  rc_entries :: "cache_key \<rightharpoonup> retrieval_result \<times> real"

definition mk_cache :: "int \<Rightarrow> exn + retrieval_cache" where
  "mk_cache ttl = (if ttl \<le> 0 then Inl (Py (ValueError (lit ''ttl_seconds must be positive'')))
     else Inr \<lparr>rc_ttl = ttl, rc_entries = Map.empty\<rparr>)"

text \<open>\<open>get\<close> pops an entry it finds expired; \<open>now\<close> is the clock's answer.\<close>

definition cache_get :: "retrieval_cache \<Rightarrow> cache_key \<Rightarrow> real \<Rightarrow> retrieval_result option \<times> retrieval_cache" where
  "cache_get c k now =
     (case rc_entries c k of
        None \<Rightarrow> (None, c)
      | Some (r, expires) \<Rightarrow>
          if now \<ge> expires then (None, c\<lparr>rc_entries := (rc_entries c)(k := None)\<rparr>)
          else (Some r, c))"

definition cache_store :: "retrieval_cache \<Rightarrow> cache_key \<Rightarrow> retrieval_result \<Rightarrow> real \<Rightarrow> retrieval_cache" where
  "cache_store c k r now = c\<lparr>rc_entries := (rc_entries c)(k \<mapsto> (r, now + of_int (rc_ttl c)))\<rparr>"

definition cache_put :: "retrieval_cache \<Rightarrow> uuid \<Rightarrow> retrieval_result \<Rightarrow> int \<Rightarrow> real \<Rightarrow> retrieval_cache" where
  "cache_put c t r n now = cache_store c (t, rr_query r, rr_revision r, rr_mode r, n) r now"

definition invalidate_tenant :: "retrieval_cache \<Rightarrow> uuid \<Rightarrow> retrieval_cache" where
  "invalidate_tenant c t =
     c\<lparr>rc_entries := (\<lambda>k. if fst k \<noteq> t then rc_entries c k else None)\<rparr>"

definition cache_ok :: "retrieval_cache \<Rightarrow> bool" where
  "cache_ok c \<longleftrightarrow> 0 < rc_ttl c"

definition cache_look :: "retrieval_cache \<Rightarrow> cache_key \<Rightarrow> real \<Rightarrow> retrieval_result option" where
  "cache_look c k now = fst (cache_get c k now)"

lemma cache_look_eq:
  "cache_look c k now = (case rc_entries c k of None \<Rightarrow> None
     | Some (r, expires) \<Rightarrow> if now \<ge> expires then None else Some r)"
  by (auto simp: cache_look_def cache_get_def split: option.splits)

interpretation results: expiring_store cache_look cache_store "\<lambda>c. of_int (rc_ttl c)" cache_ok
  by unfold_locales (simp_all add: cache_ok_def cache_look_eq cache_store_def split: option.splits)

section \<open>The service\<close>

record ('s, 'h) retrieval_service =
  rs_uni :: unidata
  rs_pdf :: "nat list \<Rightarrow> pdf_file option"
  rs_sha :: "nat list \<Rightarrow> pystr"
  rs_repo :: "'s metric_repo"
  rs_embed :: "pystr list \<Rightarrow> 'h \<Rightarrow> (exn + real list list) \<times> 'h"
  rs_reranker :: "(pystr \<Rightarrow> retrieval_hit list \<Rightarrow> 'h \<Rightarrow> (exn + retrieval_hit list) \<times> 'h) option"
  rs_chunk_max :: int
  rs_chunk_overlap :: int
  rs_default_limit :: int
  rs_rrf_k :: int
  rs_min_lexical :: real
  rs_min_vector :: real
  rs_limits :: parse_limits

definition mk_retrieval :: "('s, 'h) retrieval_service \<Rightarrow> exn + ('s, 'h) retrieval_service" where
  "mk_retrieval S =
     (if rs_rrf_k S \<le> 0 then Inl (Py (ValueError (lit ''rrf_k must be positive'')))
      else if \<not> (1 \<le> rs_default_limit S \<and> rs_default_limit S \<le> 20)
      then Inl (Py (ValueError (lit ''default_limit must be between 1 and 20'')))
      else Inr S)"

record ('s, 'h) retrieval_state =
  rt_store :: 's
  rt_cache :: retrieval_cache
  rt_provider :: 'h

record ingestion =
  in_tenant :: uuid
  in_title :: pystr
  in_source_name :: pystr
  in_source_type :: source_type
  in_payload :: "nat list"

text \<open>\<open>zip(parsed_chunks, vectors, strict=True)\<close> and the pending chunks.\<close>

definition pending_of :: "(document_section \<times> nat) \<times> real list \<Rightarrow> pending_chunk" where
  "pending_of x = (case x of ((s, n), v) \<Rightarrow>
     \<lparr>pc_key = sec_key s, pc_title = sec_title s, pc_locator = sec_locator s, pc_ordinal = n,
      pc_content = sec_content s, pc_embedding = v\<rparr>)"

definition pending_chunks ::
  "(document_section \<times> nat) list \<Rightarrow> real list list \<Rightarrow> exn + pending_chunk list" where
  "pending_chunks chunks vectors =
     res_bind (res_map (\<lambda>x. mk_pending (pending_of x)) (zip chunks vectors)) (\<lambda>ps.
       if length chunks \<noteq> length vectors then Inl (Py (ValueError (lit ''zip''))) else Inr ps)"

definition parsed_chunks ::
  "('s, 'h) retrieval_service \<Rightarrow> ingestion \<Rightarrow> exn + pystr \<times> (document_section \<times> nat) list" where
  "parsed_chunks S i =
     (let title = squash (in_title i) in
      if title = [] \<or> length title > 240
      then Inl (Py (ValueError (lit ''title must contain between 1 and 240 characters'')))
      else res_bind (parse_document (rs_uni S) (rs_pdf S) (rs_limits S) (in_source_name i)
             (in_source_type i) (in_payload i)) (\<lambda>sections.
           res_bind (chunk_sections sections (rs_chunk_max S) (rs_chunk_overlap S)) (\<lambda>chunks.
           Inr (title, chunks))))"

definition ingest ::
  "('s, 'h) retrieval_service \<Rightarrow> mint \<Rightarrow> ingestion \<Rightarrow> ('s, 'h) retrieval_state
     \<Rightarrow> (exn + stored_document) \<times> ('s, 'h) retrieval_state" where
  "ingest S m i st =
     (case parsed_chunks S i of
        Inl e \<Rightarrow> (Inl e, st)
      | Inr (title, chunks) \<Rightarrow>
          (case rs_embed S (map (\<lambda>(s, n). sec_title s @ [10] @ sec_content s) chunks) (rt_provider st) of
             (Inl e, h) \<Rightarrow> (Inl e, st\<lparr>rt_provider := h\<rparr>)
           | (Inr vectors, h) \<Rightarrow>
               (case pending_chunks chunks vectors of
                  Inl e \<Rightarrow> (Inl e, st\<lparr>rt_provider := h\<rparr>)
                | Inr pending \<Rightarrow>
                    (case repo_replace (rs_repo S) m
                        \<lparr>rp_tenant = in_tenant i, rp_title = title, rp_source_type = in_source_type i,
                         rp_source_name = in_source_name i, rp_sha256 = rs_sha S (in_payload i),
                         rp_chunks = pending\<rparr> (rt_store st) of
                       (Inl e, s) \<Rightarrow> (Inl e, st\<lparr>rt_provider := h, rt_store := s\<rparr>)
                     | (Inr d, s) \<Rightarrow>
                         (Inr d, st\<lparr>rt_provider := h, rt_store := s,
                            rt_cache := invalidate_tenant (rt_cache st) (in_tenant i)\<rparr>)))))"

section \<open>Ranking\<close>

definition chunk_id :: "ranked_chunk \<Rightarrow> uuid" where
  "chunk_id r = mc_id (rk_chunk r)"

definition by_id :: "ranked_chunk list \<Rightarrow> uuid \<Rightarrow> ranked_chunk option" where
  "by_id rs = map_of (dict_of (map (\<lambda>r. (chunk_id r, r)) rs))"

text \<open>One \<open>enumerate\<close> loop of the fusion: ranks count from 1.\<close>

definition fuse :: "int \<Rightarrow> real \<Rightarrow> ranked_chunk list \<Rightarrow> (uuid \<times> real) list \<Rightarrow> (uuid \<times> real) list" where
  "fuse k weight ranking fused =
     fold (\<lambda>(rank, r) d. AList.update (chunk_id r)
             ((case map_of d (chunk_id r) of None \<Rightarrow> 0 | Some x \<Rightarrow> x)
                + weight / of_int (k + int rank)) d)
       (enumerate 1 ranking) fused"

definition rank_order ::
  "int \<Rightarrow> ranked_chunk list \<Rightarrow> ranked_chunk list \<Rightarrow> retrieval_mode \<Rightarrow> (uuid \<times> real) list" where
  "rank_order k lexical vector mode =
     (case mode of
        Lexical_Mode \<Rightarrow> map (\<lambda>r. (chunk_id r, max 0 (rk_score r))) lexical
      | Vector_Mode \<Rightarrow> map (\<lambda>r. (chunk_id r, max 0 (rk_score r))) vector
      | _ \<Rightarrow> sort_key (\<lambda>(c, x). (- x, uuid_str c)) (fuse k 1 vector (fuse k 3 lexical [])))"

definition citation_of :: "metric_chunk \<Rightarrow> citation" where
  "citation_of c = \<lparr>ci_document = mc_document c, ci_document_title = mc_document_title c,
     ci_document_version = mc_document_version c, ci_key = mc_key c,
     ci_section_title = mc_section_title c, ci_locator = mc_locator c\<rparr>"

text \<open>\<open>citation.model_dump(mode="json")\<close>\<close>

definition citation_json :: "citation \<Rightarrow> json" where
  "citation_json c = JObj
     [(lit ''document_id'', JStr (uuid_str (ci_document c))),
      (lit ''document_title'', JStr (ci_document_title c)),
      (lit ''document_version'', JInt (ci_document_version c)),
      (lit ''section_key'', JStr (ci_key c)), (lit ''section_title'', JStr (ci_section_title c)),
      (lit ''source_locator'', JStr (ci_locator c))]"

definition hit_of ::
  "ranked_chunk option \<Rightarrow> ranked_chunk option \<Rightarrow> real \<Rightarrow> retrieval_hit option" where
  "hit_of l v fused =
     (case (case l of None \<Rightarrow> v | Some r \<Rightarrow> Some r) of
        None \<Rightarrow> None
      | Some r \<Rightarrow> Some \<lparr>hit_content = mc_content (rk_chunk r), hit_citation = citation_of (rk_chunk r),
          hit_lexical = map_option rk_score l, hit_vector = map_option rk_score v,
          hit_fused = fused, hit_rerank = None\<rparr>)"

definition rank_hits ::
  "int \<Rightarrow> ranked_chunk list \<Rightarrow> ranked_chunk list \<Rightarrow> retrieval_mode \<Rightarrow> exn + retrieval_hit list" where
  "rank_hits k lexical vector mode =
     res_map mk_hit (List.map_filter (\<lambda>(c, x). hit_of (by_id lexical c) (by_id vector c) x)
       (rank_order k lexical vector mode))"

definition has_evidence ::
  "('s, 'h) retrieval_service \<Rightarrow> retrieval_hit list \<Rightarrow> retrieval_mode \<Rightarrow> bool" where
  "has_evidence S hits mode \<longleftrightarrow> hits \<noteq> []
     \<and> (mode \<noteq> Vector_Mode \<and> list_ex (\<lambda>h. or_default (hit_lexical h) 0 \<ge> rs_min_lexical S) hits
        \<or> mode \<noteq> Lexical_Mode \<and> list_ex (\<lambda>h. or_default (hit_vector h) (- 1) \<ge> rs_min_vector S) hits)"

section \<open>Retrieval\<close>

definition candidate_limit :: "int \<Rightarrow> int" where
  "candidate_limit n = min 100 (max (n * 4) 20)"

definition lexical_part ::
  "('s, 'h) retrieval_service \<Rightarrow> uuid \<Rightarrow> pystr \<Rightarrow> retrieval_mode \<Rightarrow> int \<Rightarrow> ('s, 'h) retrieval_state
     \<Rightarrow> (exn + ranked_chunk list) \<times> ('s, 'h) retrieval_state" where
  "lexical_part S t q mode n st =
     (if mode = Vector_Mode then (Inr [], st)
      else (case repo_lexical (rs_repo S) t q n (rt_store st) of (r, s) \<Rightarrow> (r, st\<lparr>rt_store := s\<rparr>)))"

text \<open>\<open>embed((query,))[0]\<close>: an embedding without a vector is an \<open>IndexError\<close>.\<close>

definition vector_part ::
  "('s, 'h) retrieval_service \<Rightarrow> uuid \<Rightarrow> pystr \<Rightarrow> retrieval_mode \<Rightarrow> int \<Rightarrow> ('s, 'h) retrieval_state
     \<Rightarrow> (exn + ranked_chunk list) \<times> ('s, 'h) retrieval_state" where
  "vector_part S t q mode n st =
     (if mode = Lexical_Mode then (Inr [], st)
      else (case rs_embed S [q] (rt_provider st) of
          (Inl e, h) \<Rightarrow> (Inl e, st\<lparr>rt_provider := h\<rparr>)
        | (Inr [], h) \<Rightarrow> (Inl (Py IndexError), st\<lparr>rt_provider := h\<rparr>)
        | (Inr (v # vs), h) \<Rightarrow>
            (case repo_vector (rs_repo S) t v n (rt_store st) of
               (r, s) \<Rightarrow> (r, st\<lparr>rt_provider := h, rt_store := s\<rparr>))))"

definition rerank_part ::
  "('s, 'h) retrieval_service \<Rightarrow> pystr \<Rightarrow> retrieval_mode \<Rightarrow> retrieval_hit list \<Rightarrow> ('s, 'h) retrieval_state
     \<Rightarrow> (exn + retrieval_hit list) \<times> ('s, 'h) retrieval_state" where
  "rerank_part S q mode hits st =
     (if mode \<noteq> Hybrid_Rerank then (Inr hits, st)
      else (case rs_reranker S of
          None \<Rightarrow> (Inl (Py (ValueError (lit ''hybrid_rerank requires RAG_RERANKER_PROVIDER''))), st)
        | Some rerank \<Rightarrow> (case rerank q hits (rt_provider st) of (r, h) \<Rightarrow> (r, st\<lparr>rt_provider := h\<rparr>))))"

text \<open>The candidates of a query, ranked, reranked and cut.\<close>

definition ranked_answer ::
  "('s, 'h) retrieval_service \<Rightarrow> uuid \<Rightarrow> pystr \<Rightarrow> retrieval_mode \<Rightarrow> int \<Rightarrow> ('s, 'h) retrieval_state
     \<Rightarrow> (exn + retrieval_hit list) \<times> ('s, 'h) retrieval_state" where
  "ranked_answer S t q mode n st =
     (case lexical_part S t q mode (candidate_limit n) st of
        (Inl e, st1) \<Rightarrow> (Inl e, st1)
      | (Inr lexical, st1) \<Rightarrow>
          (case vector_part S t q mode (candidate_limit n) st1 of
             (Inl e, st2) \<Rightarrow> (Inl e, st2)
           | (Inr vector, st2) \<Rightarrow>
               (case rank_hits (rs_rrf_k S) lexical vector mode of
                  Inl e \<Rightarrow> (Inl e, st2)
                | Inr hits \<Rightarrow>
                    (case rerank_part S q mode hits st2 of
                       (Inl e, st3) \<Rightarrow> (Inl e, st3)
                     | (Inr hs, st3) \<Rightarrow> (Inr (take (nat n) hs), st3)))))"

text \<open>The arguments after normalisation, or the \<open>ValueError\<close>.\<close>

definition checked_query ::
  "('s, 'h) retrieval_service \<Rightarrow> pystr \<Rightarrow> int option \<Rightarrow> exn + pystr \<times> int" where
  "checked_query S query limit_arg =
     (let q = squash query; n = (case limit_arg of None \<Rightarrow> rs_default_limit S | Some k \<Rightarrow> k) in
      if q = [] \<or> length q > 4000
      then Inl (Py (ValueError (lit ''query must contain between 1 and 4000 characters'')))
      else if \<not> (1 \<le> n \<and> n \<le> 20) then Inl (Py (ValueError (lit ''limit must be between 1 and 20'')))
      else Inr (q, n))"

text \<open>\<open>now\<close> and \<open>later\<close> are the two readings of the cache's clock.\<close>

definition retrieve ::
  "('s, 'h) retrieval_service \<Rightarrow> real \<times> real \<Rightarrow> uuid \<Rightarrow> pystr \<Rightarrow> retrieval_mode \<Rightarrow> int option
     \<Rightarrow> ('s, 'h) retrieval_state \<Rightarrow> (exn + retrieval_result) \<times> ('s, 'h) retrieval_state" where
  "retrieve S clock t query mode limit_arg st =
     (case checked_query S query limit_arg of
        Inl e \<Rightarrow> (Inl e, st)
      | Inr (q, n) \<Rightarrow>
          (case repo_revision (rs_repo S) t (rt_store st) of
             Inl e \<Rightarrow> (Inl e, st)
           | Inr revision \<Rightarrow>
               (case cache_get (rt_cache st) (t, q, revision, mode, n) (fst clock) of
                  (Some r, c) \<Rightarrow> (Inr r, st\<lparr>rt_cache := c\<rparr>)
                | (None, c) \<Rightarrow>
                    (case ranked_answer S t q mode n (st\<lparr>rt_cache := c\<rparr>) of
                       (Inl e, st') \<Rightarrow> (Inl e, st')
                     | (Inr hits, st') \<Rightarrow>
                         (case mk_result \<lparr>rr_query = q, rr_mode = mode, rr_revision = revision,
                              rr_hits = hits, rr_citations = map hit_citation hits,
                              rr_should_answer = has_evidence S hits mode\<rparr> of
                            Inl e \<Rightarrow> (Inl e, st')
                          | Inr r \<Rightarrow> (Inr r, st'\<lparr>rt_cache := cache_put (rt_cache st') t r n (snd clock)\<rparr>))))))"

section \<open>Fusion\<close>

text \<open>What a ranking contributes to a chunk: the weight over \<open>k + rank\<close> at each of its places.\<close>

definition reciprocal_rank :: "int \<Rightarrow> real \<Rightarrow> ranked_chunk list \<Rightarrow> uuid \<Rightarrow> real" where
  "reciprocal_rank k weight rs c =
     (\<Sum>i<length rs. if chunk_id (rs ! i) = c then weight / of_int (k + int i + 1) else 0)"

lemma reciprocal_rank_snoc:
  "reciprocal_rank k weight (rs @ [r]) c = reciprocal_rank k weight rs c
     + (if chunk_id r = c then weight / of_int (k + int (length rs) + 1) else 0)"
  by (simp add: reciprocal_rank_def nth_append)

lemma fuse_snoc:
  "fuse k weight (rs @ [r]) d = (let d' = fuse k weight rs d in
     AList.update (chunk_id r) ((case map_of d' (chunk_id r) of None \<Rightarrow> 0 | Some x \<Rightarrow> x)
       + weight / of_int (k + int (length rs) + 1)) d')"
  by (simp add: fuse_def enumerate_append_eq Let_def algebra_simps)

lemma fuse_distinct: "distinct (map fst d) \<Longrightarrow> distinct (map fst (fuse k weight rs d))"
  by (induction rs rule: rev_induct)
     (auto simp: fuse_snoc Let_def fuse_def [where ranking = "[]"] intro: AList.distinct_update)

lemma fuse_value:
  "map_of (fuse k weight rs d) c =
     (if c \<in> chunk_id ` set rs
      then Some ((case map_of d c of None \<Rightarrow> 0 | Some x \<Rightarrow> x) + reciprocal_rank k weight rs c)
      else map_of d c)"
proof (induction rs rule: rev_induct)
  case Nil
  show ?case by (simp add: fuse_def)
next
  case (snoc r rs)
  have zero: "c \<notin> chunk_id ` set rs \<Longrightarrow> reciprocal_rank k weight rs c = 0"
    by (auto simp: reciprocal_rank_def intro!: sum.neutral)
  have step: "map_of (fuse k weight (rs @ [r]) d) c = (if chunk_id r = c
      then Some ((case map_of (fuse k weight rs d) c of None \<Rightarrow> 0 | Some x \<Rightarrow> x)
        + weight / of_int (k + int (length rs) + 1))
      else map_of (fuse k weight rs d) c)"
    by (auto simp: fuse_snoc Let_def)
  show ?case
    unfolding step snoc reciprocal_rank_snoc
    by (cases "c \<in> chunk_id ` set rs"; cases "chunk_id r = c") (simp_all add: zero)
qed

lemma map_of_same_set:
  assumes "distinct (map fst xs)" "set ys = set xs" "distinct (map fst ys)"
  shows "map_of ys = map_of xs"
proof
  fix k
  have "map_of ys k = Some v \<longleftrightarrow> map_of xs k = Some v" for v
    using assms by (metis Some_eq_map_of_iff)
  then show "map_of ys k = map_of xs k" by (metis not_Some_eq)
qed

text \<open>
  C24. Hybrid ranking is weighted reciprocal rank fusion: the order holds every candidate of the
  two rankings exactly once, the fused score of a candidate is 3 over k plus its lexical rank
  plus 1 over k plus its vector rank, a ranking it is not in adding nothing, and the
  candidates stand in descending order of that score.
\<close>

theorem hybrid_order_is_fusion:
  "distinct (map fst (rank_order k lexical vector Hybrid))
   \<and> map_of (rank_order k lexical vector Hybrid) c =
      (if c \<in> chunk_id ` set (lexical @ vector)
       then Some (reciprocal_rank k 3 lexical c + reciprocal_rank k 1 vector c) else None)
   \<and> sorted_wrt (\<lambda>a b. snd b \<le> snd a) (rank_order k lexical vector Hybrid)"
proof -
  let ?f = "fuse k 1 vector (fuse k 3 lexical [])"
  have ord: "rank_order k lexical vector Hybrid = sort_key (\<lambda>(c, x). (- x, uuid_str c)) ?f"
    by (simp add: rank_order_def)
  have dist: "distinct (map fst ?f)" by (intro fuse_distinct) simp
  have perm: "mset (map fst (rank_order k lexical vector Hybrid)) = mset (map fst ?f)"
    unfolding ord by (simp only: mset_map mset_sort)
  from dist have dist': "distinct (map fst (rank_order k lexical vector Hybrid))"
    using mset_eq_imp_distinct_iff [OF perm] by simp
  have map: "map_of (rank_order k lexical vector Hybrid) = map_of ?f"
    by (rule map_of_same_set [OF dist _ dist']) (simp add: ord)
  have "reciprocal_rank k 3 lexical c = 0" if "c \<notin> chunk_id ` set lexical"
    using that by (auto simp: reciprocal_rank_def intro!: sum.neutral)
  moreover have "reciprocal_rank k 1 vector c = 0" if "c \<notin> chunk_id ` set vector"
    using that by (auto simp: reciprocal_rank_def intro!: sum.neutral)
  ultimately have val: "map_of ?f c =
      (if c \<in> chunk_id ` set (lexical @ vector)
       then Some (reciprocal_rank k 3 lexical c + reciprocal_rank k 1 vector c) else None)"
    by (auto simp: fuse_value)
  have "sorted (map (\<lambda>(c, x). (- x, uuid_str c)) (rank_order k lexical vector Hybrid))"
    unfolding ord by (rule sorted_sort_key)
  then have "sorted_wrt (\<lambda>a b. snd b \<le> snd a) (rank_order k lexical vector Hybrid)"
    unfolding sorted_map by (rule sorted_wrt_mono_rel [rotated]) (auto simp: less_eq_prod_simp)
  with dist' val show ?thesis unfolding map by blast
qed

section \<open>What answers cite\<close>

text \<open>An answer about a corpus: at most \<open>n\<close> hits, each the content and citation of one of its chunks.\<close>

definition answer_over :: "metric_chunk list \<Rightarrow> int \<Rightarrow> retrieval_hit list \<Rightarrow> bool" where
  "answer_over cs n hits \<longleftrightarrow> int (length hits) \<le> n \<and>
     list_all (\<lambda>h. list_ex (\<lambda>c. hit_content h = mc_content c \<and> hit_citation h = citation_of c) cs) hits"

definition from_chunks :: "metric_chunk list \<Rightarrow> retrieval_hit \<Rightarrow> bool" where
  "from_chunks cs h \<longleftrightarrow> (\<exists>c \<in> set cs. hit_content h = mc_content c \<and> hit_citation h = citation_of c)"

lemma answer_over_iff:
  "answer_over cs n hits \<longleftrightarrow> int (length hits) \<le> n \<and> (\<forall>h \<in> set hits. from_chunks cs h)"
  by (simp add: answer_over_def from_chunks_def list_all_iff list_ex_iff)

lemma from_chunks_unscored: "from_chunks cs (unscored h) = from_chunks cs h"
  by (simp add: from_chunks_def unscored_def)

lemma by_id_SomeD: "by_id rs c = Some r \<Longrightarrow> r \<in> set rs"
proof -
  assume "by_id rs c = Some r"
  then have "(c, r) \<in> set (dict_of (map (\<lambda>r. (chunk_id r, r)) rs))"
    unfolding by_id_def by (rule map_of_SomeD)
  with set_dict_of_subset show ?thesis by fastforce
qed

lemma hit_of_Some:
  assumes "hit_of (by_id lexical c) (by_id vector c) x = Some h"
    and "rk_chunk ` set lexical \<subseteq> set cs" "rk_chunk ` set vector \<subseteq> set cs"
  shows "from_chunks cs h"
proof -
  have "\<exists>r. (by_id lexical c = Some r \<or> by_id vector c = Some r)
      \<and> hit_content h = mc_content (rk_chunk r) \<and> hit_citation h = citation_of (rk_chunk r)"
    using assms(1) by (cases "by_id lexical c"; cases "by_id vector c") (auto simp: hit_of_def)
  then obtain r where r: "by_id lexical c = Some r \<or> by_id vector c = Some r"
    "hit_content h = mc_content (rk_chunk r)" "hit_citation h = citation_of (rk_chunk r)" by blast
  then have "rk_chunk r \<in> set cs" using assms(2,3) by (blast dest: by_id_SomeD)
  with r(2,3) show ?thesis unfolding from_chunks_def by blast
qed

lemma rank_hits_from:
  assumes "rank_hits k lexical vector mode = Inr hits"
    and "rk_chunk ` set lexical \<subseteq> set cs" "rk_chunk ` set vector \<subseteq> set cs"
  shows "\<forall>h \<in> set hits. from_chunks cs h"
proof
  fix h assume h: "h \<in> set hits"
  let ?f = "\<lambda>(c, x). hit_of (by_id lexical c) (by_id vector c) x"
  let ?ys = "List.map_filter ?f (rank_order k lexical vector mode)"
  from res_map_InrD [OF assms(1) [unfolded rank_hits_def]]
  have "list_all2 (\<lambda>x y. y = x) ?ys hits"
    by (rule list_all2_mono) (auto simp: mk_hit_def split: if_splits)
  then have "hits = ?ys" by (simp add: list_all2_conv_all_nth nth_equalityI)
  with h obtain c x where "hit_of (by_id lexical c) (by_id vector c) x = Some h"
    by (auto simp: List.map_filter_def)
  with hit_of_Some assms(2,3) show "from_chunks cs h" by blast
qed

text \<open>An ingestion ends before the repository, or with what the replacement did.\<close>

lemma ingest_cases:
  assumes "ingest S m i st = (x, st')"
  shows "(\<exists>h. st' = st\<lparr>rt_provider := h\<rparr>)
    \<or> (\<exists>r h y s. repo_replace (rs_repo S) m r (rt_store st) = (y, s) \<and> rp_tenant r = in_tenant i
        \<and> st' = (case y of Inl e \<Rightarrow> st\<lparr>rt_provider := h, rt_store := s\<rparr>
          | Inr d \<Rightarrow> st\<lparr>rt_provider := h, rt_store := s,
              rt_cache := invalidate_tenant (rt_cache st) (in_tenant i)\<rparr>))"
proof (cases "parsed_chunks S i")
  case (Inl e)
  with assms have "st' = st\<lparr>rt_provider := rt_provider st\<rparr>" by (simp add: ingest_def)
  then show ?thesis by blast
next
  case (Inr tc)
  obtain title chunks where tc: "parsed_chunks S i = Inr (title, chunks)" using Inr by (cases tc) auto
  obtain v h where v: "rs_embed S (map (\<lambda>(s, n). sec_title s @ [10] @ sec_content s) chunks) (rt_provider st)
      = (v, h)" by fastforce
  show ?thesis
  proof (cases "\<exists>vectors pending. v = Inr vectors \<and> pending_chunks chunks vectors = Inr pending")
    case True
    then obtain vectors pending where p: "v = Inr vectors" "pending_chunks chunks vectors = Inr pending"
      by blast
    let ?r = "\<lparr>rp_tenant = in_tenant i, rp_title = title, rp_source_type = in_source_type i,
       rp_source_name = in_source_name i, rp_sha256 = rs_sha S (in_payload i), rp_chunks = pending\<rparr>"
    obtain y s where y: "repo_replace (rs_repo S) m ?r (rt_store st) = (y, s)" by fastforce
    have "st' = (case y of Inl e \<Rightarrow> st\<lparr>rt_provider := h, rt_store := s\<rparr>
          | Inr d \<Rightarrow> st\<lparr>rt_provider := h, rt_store := s,
              rt_cache := invalidate_tenant (rt_cache st) (in_tenant i)\<rparr>)"
      using assms tc v p y by (cases y) (auto simp: ingest_def)
    moreover have "rp_tenant ?r = in_tenant i" by simp
    ultimately show ?thesis using y by blast
  next
    case False
    with assms tc v have "st' = st\<lparr>rt_provider := h\<rparr>" by (auto simp: ingest_def split: sum.splits)
    then show ?thesis by blast
  qed
qed

text \<open>The ways a ranking ends.\<close>

lemma ranked_answer_cases:
  assumes "ranked_answer S t q mode n st = (x, st')"
  obtains
    (no_lexical) e where "lexical_part S t q mode (candidate_limit n) st = (Inl e, st')" "x = Inl e"
  | (no_ranking) lexical st1 y e where "lexical_part S t q mode (candidate_limit n) st = (Inr lexical, st1)"
      "vector_part S t q mode (candidate_limit n) st1 = (y, st')" "x = Inl e"
  | (ranked) lexical st1 vector st2 hits z where
      "lexical_part S t q mode (candidate_limit n) st = (Inr lexical, st1)"
      "vector_part S t q mode (candidate_limit n) st1 = (Inr vector, st2)"
      "rank_hits (rs_rrf_k S) lexical vector mode = Inr hits" "rerank_part S q mode hits st2 = (z, st')"
      "x = res_bind z (\<lambda>hs. Inr (take (nat n) hs))"
proof -
  obtain y1 st1 where l: "lexical_part S t q mode (candidate_limit n) st = (y1, st1)" by fastforce
  obtain y2 st2 where v: "vector_part S t q mode (candidate_limit n) st1 = (y2, st2)" by fastforce
  note run = assms [unfolded ranked_answer_def l]
  consider e where "y1 = Inl e" | lexical e where "y1 = Inr lexical" "y2 = Inl e"
    | lexical vector where "y1 = Inr lexical" "y2 = Inr vector" by (cases y1; cases y2)
  then show thesis
  proof cases
    case (3 lexical vector)
    show thesis
    proof (cases "rank_hits (rs_rrf_k S) lexical vector mode")
      case (Inl e)
      with run l v 3 have "x = Inl e" "vector_part S t q mode (candidate_limit n) st1 = (y2, st')" by auto
      with l 3 no_ranking show thesis by simp
    next
      case (Inr hits)
      obtain z st3 where "rerank_part S q mode hits st2 = (z, st3)" by fastforce
      with run l v 3 Inr ranked show thesis by (cases z) auto
    qed
  qed (use run l v no_lexical no_ranking in auto)
qed

text \<open>The four ways a retrieval ends.\<close>

lemma retrieve_cases:
  assumes "retrieve S clock t query mode lim_arg st = (x, st')"
  obtains
    (refused) e where "x = Inl e" "st' = st"
  | (cached) q n rev r c where "checked_query S query lim_arg = Inr (q, n)"
      "repo_revision (rs_repo S) t (rt_store st) = Inr rev"
      "cache_get (rt_cache st) (t, q, rev, mode, n) (fst clock) = (Some r, c)"
      "x = Inr r" "st' = st\<lparr>rt_cache := c\<rparr>"
  | (unanswered) q n rev c y e where "checked_query S query lim_arg = Inr (q, n)"
      "cache_get (rt_cache st) (t, q, rev, mode, n) (fst clock) = (None, c)"
      "ranked_answer S t q mode n (st\<lparr>rt_cache := c\<rparr>) = (y, st')" "x = Inl e"
  | (answered) q n rev c hits s r where "checked_query S query lim_arg = Inr (q, n)"
      "repo_revision (rs_repo S) t (rt_store st) = Inr rev"
      "cache_get (rt_cache st) (t, q, rev, mode, n) (fst clock) = (None, c)"
      "ranked_answer S t q mode n (st\<lparr>rt_cache := c\<rparr>) = (Inr hits, s)"
      "r = \<lparr>rr_query = q, rr_mode = mode, rr_revision = rev, rr_hits = hits,
          rr_citations = map hit_citation hits, rr_should_answer = has_evidence S hits mode\<rparr>"
      "x = Inr r" "st' = s\<lparr>rt_cache := cache_put (rt_cache s) t r n (snd clock)\<rparr>"
  using assms unfolding retrieve_def
  by (auto simp: mk_result_def split: sum.splits prod.splits option.splits if_splits)

lemma checked_query_nonneg: "checked_query S query lim_arg = Inr (q, n) \<Longrightarrow> 0 \<le> n"
  by (auto simp: checked_query_def Let_def split: if_splits)

locale retrieval_client = metric_repository R ok active
  for R :: "'s metric_repo" and ok and active +
  fixes S :: "('s, 'h) retrieval_service"
  assumes repo: "rs_repo S = R"
    and rerankers: "rs_reranker S = Some rr \<Longrightarrow> reranker rr"
begin

lemma limit_nonneg: "0 \<le> candidate_limit n"
  by (simp add: candidate_limit_def)

lemma lexical_subset: "ok s \<Longrightarrow> 0 \<le> n \<Longrightarrow> repo_lexical R t q n s = (Inr rs, s') \<Longrightarrow>
    rk_chunk ` set rs \<subseteq> set (active s t)"
  using lexical_ranks unfolding ranking_of_def by blast

lemma vector_subset: "ok s \<Longrightarrow> 0 \<le> n \<Longrightarrow> repo_vector R t v n s = (Inr rs, s') \<Longrightarrow>
    rk_chunk ` set rs \<subseteq> set (active s t)"
  using vector_ranks unfolding ranking_of_def by blast

lemma lexical_part_run:
  assumes "ok (rt_store st)" "lexical_part S t q mode n st = (x, st')" "0 \<le> n"
  shows "ok (rt_store st') \<and> active (rt_store st') = active (rt_store st)
    \<and> repo_revision R t' (rt_store st') = repo_revision R t' (rt_store st)
    \<and> rt_cache st' = rt_cache st
    \<and> (\<forall>rs. x = Inr rs \<longrightarrow> rk_chunk ` set rs \<subseteq> set (active (rt_store st) t))"
proof (cases "mode = Vector_Mode")
  case False
  with assms(2) obtain s where s: "repo_lexical R t q n (rt_store st) = (x, s)" "st' = st\<lparr>rt_store := s\<rparr>"
    by (auto simp: lexical_part_def repo split: prod.splits)
  from s(1) have "\<forall>rs. x = Inr rs \<longrightarrow> rk_chunk ` set rs \<subseteq> set (active (rt_store st) t)"
    using lexical_subset [OF assms(1,3)] by blast
  with ok_lexical [OF assms(1) s(1)] s(2) show ?thesis by simp
qed (use assms in \<open>auto simp: lexical_part_def\<close>)

lemma vector_part_run:
  assumes "ok (rt_store st)" "vector_part S t q mode n st = (x, st')" "0 \<le> n"
  shows "ok (rt_store st') \<and> active (rt_store st') = active (rt_store st)
    \<and> repo_revision R t' (rt_store st') = repo_revision R t' (rt_store st)
    \<and> rt_cache st' = rt_cache st
    \<and> (\<forall>rs. x = Inr rs \<longrightarrow> rk_chunk ` set rs \<subseteq> set (active (rt_store st) t))"
proof (cases "\<exists>v vs h s. mode \<noteq> Lexical_Mode \<and> rs_embed S [q] (rt_provider st) = (Inr (v # vs), h)
    \<and> repo_vector R t v n (rt_store st) = (x, s) \<and> st' = st\<lparr>rt_provider := h, rt_store := s\<rparr>")
  case True
  then obtain v h s where s: "repo_vector R t v n (rt_store st) = (x, s)"
    "st' = st\<lparr>rt_provider := h, rt_store := s\<rparr>" by blast
  from s(1) have "\<forall>rs. x = Inr rs \<longrightarrow> rk_chunk ` set rs \<subseteq> set (active (rt_store st) t)"
    using vector_subset [OF assms(1,3)] by blast
  with ok_vector [OF assms(1) s(1)] s(2) show ?thesis by simp
next
  case False
  with assms show ?thesis
    by (auto simp: vector_part_def repo split: if_splits prod.splits sum.splits list.splits)
qed

lemma rerank_part_run:
  assumes "rerank_part S q mode hits st = (x, st')"
  shows "rt_store st' = rt_store st \<and> rt_cache st' = rt_cache st
    \<and> (\<forall>hs. x = Inr hs \<longrightarrow> unscored ` set hs = unscored ` set hits)"
proof (cases "mode = Hybrid_Rerank \<and> rs_reranker S \<noteq> None")
  case True
  then obtain rr where rr: "rs_reranker S = Some rr" by auto
  from True rr assms obtain h where run: "rr q hits (rt_provider st) = (x, h)"
    "st' = st\<lparr>rt_provider := h\<rparr>"
    by (auto simp: rerank_part_def split: prod.splits)
  from run(1) have "\<forall>hs. x = Inr hs \<longrightarrow> unscored ` set hs = unscored ` set hits"
    using reranker.keeps_hits [OF rerankers [OF rr]] by blast
  with run(2) show ?thesis by simp
next
  case False
  with assms show ?thesis by (auto simp: rerank_part_def split: if_splits)
qed

lemma reranked_answer_over:
  assumes "\<forall>h \<in> set hits. from_chunks chunks h" "rerank_part S q mode hits st = (Inr hs, st')" "0 \<le> n"
  shows "answer_over chunks n (take (nat n) hs)"
proof -
  from rerank_part_run [OF assms(2)] have "unscored ` set hs = unscored ` set hits" by blast
  with assms(1) have "\<forall>h \<in> set hs. from_chunks chunks h"
    by (metis (no_types, lifting) from_chunks_unscored imageE imageI)
  with assms(3) show ?thesis by (auto simp: answer_over_iff dest: in_set_takeD)
qed

lemma ranked_answer_run:
  assumes "ok (rt_store st)" "ranked_answer S t q mode n st = (x, st')" "0 \<le> n"
  shows "ok (rt_store st') \<and> active (rt_store st') = active (rt_store st)
    \<and> repo_revision R t' (rt_store st') = repo_revision R t' (rt_store st)
    \<and> rt_cache st' = rt_cache st
    \<and> (\<forall>hits. x = Inr hits \<longrightarrow> answer_over (active (rt_store st) t) n hits)"
  using assms(2)
proof (cases rule: ranked_answer_cases)
  case (no_lexical e)
  with lexical_part_run [OF assms(1) no_lexical(1) limit_nonneg] show ?thesis by simp
next
  case (no_ranking lexical st1 y e)
  note L = lexical_part_run [OF assms(1) no_ranking(1) limit_nonneg]
  then have "ok (rt_store st1)" by blast
  from vector_part_run [OF this no_ranking(2) limit_nonneg] L no_ranking(3) show ?thesis by simp
next
  case (ranked lexical st1 vector st2 hits z)
  note L = lexical_part_run [OF assms(1) ranked(1) limit_nonneg]
  then have "ok (rt_store st1)" by blast
  note V = vector_part_run [OF this ranked(2) limit_nonneg]
  note K = rerank_part_run [OF ranked(4)]
  have "\<forall>h \<in> set hits. from_chunks (active (rt_store st) t) h"
    using rank_hits_from [OF ranked(3)] L V by auto
  from reranked_answer_over [OF this _ assms(3)] ranked(4)
  have "answer_over (active (rt_store st) t) n ys" if "x = Inr ys" for ys
    using that unfolding ranked(5) by auto
  with L V K show ?thesis by simp
qed

text \<open>
  The invariant of a service's state: the repository is well formed, and every cached result
  whose revision is the current one of its tenant is an answer over what is active now.
\<close>

definition fresh :: "('s, 'h) retrieval_state \<Rightarrow> bool" where
  "fresh st \<longleftrightarrow> ok (rt_store st) \<and> (\<forall>t q rev mode n r e.
     rc_entries (rt_cache st) (t, q, rev, mode, n) = Some (r, e) \<longrightarrow>
     repo_revision R t (rt_store st) = Inr rev \<longrightarrow>
     answer_over (active (rt_store st) t) n (rr_hits r) \<and> rr_query r = q \<and> rr_mode r = mode
       \<and> rr_citations r = map hit_citation (rr_hits r))"

lemma fresh_cong:
  assumes "fresh st" "ok (rt_store st')"
    and "\<And>t. active (rt_store st') t = active (rt_store st) t"
    and "\<And>t. repo_revision R t (rt_store st') = repo_revision R t (rt_store st)"
    and "\<And>k v. rc_entries (rt_cache st') k = Some v \<Longrightarrow> rc_entries (rt_cache st) k = Some v"
  shows "fresh st'"
  using assms unfolding fresh_def by metis

lemma cache_get_entries:
  "cache_get c k now = (x, c') \<Longrightarrow> rc_entries c' k' = Some v \<Longrightarrow> rc_entries c k' = Some v"
  by (auto simp: cache_get_def split: option.splits if_splits)

lemma cache_get_hit: "cache_get c k now = (Some r, c') \<Longrightarrow> \<exists>e. rc_entries c k = Some (r, e) \<and> now < e"
  by (auto simp: cache_get_def split: option.splits if_splits)

text \<open>A new result stored under the revision it was computed at keeps the invariant.\<close>

lemma fresh_put:
  assumes "fresh st" and "repo_revision R t (rt_store st) = Inr (rr_revision r)"
    and "answer_over (active (rt_store st) t) n (rr_hits r)" "rr_citations r = map hit_citation (rr_hits r)"
  shows "fresh (st\<lparr>rt_cache := cache_put (rt_cache st) t r n now\<rparr>)"
  using assms unfolding fresh_def
  by (auto simp: cache_put_def cache_store_def fresh_def split: if_splits)

text \<open>A retrieval keeps the invariant, and its result is about what is active now.\<close>

lemma retrieve_run:
  assumes "fresh st" "retrieve S clock t query mode lim_arg st = (x, st')"
  shows "fresh st' \<and> (\<forall>r. x = Inr r \<longrightarrow> (\<exists>q n. checked_query S query lim_arg = Inr (q, n)
    \<and> answer_over (active (rt_store st') t) n (rr_hits r) \<and> rr_query r = q \<and> rr_mode r = mode
    \<and> rr_citations r = map hit_citation (rr_hits r)))"
  using assms(2)
proof (cases rule: retrieve_cases)
  case (refused e)
  with assms(1) show ?thesis by simp
next
  case (cached q n rev r c)
  from cache_get_hit [OF cached(3)] obtain e where
    "rc_entries (rt_cache st) (t, q, rev, mode, n) = Some (r, e)" by blast
  with assms(1) cached(2) have "answer_over (active (rt_store st) t) n (rr_hits r)" "rr_query r = q"
    "rr_mode r = mode" "rr_citations r = map hit_citation (rr_hits r)"
    unfolding fresh_def repo by blast+
  moreover have "fresh st'"
    by (rule fresh_cong [OF assms(1)])
       (use assms(1) cached(5) cache_get_entries [OF cached(3)] in \<open>auto simp: fresh_def\<close>)
  ultimately show ?thesis using cached by simp
next
  case (unanswered q n rev c y e)
  have "ok (rt_store (st\<lparr>rt_cache := c\<rparr>))" using assms(1) by (simp add: fresh_def)
  note A = ranked_answer_run [OF this unanswered(3) checked_query_nonneg [OF unanswered(1)]]
  have "fresh st'"
    by (rule fresh_cong [OF assms(1)]) (use A cache_get_entries [OF unanswered(2)] in auto)
  with unanswered(4) show ?thesis by simp
next
  case (answered q n rev c hits s r)
  have "ok (rt_store (st\<lparr>rt_cache := c\<rparr>))" using assms(1) by (simp add: fresh_def)
  note A = ranked_answer_run [OF this answered(4) checked_query_nonneg [OF answered(1)]]
  have "fresh s"
    by (rule fresh_cong [OF assms(1)]) (use A cache_get_entries [OF answered(3)] in auto)
  then have "fresh st'"
    unfolding answered(7) by (rule fresh_put) (use A answered in \<open>auto simp: repo\<close>)
  with A answered show ?thesis by simp
qed

lemma ingest_fresh:
  assumes "fresh st" "ingest S m i st = (x, st')"
  shows "fresh st'"
proof -
  have ok: "ok (rt_store st)" using assms(1) by (simp add: fresh_def)
  have keep: "fresh (st\<lparr>rt_provider := h\<rparr>)" for h
    by (rule fresh_cong [OF assms(1)]) (use ok in auto)
  show ?thesis
  proof (rule disjE [OF ingest_cases [OF assms(2)]])
    assume "\<exists>h. st' = st\<lparr>rt_provider := h\<rparr>"
    with keep show ?thesis by blast
  next
    assume "\<exists>r h y s. repo_replace (rs_repo S) m r (rt_store st) = (y, s) \<and> rp_tenant r = in_tenant i
        \<and> st' = (case y of Inl e \<Rightarrow> st\<lparr>rt_provider := h, rt_store := s\<rparr>
          | Inr d \<Rightarrow> st\<lparr>rt_provider := h, rt_store := s,
              rt_cache := invalidate_tenant (rt_cache st) (in_tenant i)\<rparr>)"
    then obtain r h y s where run: "repo_replace R m r (rt_store st) = (y, s)" "rp_tenant r = in_tenant i"
      "st' = (case y of Inl e \<Rightarrow> st\<lparr>rt_provider := h, rt_store := s\<rparr>
        | Inr d \<Rightarrow> st\<lparr>rt_provider := h, rt_store := s,
            rt_cache := invalidate_tenant (rt_cache st) (in_tenant i)\<rparr>)" unfolding repo by blast
    show ?thesis
    proof (cases y)
      case (Inl e)
      with run replace_fails have "st' = st\<lparr>rt_provider := h, rt_store := rt_store st\<rparr>" by fastforce
      with keep show ?thesis by simp
    next
      case (Inr d)
      note rep = run(1) [unfolded Inr]
      from run(3) Inr have st': "st' = st\<lparr>rt_provider := h, rt_store := s,
            rt_cache := invalidate_tenant (rt_cache st) (in_tenant i)\<rparr>" by simp
      from replace_local [OF ok rep] run(2) assms(1) ok_replace [OF ok rep] show ?thesis
        unfolding st' fresh_def by (auto simp: invalidate_tenant_def split: if_splits)
    qed
  qed
qed

end

section \<open>Settings and the factory\<close>

text \<open>
  \<open>RetrievalSettings\<close> with its bounds, and \<open>create_metric_retrieval_service\<close>. The record
  \<open>retrieval_env\<close> collects what lies outside the code: Unicode, PDF reading, the two digests, the
  HTTP transport and the number texts.
\<close>

datatype embedding_setting = Hashing | Http_Embedding
datatype reranker_setting = No_Reranker | Overlap | Http_Reranker

record retrieval_settings =
  se_embedding :: embedding_setting
  se_dimensions :: int
  se_embedding_url :: pystr
  se_embedding_key :: pystr
  se_embedding_model :: pystr
  se_reranker :: reranker_setting
  se_reranker_url :: pystr
  se_reranker_key :: pystr
  se_reranker_model :: pystr
  se_timeout :: real
  se_attempts :: int
  se_chunk_max :: int
  se_chunk_overlap :: int
  se_result_limit :: int
  se_rrf_k :: int
  se_cache_ttl :: int
  se_min_lexical :: real
  se_min_vector :: real
  se_limits :: parse_limits

definition settings_bounds :: "retrieval_settings \<Rightarrow> bool" where
  "settings_bounds c \<longleftrightarrow> 16 \<le> se_dimensions c \<and> se_dimensions c \<le> 2048
     \<and> 0 < se_timeout c \<and> se_timeout c \<le> 60 \<and> 1 \<le> se_attempts c \<and> se_attempts c \<le> 3
     \<and> 200 \<le> se_chunk_max c \<and> se_chunk_max c \<le> 4000
     \<and> 0 \<le> se_chunk_overlap c \<and> se_chunk_overlap c \<le> 500
     \<and> 1 \<le> se_result_limit c \<and> se_result_limit c \<le> 20
     \<and> 1 \<le> se_rrf_k c \<and> se_rrf_k c \<le> 1000 \<and> 1 \<le> se_cache_ttl c \<and> se_cache_ttl c \<le> 86400
     \<and> 0 \<le> se_min_lexical c \<and> se_min_lexical c \<le> 1
     \<and> - 1 \<le> se_min_vector c \<and> se_min_vector c \<le> 1
     \<and> 1024 \<le> max_markdown_bytes (se_limits c) \<and> max_markdown_bytes (se_limits c) \<le> 20000000
     \<and> 1024 \<le> max_pdf_bytes (se_limits c) \<and> max_pdf_bytes (se_limits c) \<le> 50000000
     \<and> 1 \<le> max_pdf_pages (se_limits c) \<and> max_pdf_pages (se_limits c) \<le> 1000"

record retrieval_env =
  re_uni :: unidata
  re_pdf :: "nat list \<Rightarrow> pdf_file option"
  re_sha :: "nat list \<Rightarrow> pystr"
  re_blake :: "nat list \<Rightarrow> nat list"
  re_transport :: "transport"
  re_parsers :: py_parsers

definition create_embedding ::
  "retrieval_env \<Rightarrow> retrieval_settings \<Rightarrow> pystr list \<Rightarrow> provider_state
     \<Rightarrow> (exn + real list list) \<times> provider_state" where
  "create_embedding E c =
     (case se_embedding c of
        Hashing \<Rightarrow> (\<lambda>texts h. (hashing_embed (re_uni E) (re_blake E) (nat (se_dimensions c)) texts, h))
      | Http_Embedding \<Rightarrow> http_embed (re_transport E) (re_parsers E)
          (mk_http_embedding (se_embedding_url c) (se_embedding_model c) (nat (se_dimensions c))
             (se_embedding_key c) (se_timeout c) (nat (se_attempts c))))"

definition create_reranker ::
  "retrieval_env \<Rightarrow> retrieval_settings
     \<Rightarrow> (pystr \<Rightarrow> retrieval_hit list \<Rightarrow> provider_state \<Rightarrow> (exn + retrieval_hit list) \<times> provider_state) option"
  where
  "create_reranker E c =
     (case se_reranker c of
        No_Reranker \<Rightarrow> None
      | Overlap \<Rightarrow> Some (overlap_rerank (re_uni E))
      | Http_Reranker \<Rightarrow> Some (http_rerank (re_transport E) (re_parsers E)
          \<lparr>hk_url = se_reranker_url c, hk_model = se_reranker_model c, hk_key = se_reranker_key c,
           hk_timeout = se_timeout c, hk_attempts = nat (se_attempts c)\<rparr>))"

definition create_retrieval ::
  "retrieval_env \<Rightarrow> retrieval_settings \<Rightarrow> 's metric_repo \<Rightarrow> ('s, provider_state) retrieval_service" where
  "create_retrieval E c repo =
     \<lparr>rs_uni = re_uni E, rs_pdf = re_pdf E, rs_sha = re_sha E, rs_repo = repo,
      rs_embed = create_embedding E c, rs_reranker = create_reranker E c,
      rs_chunk_max = se_chunk_max c, rs_chunk_overlap = se_chunk_overlap c,
      rs_default_limit = se_result_limit c, rs_rrf_k = se_rrf_k c,
      rs_min_lexical = se_min_lexical c, rs_min_vector = se_min_vector c, rs_limits = se_limits c\<rparr>"

lemma created_reranker: "create_reranker E c = Some rr \<Longrightarrow> reranker rr"
  by (auto simp: create_reranker_def overlap.reranker_axioms cross_encoder.reranker_axioms
      split: reranker_setting.splits)

interpretation offline: retrieval_client "memory_repo (re_uni E)" store_ok tenant_chunks
    "create_retrieval E c (memory_repo (re_uni E))" for E c
  by (intro retrieval_client.intro retrieval_client_axioms.intro mem.metric_repository_axioms)
     (auto simp: create_retrieval_def intro: created_reranker)

section \<open>Histories of a service\<close>

datatype service_call =
    Ingest mint ingestion | Retrieve "real \<times> real" uuid pystr retrieval_mode "int option"

fun serve :: "('s, 'h) retrieval_service \<Rightarrow> service_call \<Rightarrow> ('s, 'h) retrieval_state
     \<Rightarrow> ('s, 'h) retrieval_state" where
  "serve S (Ingest m i) st = snd (ingest S m i st)"
| "serve S (Retrieve clock t q mode lim_arg) st = snd (retrieve S clock t q mode lim_arg st)"

definition new_service :: "retrieval_settings \<Rightarrow> 's \<Rightarrow> 'h \<Rightarrow> ('s, 'h) retrieval_state" where
  "new_service c s h = \<lparr>rt_store = s,
     rt_cache = \<lparr>rc_ttl = se_cache_ttl c, rc_entries = Map.empty\<rparr>, rt_provider = h\<rparr>"

lemma offline_fresh:
  "offline.fresh E (fold (serve (create_retrieval E c (memory_repo (re_uni E)))) calls
      (new_service c empty_store h))"
proof -
  let ?S = "create_retrieval E c (memory_repo (re_uni E))"
  have start: "offline.fresh E (new_service c empty_store h)"
    by (simp add: offline.fresh_def new_service_def store_ok_empty)
  have step: "offline.fresh E (serve ?S call st)" if "offline.fresh E st"
    for call and st :: "(memory_store, provider_state) retrieval_state"
    using that offline.ingest_fresh offline.retrieve_run
    by (cases call) (metis prod.collapse serve.simps)+
  have "offline.fresh E st \<Longrightarrow> offline.fresh E (fold (serve ?S) calls st)"
    for st :: "(memory_store, provider_state) retrieval_state"
    by (induction calls arbitrary: st) (auto simp: step)
  with start show ?thesis by blast
qed

text \<open>
  C11. Whatever was ingested and asked before, and whether it comes from the cache or not, an
  answer of the in-memory service cites only active knowledge: at most the asked-for number of
  hits, each with the content and the citation of a chunk that is active for the asking tenant
  now, and the citations are those of the hits.
\<close>

theorem answers_cite_active_documents:
  assumes "retrieve (create_retrieval E c (memory_repo (re_uni E))) clock t query mode lim_arg
      (fold (serve (create_retrieval E c (memory_repo (re_uni E)))) calls
        (new_service c empty_store h)) = (Inr r, st')"
  shows "\<exists>n. n \<le> 20 \<and> (lim_arg = None \<and> n = se_result_limit c \<or> lim_arg = Some n)
    \<and> answer_over (tenant_chunks (rt_store st') t) n (rr_hits r)
    \<and> rr_query r = squash query \<and> rr_mode r = mode \<and> rr_citations r = map hit_citation (rr_hits r)"
proof -
  from offline.retrieve_run [OF offline_fresh assms] obtain q n where
    n: "checked_query (create_retrieval E c (memory_repo (re_uni E))) query lim_arg = Inr (q, n)"
    and "answer_over (tenant_chunks (rt_store st') t) n (rr_hits r)" "rr_query r = q" "rr_mode r = mode"
      "rr_citations r = map hit_citation (rr_hits r)" by blast
  moreover from n have "q = squash query" "n \<le> 20"
    "lim_arg = None \<and> n = se_result_limit c \<or> lim_arg = Some n"
    by (auto simp: checked_query_def Let_def create_retrieval_def split: if_splits option.splits)
  ultimately show ?thesis by blast
qed

section \<open>Witness\<close>

definition sample_env :: retrieval_env where
  "sample_env = \<lparr>re_uni = ascii_uni, re_pdf = no_pdf, re_sha = (\<lambda>b. replicate 64 48),
     re_blake = (\<lambda>b. replicate 16 0), re_transport = busy_once, re_parsers = plain_parsers\<rparr>"

definition sample_settings :: retrieval_settings where
  "sample_settings = \<lparr>se_embedding = Hashing, se_dimensions = 64, se_embedding_url = lit ''http://e'',
     se_embedding_key = [], se_embedding_model = lit ''m'', se_reranker = No_Reranker,
     se_reranker_url = lit ''http://r'', se_reranker_key = [], se_reranker_model = lit ''m'',
     se_timeout = 20, se_attempts = 3, se_chunk_max = 1200, se_chunk_overlap = 120,
     se_result_limit = 5, se_rrf_k = 60, se_cache_ttl = 300, se_min_lexical = 1 / 20,
     se_min_vector = 1 / 4, se_limits = document_limits\<rparr>"

definition sample_ingestion :: ingestion where
  "sample_ingestion = \<lparr>in_tenant = 7, in_title = lit '' KPI  book'', in_source_name = lit ''docs/kpi.md'',
     in_source_type = MARKDOWN, in_payload = revenue_document\<rparr>"

abbreviation sample_retrieval :: "(memory_store, provider_state) retrieval_service" where
  "sample_retrieval \<equiv> create_retrieval sample_env sample_settings (memory_repo (re_uni sample_env))"

lemma sample_parsed:
  "parsed_chunks sample_retrieval sample_ingestion
     = Inr (lit ''KPI book'', [(hd revenue_sections, 0)])"
proof -
  have "squash (lit '' KPI  book'') = lit ''KPI book''" by code_simp
  moreover have "chunk_sections revenue_sections 1200 120 = Inr [(hd revenue_sections, 0)]" by code_simp
  ultimately show ?thesis
    by (simp add: parsed_chunks_def create_retrieval_def sample_env_def sample_settings_def
        sample_ingestion_def revenue_parsed)
qed

definition ingested_chunk :: "real list \<Rightarrow> metric_chunk" where
  "ingested_chunk v = \<lparr>mc_id = 200, mc_tenant = 7, mc_document = 100, mc_document_title = lit ''KPI book'',
     mc_document_version = 1, mc_key = sec_key (hd revenue_sections),
     mc_section_title = sec_title (hd revenue_sections), mc_locator = sec_locator (hd revenue_sections),
     mc_ordinal = 0, mc_content = sec_content (hd revenue_sections), mc_embedding = v\<rparr>"

lemma sample_ingested:
  "\<exists>v d. serve sample_retrieval (Ingest sample_mint sample_ingestion)
       (new_service sample_settings empty_store fresh_provider)
     = (new_service sample_settings empty_store fresh_provider)\<lparr>rt_store := \<lparr>me_entries =
           [((7, lit ''KPI book''), (d, [ingested_chunk v]))],
         me_revisions = (\<lambda>t. 0)(7 := 1), me_lexical_calls = 0, me_vector_calls = 0\<rparr>\<rparr>"
proof -
  obtain v where v: "embed_one ascii_uni (\<lambda>b. replicate 16 0) 64 (sec_title (hd revenue_sections) @ [10]
      @ sec_content (hd revenue_sections)) = Inr v" "length v = 64"
    using embed_one_Inr by blast
  have len: "1 \<le> length (sec_content (hd revenue_sections))"
    "length (sec_content (hd revenue_sections)) \<le> 10000" by code_simp+
  have hex: "hex64 (replicate 64 48)" by code_simp
  have inv: "invalidate_tenant \<lparr>rc_ttl = 300, rc_entries = Map.empty\<rparr> 7 = \<lparr>rc_ttl = 300, rc_entries = Map.empty\<rparr>"
    by (simp add: invalidate_tenant_def fun_eq_iff)
  let ?init = "new_service sample_settings empty_store fresh_provider"
  let ?pc = "\<lparr>pc_key = sec_key (hd revenue_sections), pc_title = sec_title (hd revenue_sections),
    pc_locator = sec_locator (hd revenue_sections), pc_ordinal = 0,
    pc_content = sec_content (hd revenue_sections), pc_embedding = v\<rparr>"
  let ?rp = "\<lparr>rp_tenant = 7, rp_title = lit ''KPI book'', rp_source_type = MARKDOWN,
    rp_source_name = lit ''docs/kpi.md'', rp_sha256 = replicate 64 48, rp_chunks = [?pc]\<rparr>"
  let ?store = "\<lparr>me_entries = [((7, lit ''KPI book''), (new_document sample_mint ?rp 1, [ingested_chunk v]))],
         me_revisions = (\<lambda>t. 0)(7 := 1), me_lexical_calls = 0, me_vector_calls = 0\<rparr>"
  have init: "rt_store ?init = empty_store" "rt_provider ?init = fresh_provider"
    "rt_cache ?init = \<lparr>rc_ttl = 300, rc_entries = Map.empty\<rparr>"
    by (simp_all add: new_service_def sample_settings_def)
  have e: "rs_embed sample_retrieval (map (\<lambda>(s, n). sec_title s @ [10] @ sec_content s)
      [(hd revenue_sections, 0)]) fresh_provider = (Inr [v], fresh_provider)"
    using v(1) by (simp add: create_retrieval_def create_embedding_def hashing_embed_def
        sample_env_def sample_settings_def)
  have p: "pending_chunks [(hd revenue_sections, 0)] [v] = Inr [?pc]"
    using v(2) len by (simp add: pending_chunks_def pending_of_def mk_pending_def)
  have "mk_metric_chunk (ingested_chunk v) = Inr (ingested_chunk v)"
    using v(2) len by (auto simp: mk_metric_chunk_def ingested_chunk_def)
  moreover have "stored_chunk sample_mint ?rp 1 (0, ?pc) = ingested_chunk v"
    by (simp add: stored_chunk_def ingested_chunk_def sample_mint_def)
  ultimately have r: "memory_replace sample_mint ?rp empty_store = (Inr (new_document sample_mint ?rp 1), ?store)"
    using hex by (simp add: memory_replace_def next_version_def empty_store_def mk_stored_document_def
        new_document_def)
  have fields: "in_tenant sample_ingestion = 7" "in_source_type sample_ingestion = MARKDOWN"
    "in_source_name sample_ingestion = lit ''docs/kpi.md''" "rs_sha sample_retrieval b = replicate 64 48"
    "repo_replace (rs_repo sample_retrieval) = memory_replace" for b
    by (simp_all add: sample_ingestion_def create_retrieval_def sample_env_def memory_repo_def)
  have "ingest sample_retrieval sample_mint sample_ingestion ?init
      = (Inr (new_document sample_mint ?rp 1), ?init\<lparr>rt_store := ?store\<rparr>)"
    unfolding ingest_def sample_parsed sum.case prod.case init e p fields r inv
    by (simp add: new_service_def sample_settings_def)
  then show ?thesis by (intro exI [of _ v] exI [of _ "new_document sample_mint ?rp 1"]) simp
qed

text \<open>The sample store, its one chunk and the ranking of it.\<close>

definition sample_store :: "real list \<Rightarrow> stored_document \<Rightarrow> memory_store" where
  "sample_store v d = \<lparr>me_entries = [((7, lit ''KPI book''), (d, [ingested_chunk v]))],
     me_revisions = (\<lambda>t. 0)(7 := 1), me_lexical_calls = 0, me_vector_calls = 0\<rparr>"

lemma sample_score:
  obtains x where "lexical_score ascii_uni (lit ''revenue'') (ingested_chunk v) = Inr x" "1 \<le> x"
proof -
  have "split_ws (mc_section_title (ingested_chunk v)) = [lit ''Revenue'']"
    "contains (u_lower ascii_uni (lit ''Revenue'')) (u_lower ascii_uni (lit ''revenue''))"
    "u_lower ascii_uni (lit ''Revenue'') \<noteq> []"
    unfolding ingested_chunk_def metric_chunk.simps by code_simp+
  with that show thesis using cosine_counts_nonneg by (auto simp: lexical_score_def Let_def)
qed

lemma sample_ranked:
  assumes "rt_store s = sample_store v d"
  shows "\<exists>h s'. ranked_answer sample_retrieval 7 (lit ''revenue'') Lexical_Mode 5 s = (Inr [h], s')
    \<and> hit_citation h = citation_of (ingested_chunk v)"
proof -
  obtain x where x: "lexical_score ascii_uni (lit ''revenue'') (ingested_chunk v) = Inr x" "1 \<le> x"
    by (rule sample_score)
  let ?h = "\<lparr>hit_content = mc_content (ingested_chunk v), hit_citation = citation_of (ingested_chunk v),
     hit_lexical = Some x, hit_vector = None, hit_fused = x, hit_rerank = None\<rparr>"
  have l: "lexical_part sample_retrieval 7 (lit ''revenue'') Lexical_Mode (candidate_limit 5) s
      = (Inr [\<lparr>rk_chunk = ingested_chunk v, rk_score = x\<rparr>],
         s\<lparr>rt_store := (rt_store s)\<lparr>me_lexical_calls := 1\<rparr>\<rparr>)"
    using assms x by (simp add: lexical_part_def create_retrieval_def sample_env_def memory_repo_def
        memory_lexical_def tenant_chunks_def by_rank_def upto_slice_def candidate_limit_def sample_store_def)
  have h: "rank_hits k [\<lparr>rk_chunk = ingested_chunk v, rk_score = x\<rparr>] [] Lexical_Mode = Inr [?h]" for k
    using x(2) by (simp add: rank_hits_def rank_order_def by_id_def chunk_id_def dict_of_def hit_of_def
        mk_hit_def List.map_filter_def max_def)
  show ?thesis
    unfolding ranked_answer_def l by (simp add: vector_part_def rerank_part_def h)
qed

theorem answers_cite_active_documents_witness:
  "\<exists>r st'. retrieve sample_retrieval (0, 0) 7 (lit ''revenue'') Lexical_Mode None
       (fold (serve sample_retrieval) [Ingest sample_mint sample_ingestion]
         (new_service sample_settings empty_store fresh_provider)) = (Inr r, st')
     \<and> length (rr_hits r) = 1 \<and> length (rr_hits r) \<le> 5
     \<and> map ci_document_title (rr_citations r) = [lit ''KPI book'']"
proof -
  let ?st = "fold (serve sample_retrieval) [Ingest sample_mint sample_ingestion]
         (new_service sample_settings empty_store fresh_provider)"
  obtain v d where st: "?st = (new_service sample_settings empty_store fresh_provider)\<lparr>rt_store := sample_store v d\<rparr>"
    using sample_ingested unfolding sample_store_def by auto
  then have store: "rt_store ?st = sample_store v d" by simp
  obtain h s' where ans: "ranked_answer sample_retrieval 7 (lit ''revenue'') Lexical_Mode 5 ?st = (Inr [h], s')"
    "hit_citation h = citation_of (ingested_chunk v)" using sample_ranked [OF store] by blast
  have "squash (lit ''revenue'') = lit ''revenue''" by code_simp
  then have q: "checked_query sample_retrieval (lit ''revenue'') None = Inr (lit ''revenue'', 5)"
    by (simp add: checked_query_def create_retrieval_def sample_settings_def)
  have rev: "repo_revision (rs_repo sample_retrieval) 7 (rt_store ?st) = Inr (lit ''memory:'' @ str_nat 1)"
    unfolding store by (simp add: create_retrieval_def memory_repo_def memory_revision_def sample_store_def)
  have cache: "cache_get (rt_cache ?st) key now = (None, rt_cache ?st)" for key now
    unfolding st by (simp add: new_service_def cache_get_def)
  have same: "?st\<lparr>rt_cache := rt_cache ?st\<rparr> = ?st" by simp
  obtain r st' where run: "retrieve sample_retrieval (0, 0) 7 (lit ''revenue'') Lexical_Mode None ?st = (Inr r, st')"
    and hits: "rr_hits r = [h]"
    unfolding retrieve_def q rev cache ans(1) same prod.case sum.case option.case fst_conv
    by (simp add: mk_result_def)
  from answers_cite_active_documents [OF run] hits run ans(2) show ?thesis
    by (auto simp: citation_of_def ingested_chunk_def sample_settings_def)
qed

end
