(* ===== verification/Py_Decimal.thy ===== *)
theory Py_Decimal
  imports PyText
begin

text \<open>
  The part of Python's \<open>decimal\<close> that the answers use, under the default context: reading a
  text, comparison, subtraction, division, \<open>abs\<close>, \<open>normalize\<close> and the formats \<open>f\<close> and \<open>.2f\<close>.
  A finite decimal is a coefficient and an exponent of ten; the sign of a zero is dropped, no
  text of the program shows it. Results are rounded half-even to 28 digits.
\<close>

section \<open>Values\<close>

record decimal =
  dc_coeff :: int
  dc_exp :: int

datatype decimal_text = Finite_Decimal decimal | Not_Finite

definition digit_count :: "nat \<Rightarrow> int" where
  "digit_count n = int (length (str_nat n))"

definition adjusted :: "decimal \<Rightarrow> int" where
  "adjusted d = dc_exp d + digit_count (nat \<bar>dc_coeff d\<bar>) - 1"

section \<open>Reading a text\<close>

text \<open>
  Outer space and underscores are dropped, decimal digits of any script become ASCII digits,
  any other character outside ASCII makes the text no number.
\<close>

definition ascii_of :: "unidata \<Rightarrow> nat \<Rightarrow> nat option" where
  "ascii_of U c = (if 0 < c \<and> c < 128 then Some c
     else if is_space c then Some 32 else map_option (\<lambda>d. 48 + d) (u_decimal U c))"

definition number_text :: "unidata \<Rightarrow> pystr \<Rightarrow> pystr option" where
  "number_text U s = (let cs = map (ascii_of U) (filter (\<lambda>c. c \<noteq> 95) (strip s)) in
     if None \<in> set cs then None else Some (map the cs))"

text \<open>An optional sign: whether it is a minus, and the rest.\<close>

fun signed :: "pystr \<Rightarrow> bool \<times> pystr" where
  "signed (c # s) = (if c = 43 then (False, s) else if c = 45 then (True, s) else (False, c # s))"
| "signed [] = (False, [])"

definition all_digits :: "pystr \<Rightarrow> bool" where
  "all_digits s \<longleftrightarrow> s \<noteq> [] \<and> list_all ascii_digit s"

fun exponent_of :: "pystr \<Rightarrow> int option" where
  "exponent_of [] = Some 0"
| "exponent_of (c # s) = (if c = 101 \<or> c = 69 then (case signed s of (neg, ds) \<Rightarrow>
       if all_digits ds then Some ((if neg then - 1 else 1) * int (digits_value ds)) else None)
     else None)"

text \<open>The digits before and after the point, and what follows them.\<close>

definition point_parts :: "pystr \<Rightarrow> pystr \<times> pystr \<times> pystr" where
  "point_parts s = (let whole = takeWhile ascii_digit s; r = dropWhile ascii_digit s in
     if r \<noteq> [] \<and> hd r = 46
     then (whole, takeWhile ascii_digit (tl r), dropWhile ascii_digit (tl r)) else (whole, [], r))"

definition is_special :: "pystr \<Rightarrow> bool" where
  "is_special s = (let t = map ascii_lower1 s in t = lit ''inf'' \<or> t = lit ''infinity''
     \<or> (\<exists>p \<in> {lit ''nan'', lit ''snan''}. starts_with p t \<and> list_all ascii_digit (drop (length p) t)))"

text \<open>
  \<open>Decimal(s)\<close>; \<open>None\<close> is \<open>InvalidOperation\<close>, also for an exponent the library cannot hold.
\<close>

definition decimal_of_text :: "unidata \<Rightarrow> pystr \<Rightarrow> decimal_text option" where
  "decimal_of_text U s = (case number_text U s of None \<Rightarrow> None
   | Some t \<Rightarrow> (case signed t of (neg, u) \<Rightarrow>
       if is_special u then Some Not_Finite
       else (case point_parts u of (whole, decimals, rest) \<Rightarrow>
         (case exponent_of rest of None \<Rightarrow> None
          | Some e \<Rightarrow>
             (let d = \<lparr>dc_coeff = (if neg then - 1 else 1) * int (digits_value (whole @ decimals)),
                       dc_exp = e - int (length decimals)\<rparr> in
              if whole @ decimals = [] \<or> adjusted d > 999999999999999999
                 \<or> dc_exp d < - 1999999999999999997
              then None else Some (Finite_Decimal d))))))"

section \<open>Arithmetic\<close>

definition scaled :: "decimal \<Rightarrow> int \<Rightarrow> int" where
  "scaled d e = dc_coeff d * 10 ^ nat (dc_exp d - e)"

definition dec_less :: "decimal \<Rightarrow> decimal \<Rightarrow> bool" where
  "dec_less a b = (let e = min (dc_exp a) (dc_exp b) in scaled a e < scaled b e)"

text \<open>Dropping \<open>k\<close> digits of a coefficient, half to even.\<close>

definition drop_digits :: "nat \<Rightarrow> int \<Rightarrow> int" where
  "drop_digits k c = (let q = \<bar>c\<bar> div 10 ^ k; r = 2 * (\<bar>c\<bar> mod 10 ^ k) in
     sgn c * (if r > 10 ^ k \<or> r = 10 ^ k \<and> odd q then q + 1 else q))"

text \<open>
  Rounding to the context: 28 digits, least exponent -1000026, and \<open>Overflow\<close> above
  adjusted exponent 999999.
\<close>

definition rounded :: "decimal \<Rightarrow> decimal" where
  "rounded d = (let e = max (adjusted d - 27) (- 1000026) in
     if dc_coeff d = 0 \<or> dc_exp d \<ge> e then d
     else \<lparr>dc_coeff = drop_digits (nat (e - dc_exp d)) (dc_coeff d), dc_exp = e\<rparr>)"

definition fix_dec :: "'e \<Rightarrow> decimal \<Rightarrow> 'e + decimal" where
  "fix_dec err d = (let r = rounded d in
     if dc_coeff r \<noteq> 0 \<and> adjusted r > 999999 then Inl err else Inr r)"

definition dec_sub :: "'e \<Rightarrow> decimal \<Rightarrow> decimal \<Rightarrow> 'e + decimal" where
  "dec_sub err a b = (let e = min (dc_exp a) (dc_exp b) in
     fix_dec err \<lparr>dc_coeff = scaled a e - scaled b e, dc_exp = e\<rparr>)"

text \<open>
  The quotient by a non-zero number: one digit more than the context keeps, the last of them
  made sticky where the division has a rest.
\<close>

definition dec_div :: "'e \<Rightarrow> decimal \<Rightarrow> decimal \<Rightarrow> 'e + decimal" where
  "dec_div err a b =
     (let n = \<bar>dc_coeff a\<bar>; m = \<bar>dc_coeff b\<bar>;
          k = max 0 (digit_count (nat m) - digit_count (nat n) + 29);
          q = n * 10 ^ nat k div m; r = n * 10 ^ nat k mod m in
      fix_dec err \<lparr>dc_coeff = sgn (dc_coeff a) * sgn (dc_coeff b)
           * (if r \<noteq> 0 \<and> 5 dvd q then q + 1 else q),
         dc_exp = dc_exp a - dc_exp b - k\<rparr>)"

definition dec_mul :: "'e \<Rightarrow> decimal \<Rightarrow> int \<Rightarrow> 'e + decimal" where
  "dec_mul err a i = fix_dec err (a\<lparr>dc_coeff := dc_coeff a * i\<rparr>)"

definition dec_abs :: "'e \<Rightarrow> decimal \<Rightarrow> 'e + decimal" where
  "dec_abs err a = fix_dec err (a\<lparr>dc_coeff := \<bar>dc_coeff a\<bar>\<rparr>)"

section \<open>Texts\<close>

function strip_zeros :: "decimal \<Rightarrow> decimal" where
  "strip_zeros d = (if dc_coeff d = 0 then \<lparr>dc_coeff = 0, dc_exp = 0\<rparr>
     else if 10 dvd dc_coeff d
     then strip_zeros \<lparr>dc_coeff = dc_coeff d div 10, dc_exp = dc_exp d + 1\<rparr> else d)"
  by pat_completeness auto

termination
proof (relation "measure (\<lambda>d. nat \<bar>dc_coeff d\<bar>)")
  fix d :: decimal assume "dc_coeff d \<noteq> 0" and "10 dvd dc_coeff d"
  then obtain k where "dc_coeff d = 10 * k" "k \<noteq> 0" by (auto elim: dvdE)
  then show "(\<lparr>dc_coeff = dc_coeff d div 10, dc_exp = dc_exp d + 1\<rparr>, d)
      \<in> measure (\<lambda>d. nat \<bar>dc_coeff d\<bar>)"
    by simp
qed simp

declare strip_zeros.simps [simp del]

definition dec_normalize :: "'e \<Rightarrow> decimal \<Rightarrow> 'e + decimal" where
  "dec_normalize err d = (case fix_dec err d of Inl e \<Rightarrow> Inl e | Inr r \<Rightarrow> Inr (strip_zeros r))"

text \<open>\<open>format(d, "f")\<close> of a number that is not negative, and \<open>format(d, ".2f")\<close>.\<close>

definition format_f :: "decimal \<Rightarrow> pystr" where
  "format_f d =
     (if 0 \<le> dc_exp d then str_nat (nat (dc_coeff d) * 10 ^ nat (dc_exp d))
      else (let k = nat (- dc_exp d); s = str_nat (nat (dc_coeff d));
                t = replicate (Suc k - length s) 48 @ s in
            take (length t - k) t @ 46 # drop (length t - k) t))"

definition format_2f :: "decimal \<Rightarrow> pystr" where
  "format_2f d = format_f
     (if dc_exp d \<ge> - 2 then \<lparr>dc_coeff = scaled d (- 2), dc_exp = - 2\<rparr>
      else \<lparr>dc_coeff = drop_digits (nat (- 2 - dc_exp d)) (dc_coeff d), dc_exp = - 2\<rparr>)"

section \<open>Lemmas\<close>

text \<open>The value of a decimal.\<close>

definition dec_value :: "decimal \<Rightarrow> real" where
  "dec_value d = of_int (dc_coeff d) * 10 powi dc_exp d"

lemma scaled_value: "e \<le> dc_exp d \<Longrightarrow> of_int (scaled d e) * 10 powi e = dec_value d"
  by (simp add: scaled_def dec_value_def mult.assoc flip: power_int_add power_int_of_nat)

lemma dec_less_value: "dec_less a b \<longleftrightarrow> dec_value a < dec_value b"
proof -
  define e where "e = min (dc_exp a) (dc_exp b)"
  have v: "dec_value a = of_int (scaled a e) * 10 powi e" "dec_value b = of_int (scaled b e) * 10 powi e"
    by (simp_all add: scaled_value e_def)
  have "0 < (10 :: real) powi e" by simp
  then show ?thesis by (simp add: v dec_less_def flip: e_def)
qed

text \<open>Texts of digits and points are read character by character.\<close>

lemma digits_value_append: "digits_value (a @ b) = digits_value a * 10 ^ length b + digits_value b"
proof (induction b rule: rev_induct)
  case (snoc c b)
  then show ?case by (simp add: digits_value_def algebra_simps flip: append_assoc)
qed (simp add: digits_value_def)

lemma digits_value_zeros [simp]: "digits_value (replicate n 48 @ s) = digits_value s"
  by (induction n) (simp_all add: digits_value_def)

definition plain_char :: "nat \<Rightarrow> bool" where
  "plain_char c \<longleftrightarrow> ascii_digit c \<or> c = 46"

lemma strip_plain: "list_all plain_char s \<Longrightarrow> strip s = s"
proof -
  assume p: "list_all plain_char s"
  have h: "dropWhile is_space u = u" if "list_all plain_char u" for u
    using that by (cases u) (auto simp: plain_char_def ascii_digit_def is_space_def)
  from p have "list_all plain_char (rev s)" by simp
  with p show ?thesis by (simp add: strip_def lstrip_def rstrip_def h)
qed

lemma number_text_plain: "list_all plain_char s \<Longrightarrow> number_text U s = Some s"
proof -
  assume p: "list_all plain_char s"
  then have "filter (\<lambda>c. c \<noteq> 95) s = s" "map (ascii_of U) s = map Some s"
    by (auto simp: filter_id_conv list_all_iff plain_char_def ascii_digit_def ascii_of_def)
  with strip_plain [OF p] show ?thesis
    by (auto simp: number_text_def comp_def intro: map_idI)
qed

lemma takeWhile_digits:
  assumes "list_all ascii_digit a" and "b = [] \<or> \<not> ascii_digit (hd b)"
  shows "takeWhile ascii_digit (a @ b) = a" "dropWhile ascii_digit (a @ b) = b"
  using assms by (induction a) (cases b; simp)+

lemma point_parts_digits:
  assumes "list_all ascii_digit a" "list_all ascii_digit b"
  shows "point_parts (a @ 46 # b) = (a, b, [])" "point_parts a = (a, [], [])"
proof -
  have n: "\<not> ascii_digit 46" by (simp add: ascii_digit_def)
  then have "takeWhile ascii_digit (a @ 46 # b) = a" "dropWhile ascii_digit (a @ 46 # b) = 46 # b"
    using takeWhile_digits [OF assms(1), of "46 # b"] by simp_all
  moreover have "takeWhile ascii_digit b = b" "dropWhile ascii_digit b = []"
    "takeWhile ascii_digit a = a" "dropWhile ascii_digit a = []"
    using takeWhile_digits [OF assms(2), of "[]"] takeWhile_digits [OF assms(1), of "[]"] by simp_all
  ultimately show "point_parts (a @ 46 # b) = (a, b, [])" "point_parts a = (a, [], [])"
    by (simp_all add: point_parts_def)
qed

lemma not_special_digit: "ascii_digit (hd s) \<Longrightarrow> s \<noteq> [] \<Longrightarrow> \<not> is_special s"
  by (cases s) (auto simp: is_special_def ascii_digit_def ascii_lower1_def lit_def starts_with_iff)

lemma signed_digit: "ascii_digit (hd s) \<Longrightarrow> s \<noteq> [] \<Longrightarrow> signed s = (False, s)"
  by (cases s) (auto simp: ascii_digit_def)

text \<open>What the library can hold of a number that is not negative, and reading it back.\<close>

definition holdable :: "decimal \<Rightarrow> bool" where
  "holdable d \<longleftrightarrow> 0 \<le> dc_coeff d \<and> adjusted d \<le> 999999999999999999
     \<and> - 1999999999999999997 \<le> dc_exp d"

lemma str_nat_all_digits: "list_all ascii_digit (str_nat n)"
  using str_nat_digits by (auto simp: list_all_iff)

lemma decimal_of_plain:
  assumes "list_all ascii_digit a" "a \<noteq> []" "list_all ascii_digit b"
    and "d = \<lparr>dc_coeff = int (digits_value (a @ b)), dc_exp = - int (length b)\<rparr>" "holdable d"
    and "s = (if b = [] then a else a @ 46 # b)"
  shows "decimal_of_text U s = Some (Finite_Decimal d)"
proof -
  have "list_all plain_char s"
    using assms(1,3) unfolding assms(6) by (auto simp: plain_char_def list_all_iff)
  then have n: "number_text U s = Some s" by (rule number_text_plain)
  from assms(1,2) have h: "ascii_digit (hd s)" "s \<noteq> []"
    unfolding assms(6) by (cases a; simp)+
  have p: "point_parts s = (a, b, [])"
    unfolding assms(6) using point_parts_digits [OF assms(1,3)] by simp
  show ?thesis
    using n p h not_special_digit signed_digit assms(2,4,5)
    by (simp add: decimal_of_text_def Let_def holdable_def not_less)
qed

lemma format_f_reads_back:
  assumes "holdable d" "dc_exp d \<le> 0"
  shows "decimal_of_text U (format_f d) = Some (Finite_Decimal d)"
proof (cases "dc_exp d = 0")
  case True
  show ?thesis
    by (rule decimal_of_plain [of "str_nat (nat (dc_coeff d))" "[]"])
       (use assms True in \<open>simp_all add: str_nat_all_digits format_f_def holdable_def\<close>)
next
  case False
  define k where "k = nat (- dc_exp d)"
  define t where "t = replicate (Suc k - length (str_nat (nat (dc_coeff d)))) 48
    @ str_nat (nat (dc_coeff d))"
  define a b where "a = take (length t - k) t" and "b = drop (length t - k) t"
  have k: "0 < k" "dc_exp d = - int k" using assms(2) False by (simp_all add: k_def)
  have len: "k < length t" by (simp add: t_def)
  have dig: "list_all ascii_digit t"
    using str_nat_all_digits by (auto simp: t_def list_all_iff ascii_digit_def)
  then have ab: "list_all ascii_digit a" "list_all ascii_digit b"
    by (auto simp: a_def b_def list_all_iff dest: in_set_takeD in_set_dropD)
  have ne: "a \<noteq> []" "b \<noteq> []" "length b = k" "a @ b = t"
    using len k by (auto simp: a_def b_def)
  have "digits_value (a @ b) = nat (dc_coeff d)" by (simp add: ne t_def)
  moreover have "format_f d = a @ 46 # b"
    using assms(2) False by (simp add: format_f_def Let_def a_def b_def t_def k_def)
  ultimately show ?thesis
    by (intro decimal_of_plain [OF ab(1) ne(1) ab(2)])
       (use assms k ne in \<open>auto simp: holdable_def\<close>)
qed

text \<open>Rounding leaves short numbers alone, and removing zeros keeps the value.\<close>

lemma fix_dec_short:
  assumes "digit_count (nat \<bar>dc_coeff d\<bar>) \<le> 28" "- 1000026 \<le> dc_exp d" "fix_dec err d = Inr r"
  shows "r = d"
  using assms by (auto simp: fix_dec_def rounded_def adjusted_def Let_def split: if_splits)

lemma digit_count_step: "10 \<le> n \<Longrightarrow> digit_count n = digit_count (n div 10) + 1"
  by (subst (1) digit_count_def, subst str_nat.simps) (simp add: digit_count_def)

lemma digit_count_pos: "1 \<le> digit_count n"
  using str_nat_nonempty [of n] by (cases "str_nat n") (simp_all add: digit_count_def)

lemma strip_zeros_keeps:
  "dec_value (strip_zeros d) = dec_value d
   \<and> (dc_coeff d \<noteq> 0 \<longrightarrow> adjusted (strip_zeros d) = adjusted d \<and> dc_exp d \<le> dc_exp (strip_zeros d)
       \<and> dc_coeff (strip_zeros d) \<noteq> 0)
   \<and> (0 \<le> dc_coeff d \<longrightarrow> 0 \<le> dc_coeff (strip_zeros d))"
proof (induction d rule: strip_zeros.induct)
  case (1 d)
  show ?case
  proof (cases "dc_coeff d \<noteq> 0 \<and> 10 dvd dc_coeff d")
    case True
    then obtain k where k: "dc_coeff d = 10 * k" "k \<noteq> 0" by (auto elim: dvdE)
    define d' where "d' = \<lparr>dc_coeff = k, dc_exp = dc_exp d + 1\<rparr>"
    from k have s: "strip_zeros d = strip_zeros d'"
      by (subst strip_zeros.simps) (simp add: d'_def)
    have "digit_count (nat \<bar>10 * k\<bar>) = digit_count (nat \<bar>10 * k\<bar> div 10) + 1"
      using k(2) by (intro digit_count_step) simp
    moreover have "nat \<bar>10 * k\<bar> div 10 = nat \<bar>k\<bar>" by (simp add: nat_mult_distrib abs_mult)
    ultimately have "adjusted d' = adjusted d" by (simp add: adjusted_def d'_def k)
    moreover have "dec_value d' = dec_value d"
      by (simp add: dec_value_def d'_def k power_int_add)
    ultimately show ?thesis using 1 True k s by (simp add: d'_def)
  next
    case False
    then show ?thesis
      by (subst (1 2 3 4 5) strip_zeros.simps) (auto simp: dec_value_def)
  qed
qed

lemma digit_count_bound: "n < 10 ^ k \<Longrightarrow> 0 < k \<Longrightarrow> digit_count n \<le> int k"
proof (induction k arbitrary: n)
  case (Suc k)
  show ?case
  proof (cases "n < 10")
    case True
    then show ?thesis by (subst digit_count_def, subst str_nat.simps) simp
  next
    case False
    with Suc.prems have "n div 10 < 10 ^ k" "0 < k" by (auto intro: less_mult_imp_div_less gr0I)
    from Suc.IH [OF this] digit_count_step [of n] False show ?thesis by simp
  qed
qed simp

lemma digit_count_shift: "0 < n \<Longrightarrow> digit_count (n * 10 ^ k) = digit_count n + int k"
proof (induction k)
  case (Suc k)
  then have "digit_count (n * 10 ^ Suc k) = digit_count (n * 10 ^ Suc k div 10) + 1"
    by (intro digit_count_step) (simp add: Suc_leI)
  with Suc show ?case by simp
qed simp

lemma format_f_value:
  assumes "holdable d"
  shows "\<exists>r. decimal_of_text U (format_f d) = Some (Finite_Decimal r) \<and> dec_value r = dec_value d"
proof (cases "dc_exp d \<le> 0")
  case True
  with format_f_reads_back [OF assms] show ?thesis by blast
next
  case False
  define r where "r = \<lparr>dc_coeff = dc_coeff d * 10 ^ nat (dc_exp d), dc_exp = 0\<rparr>"
  have "dec_value r = dec_value d"
    using scaled_value [of 0 d] False by (simp add: r_def scaled_def dec_value_def)
  moreover have "format_f d = format_f r"
    using False assms by (simp add: format_f_def r_def nat_mult_distrib holdable_def nat_power_eq)
  moreover have "holdable r"
  proof (cases "dc_coeff d = 0")
    case True
    then show ?thesis by (simp add: holdable_def r_def adjusted_def digit_count_def str_nat.simps)
  next
    case nz: False
    with assms False have "digit_count (nat (dc_coeff d) * 10 ^ nat (dc_exp d))
        = digit_count (nat (dc_coeff d)) + dc_exp d"
      by (subst digit_count_shift) (auto simp: holdable_def)
    with assms False show ?thesis
      by (auto simp: holdable_def r_def adjusted_def nat_mult_distrib nat_power_eq)
  qed
  ultimately show ?thesis using format_f_reads_back [of r] by (auto simp: r_def)
qed

text \<open>A difference that fits the context, printed without a sign, reads back as its size.\<close>

definition fits_context :: "decimal \<Rightarrow> decimal \<Rightarrow> bool" where
  "fits_context a b \<longleftrightarrow> (let e = min (dc_exp a) (dc_exp b) in
     digit_count (nat \<bar>scaled a e - scaled b e\<bar>) \<le> 28 \<and> - 1000026 \<le> e)"

lemma difference_exact:
  assumes "dec_sub err a b = Inr c" "fits_context a b"
  shows "dec_value c = dec_value a - dec_value b" "digit_count (nat \<bar>dc_coeff c\<bar>) \<le> 28"
    "- 1000026 \<le> dc_exp c" "dc_coeff c \<noteq> 0 \<Longrightarrow> adjusted c \<le> 999999"
proof -
  define e where "e = min (dc_exp a) (dc_exp b)"
  define d where "d = \<lparr>dc_coeff = scaled a e - scaled b e, dc_exp = e\<rparr>"
  from assms have f: "fix_dec err d = Inr c" "digit_count (nat \<bar>dc_coeff d\<bar>) \<le> 28" "- 1000026 \<le> dc_exp d"
    by (simp_all add: dec_sub_def fits_context_def Let_def d_def e_def)
  from fix_dec_short [OF f(2,3,1)] have c: "c = d" .
  show "dec_value c = dec_value a - dec_value b"
    using scaled_value [of e a] scaled_value [of e b]
    by (simp add: c d_def dec_value_def e_def left_diff_distrib)
  show "digit_count (nat \<bar>dc_coeff c\<bar>) \<le> 28" "- 1000026 \<le> dc_exp c" using f c by simp_all
  show "adjusted c \<le> 999999" if "dc_coeff c \<noteq> 0"
    using f(1) that unfolding fix_dec_def Let_def by (auto split: if_splits)
qed

text \<open>Rounding to 28 digits keeps the sign: the leading digit stays.\<close>

lemma digit_count_lower: "0 < n \<Longrightarrow> 10 ^ nat (digit_count n - 1) \<le> n"
proof (induction n rule: less_induct)
  case (less n)
  show ?case
  proof (cases "n < 10")
    case True
    then have "digit_count n = 1" by (subst digit_count_def, subst str_nat.simps) simp
    with less.prems show ?thesis by simp
  next
    case False
    define k where "k = nat (digit_count (n div 10) - 1)"
    from False have "10 ^ k \<le> n div 10" unfolding k_def by (intro less.IH) simp_all
    moreover have "nat (digit_count n - 1) = Suc k"
      using digit_count_step [of n] digit_count_pos [of "n div 10"] False by (simp add: k_def)
    ultimately show ?thesis by simp
  qed
qed

lemma drop_digits_sgn: "10 ^ k \<le> \<bar>c\<bar> \<Longrightarrow> sgn (drop_digits k c) = sgn c"
proof -
  assume "10 ^ k \<le> \<bar>c\<bar>"
  then have "0 < \<bar>c\<bar> div 10 ^ k" by (simp add: pos_imp_zdiv_pos_iff)
  then show ?thesis by (simp add: drop_digits_def Let_def sgn_mult)
qed

lemma rounded_sgn:
  assumes "- 1000026 \<le> dc_exp d"
  shows "sgn (dc_coeff (rounded d)) = sgn (dc_coeff d)"
proof (cases "dc_coeff d = 0 \<or> dc_exp d \<ge> max (adjusted d - 27) (- 1000026)")
  case True
  then show ?thesis by (auto simp: rounded_def Let_def)
next
  case False
  define n where "n = nat \<bar>dc_coeff d\<bar>"
  define k where "k = nat (adjusted d - 27 - dc_exp d)"
  from False assms have c: "dc_coeff d \<noteq> 0" and e: "max (adjusted d - 27) (- 1000026) = adjusted d - 27"
    and less: "dc_exp d < adjusted d - 27" by auto
  have "k \<le> nat (digit_count n - 1)" by (simp add: k_def n_def adjusted_def)
  then have "(10 :: nat) ^ k \<le> 10 ^ nat (digit_count n - 1)" by (rule power_increasing) simp
  also have "\<dots> \<le> n" by (rule digit_count_lower) (use c in \<open>simp add: n_def\<close>)
  finally have "10 ^ k \<le> \<bar>dc_coeff d\<bar>" by (simp add: n_def flip: of_nat_le_iff)
  from drop_digits_sgn [OF this] c e less show ?thesis by (simp add: rounded_def Let_def k_def)
qed

lemma dec_value_sgn: "0 < dc_coeff d \<longleftrightarrow> 0 < dec_value d" "dc_coeff d < 0 \<longleftrightarrow> dec_value d < 0"
proof -
  have p: "(0 :: real) < 10 powi dc_exp d" by simp
  then have "\<not> (10 :: real) powi dc_exp d < 0" by (rule less_not_sym)
  with p show "0 < dc_coeff d \<longleftrightarrow> 0 < dec_value d" "dc_coeff d < 0 \<longleftrightarrow> dec_value d < 0"
    by (auto simp: dec_value_def zero_less_mult_iff mult_less_0_iff)
qed

lemma difference_sign:
  assumes "dec_sub err a b = Inr c" and "- 1000026 \<le> dc_exp a" "- 1000026 \<le> dc_exp b"
  shows "0 < dc_coeff c \<longleftrightarrow> dec_value b < dec_value a" "dc_coeff c < 0 \<longleftrightarrow> dec_value a < dec_value b"
proof -
  define e where "e = min (dc_exp a) (dc_exp b)"
  define d where "d = \<lparr>dc_coeff = scaled a e - scaled b e, dc_exp = e\<rparr>"
  from assms(1) have "c = rounded d"
    by (simp add: dec_sub_def fix_dec_def Let_def d_def e_def split: if_splits)
  moreover have "sgn (dc_coeff (rounded d)) = sgn (dc_coeff d)"
    by (rule rounded_sgn) (use assms in \<open>simp add: d_def e_def\<close>)
  ultimately have s: "sgn (dc_coeff c) = sgn (dc_coeff d)" by simp
  have "dec_value d = dec_value a - dec_value b"
    using scaled_value [of e a] scaled_value [of e b] by (simp add: d_def dec_value_def e_def left_diff_distrib)
  with s dec_value_sgn [of d] show "0 < dc_coeff c \<longleftrightarrow> dec_value b < dec_value a"
    "dc_coeff c < 0 \<longleftrightarrow> dec_value a < dec_value b"
    by (metis diff_gt_0_iff_gt sgn_greater, metis diff_less_0_iff_less sgn_less)
qed

lemma printed_size_exact:
  assumes "dec_abs err c = Inr c1" "dec_normalize err c1 = Inr d"
    and "digit_count (nat \<bar>dc_coeff c\<bar>) \<le> 28" "- 1000026 \<le> dc_exp c"
    and "dc_coeff c \<noteq> 0 \<Longrightarrow> adjusted c \<le> 999999"
  shows "\<exists>r. decimal_of_text U (format_f d) = Some (Finite_Decimal r) \<and> dec_value r = \<bar>dec_value c\<bar>"
proof -
  have c1: "c1 = c\<lparr>dc_coeff := \<bar>dc_coeff c\<bar>\<rparr>"
    by (rule fix_dec_short [of _ err]) (use assms in \<open>simp_all add: dec_abs_def\<close>)
  from assms(2) obtain c2 where c2: "fix_dec err c1 = Inr c2" "d = strip_zeros c2"
    by (auto simp: dec_normalize_def split: sum.splits)
  have c2': "c2 = c1" by (rule fix_dec_short [OF _ _ c2(1)]) (use assms c1 in simp_all)
  note k = strip_zeros_keeps [of c2]
  have "dec_value d = \<bar>dec_value c\<bar>"
    using k c2 c2' by (simp add: c1 dec_value_def abs_mult)
  moreover have "holdable d"
  proof (cases "dc_coeff c = 0")
    case True
    then have "d = \<lparr>dc_coeff = 0, dc_exp = 0\<rparr>"
      unfolding c2(2) c2' c1 by (subst strip_zeros.simps) simp
    then show ?thesis by (simp add: holdable_def adjusted_def digit_count_def str_nat.simps)
  next
    case False
    with k c2 c2' c1 assms(4,5) show ?thesis by (auto simp: holdable_def adjusted_def)
  qed
  ultimately show ?thesis using format_f_value [of d U] by auto
qed

end
