(* ===== verification/Answering.thy ===== *)
theory Answering
  imports Agent_State Py_Decimal
begin

text \<open>
  What the workflow says about a result: \<open>agent/answering.py\<close>, which describes the rows without
  drawing conclusions, and \<open>agent/charting.py\<close>, which chooses a chart. The texts are those of the
  source, as code points; \<open>str\<close> of a \<open>float\<close>, a list or a dictionary is an argument.
\<close>

section \<open>Cells as texts and numbers\<close>

type_synonym py_repr = "json \<Rightarrow> pystr"

fun py_str :: "py_repr \<Rightarrow> json \<Rightarrow> pystr" where
  "py_str R JNull = lit ''None''"
| "py_str R (JBool b) = (if b then lit ''True'' else lit ''False'')"
| "py_str R (JInt i) = str_int i"
| "py_str R (JStr s) = s"
| "py_str R v = R v"

text \<open>\<open>row.get(column)\<close>\<close>

definition cell_of :: "row \<Rightarrow> pystr \<Rightarrow> json" where
  "cell_of r c = (case map_of r c of None \<Rightarrow> JNull | Some v \<Rightarrow> v)"

definition finite_decimal :: "unidata \<Rightarrow> pystr \<Rightarrow> decimal option" where
  "finite_decimal U s = (case decimal_of_text U s of Some (Finite_Decimal d) \<Rightarrow> Some d | _ \<Rightarrow> None)"

text \<open>\<open>_number\<close>\<close>

definition cell_number :: "unidata \<Rightarrow> py_repr \<Rightarrow> json \<Rightarrow> decimal option" where
  "cell_number U R v = (case v of JNull \<Rightarrow> None | JBool b \<Rightarrow> None
     | _ \<Rightarrow> finite_decimal U (py_str R v))"

definition has_marker :: "unidata \<Rightarrow> pystr list \<Rightarrow> pystr \<Rightarrow> bool" where
  "has_marker U markers column \<longleftrightarrow> list_ex (\<lambda>m. contains m (u_lower U column)) markers"

definition cjk_periods :: "pystr list" where
  "cjk_periods = [[24180, 20221], [26376, 20221], [23395, 24230], [26085, 26399]]"

definition dimension_markers :: "pystr list" where
  "dimension_markers = map lit [''_id'', ''id_'', ''year'', ''month'', ''quarter'', ''date'', ''time'',
     ''rank''] @ cjk_periods"

definition period_markers :: "pystr list" where
  "period_markers = map lit [''year'', ''month'', ''quarter'', ''date''] @ cjk_periods"

section \<open>Pieces of a description\<close>

definition cell_text :: "py_repr \<Rightarrow> json \<Rightarrow> pystr" where
  "cell_text R v = take 80 (squash (py_str R v))"

definition field_text :: "py_repr \<Rightarrow> row \<Rightarrow> pystr \<Rightarrow> pystr" where
  "field_text R r c = c @ lit ''='' @ cell_text R (cell_of r c)"

definition row_label :: "py_repr \<Rightarrow> pystr list \<Rightarrow> row \<Rightarrow> pystr \<Rightarrow> pystr" where
  "row_label R columns r metric =
     (let ds = map (field_text R r) (filter (\<lambda>c. c \<noteq> metric) columns) in
      if ds = [] then [] else join [12289] (take 2 ds) @ [30340])"

definition first_row :: "py_repr \<Rightarrow> pystr list \<Rightarrow> row \<Rightarrow> pystr" where
  "first_row R columns r =
     (let fields = join [12289] (map (field_text R r) (take 3 columns)) in
      if fields = [] then [] else [39318, 34892, 65306] @ fields @ [12290])"

definition row_count_text :: "row list \<Rightarrow> pystr" where
  "row_count_text rows = [26597, 35810, 36820, 22238] @ lit '' '' @ str_nat (length rows) @ lit '' '' @ [34892]"

definition metric_text :: "py_repr \<Rightarrow> pystr list \<Rightarrow> pystr \<Rightarrow> row \<Rightarrow> pystr" where
  "metric_text R columns metric r =
     row_label R columns r metric @ metric @ [20026] @ lit '' '' @ cell_text R (cell_of r metric)"

text \<open>The first column that is no dimension and has a number in every row.\<close>

definition metric_of :: "unidata \<Rightarrow> py_repr \<Rightarrow> pystr list \<Rightarrow> row list \<Rightarrow> pystr option" where
  "metric_of U R columns rows = List.find (\<lambda>c. \<not> has_marker U dimension_markers c
     \<and> list_all (\<lambda>r. cell_number U R (cell_of r c) \<noteq> None) rows) columns"

text \<open>\<open>max\<close> and \<open>min\<close> with a key: the first row that no later one beats.\<close>

definition row_key :: "unidata \<Rightarrow> py_repr \<Rightarrow> pystr \<Rightarrow> row \<Rightarrow> decimal" where
  "row_key U R metric r = (case cell_number U R (cell_of r metric) of
     None \<Rightarrow> \<lparr>dc_coeff = 0, dc_exp = 0\<rparr> | Some d \<Rightarrow> d)"

definition best_row :: "(row \<Rightarrow> row \<Rightarrow> bool) \<Rightarrow> row list \<Rightarrow> row" where
  "best_row beats rows = foldl (\<lambda>best r. if beats r best then r else best) (hd rows) (tl rows)"

definition highest_row :: "unidata \<Rightarrow> py_repr \<Rightarrow> pystr \<Rightarrow> row list \<Rightarrow> row" where
  "highest_row U R m = best_row (\<lambda>a b. dec_less (row_key U R m b) (row_key U R m a))"

definition lowest_row :: "unidata \<Rightarrow> py_repr \<Rightarrow> pystr \<Rightarrow> row list \<Rightarrow> row" where
  "lowest_row U R m = best_row (\<lambda>a b. dec_less (row_key U R m a) (row_key U R m b))"

section \<open>The change between periods\<close>

definition decimal_overflow :: exn where
  "decimal_overflow = Py (OtherError (lit ''Overflow''))"

text \<open>\<open>tuple(str(row.get(column, "")) for column in periods)\<close>\<close>

definition period_key :: "py_repr \<Rightarrow> pystr list \<Rightarrow> row \<Rightarrow> pystr list" where
  "period_key R periods r =
     map (\<lambda>c. case map_of r c of None \<Rightarrow> [] | Some v \<Rightarrow> py_str R v) periods"

definition relative_text :: "decimal \<Rightarrow> decimal \<Rightarrow> exn + pystr" where
  "relative_text change first =
     (if dc_coeff first = 0 then Inr []
      else res_bind (dec_div decimal_overflow change first) (\<lambda>q.
        res_bind (dec_mul decimal_overflow q 100) (\<lambda>p.
        res_bind (dec_abs decimal_overflow p) (\<lambda>a. Inr ([65292, 32422] @ lit '' '' @ format_2f a @ lit ''%'')))))"

text \<open>The words for growth, decline and no change, and what frames the sentence.\<close>

definition grew :: pystr where "grew = [22686, 38271]"
definition declined :: pystr where "declined = [19979, 38477]"
definition unchanged :: pystr where "unchanged = [25345, 24179]"
definition change_intro :: pystr where "change_intro = [20174, 39318, 26399, 21040, 26411, 26399, 65292]"
definition change_note :: pystr where "change_note = [65288, 20165, 27604, 36739, 36820, 22238, 30340, 39318, 26411, 26399, 65289, 12290]"

definition direction_text :: "decimal \<Rightarrow> pystr" where
  "direction_text change =
     (if 0 < dc_coeff change then grew else if dc_coeff change < 0 then declined else unchanged)"

definition change_text :: "pystr \<Rightarrow> decimal \<Rightarrow> decimal \<Rightarrow> exn + pystr" where
  "change_text metric initial final =
     res_bind (dec_sub decimal_overflow final initial) (\<lambda>change.
     res_bind (res_bind (dec_abs decimal_overflow change) (dec_normalize decimal_overflow)) (\<lambda>a.
     res_bind (relative_text change initial) (\<lambda>rel.
       Inr (change_intro @ metric @ direction_text change @ lit '' '' @ format_f a @ rel
         @ change_note))))"

definition period_change :: "unidata \<Rightarrow> py_repr \<Rightarrow> pystr list \<Rightarrow> row list \<Rightarrow> pystr \<Rightarrow> exn + pystr" where
  "period_change U R columns rows metric =
     (let periods = filter (has_marker U period_markers) columns;
          keys = map (period_key R periods) rows in
      if periods = [] \<or> \<not> sorted keys \<or> hd keys = last keys then Inr []
      else (case (cell_number U R (cell_of (hd rows) metric), cell_number U R (cell_of (last rows) metric)) of
          (Some a, Some b) \<Rightarrow> change_text metric a b
        | _ \<Rightarrow> Inr []))"

section \<open>The description\<close>

definition no_rows_text :: "bool \<Rightarrow> pystr" where
  "no_rows_text trunc =
     (if trunc
      then [26597, 35810, 24050, 25191, 34892, 65292, 20294, 32467, 26524, 22312, 36820, 22238, 31532, 19968, 34892, 21069, 35302, 21450, 22823, 23567, 19978, 38480, 65292]
        @ [26080, 27861, 21028, 26029, 26159, 21542, 26377, 31526, 21512, 26465, 20214, 30340, 25968, 25454, 12290]
      else [26597, 35810, 24050, 23436, 25104, 65292, 20294, 27809, 26377, 31526, 21512, 26465, 20214, 30340, 25968, 25454, 12290])"

definition truncation_text :: "row list \<Rightarrow> pystr" where
  "truncation_text rows = [32467, 26524, 24050, 25130, 26029, 65292, 19978, 36848, 25551, 36848, 20165, 22522, 20110, 36820, 22238, 30340] @ lit '' '' @ str_nat (length rows)
     @ lit '' '' @ [34892, 65292, 19981, 20195, 34920, 23436, 25972, 32467, 26524, 12290]"

definition extremes_text :: "py_repr \<Rightarrow> pystr list \<Rightarrow> row list \<Rightarrow> pystr \<Rightarrow> row \<Rightarrow> row \<Rightarrow> pystr" where
  "extremes_text R columns rows m highest lowest =
     row_count_text rows @ [12290, 22312, 24050, 36820, 22238, 25968, 25454, 20013, 65292] @ m @ [26368, 39640, 30340, 26159]
       @ row_label R columns highest m @ cell_text R (cell_of highest m) @ [65292, 26368, 20302, 30340, 26159]
       @ row_label R columns lowest m @ cell_text R (cell_of lowest m) @ [12290]"

definition rows_text :: "unidata \<Rightarrow> py_repr \<Rightarrow> pystr list \<Rightarrow> row list \<Rightarrow> pystr option \<Rightarrow> pystr" where
  "rows_text U R columns rows metric =
     (case metric of
        None \<Rightarrow> row_count_text rows @ [12290] @ first_row R columns (hd rows)
      | Some m \<Rightarrow>
          if length rows = 1
          then row_count_text rows @ [65306] @ metric_text R columns m (hd rows) @ [12290]
          else if length rows \<le> 4
          then row_count_text rows @ [65306] @ join [65307] (map (metric_text R columns m) rows) @ [12290]
          else extremes_text R columns rows m (highest_row U R m rows) (lowest_row U R m rows))"

definition describe_sql_result :: "unidata \<Rightarrow> py_repr \<Rightarrow> pystr list \<Rightarrow> row list \<Rightarrow> bool \<Rightarrow> exn + pystr" where
  "describe_sql_result U R columns rows trunc =
     (if rows = [] then Inr (no_rows_text trunc)
      else (let metric = metric_of U R columns rows in
        res_bind (case metric of
            Some m \<Rightarrow> if 1 < length rows then period_change U R columns rows m else Inr []
          | None \<Rightarrow> Inr []) (\<lambda>change.
          Inr (rows_text U R columns rows metric @ change
            @ (if trunc then truncation_text rows else [])))))"

section \<open>Charts\<close>

definition mk_chart_spec :: "chart_spec \<Rightarrow> exn + chart_spec" where
  "mk_chart_spec c =
     (if 1 \<le> length (ch_title c) \<and> length (ch_title c) \<le> 160
         \<and> (case ch_x c of None \<Rightarrow> True | Some x \<Rightarrow> length x \<le> 160) \<and> length (ch_series c) \<le> 3
      then Inr c else Inl (validation_error ''ChartSpec''))"

text \<open>\<open>_is_number\<close>: here every \<open>int\<close> and \<open>float\<close> counts, also a \<open>float\<close> that is not finite.\<close>

definition chart_number :: "unidata \<Rightarrow> json \<Rightarrow> bool" where
  "chart_number U v = (case v of JInt i \<Rightarrow> True | JFloat x \<Rightarrow> True
     | JStr s \<Rightarrow> strip s \<noteq> [] \<and> finite_decimal U s \<noteq> None | _ \<Rightarrow> False)"

definition numeric_columns :: "unidata \<Rightarrow> pystr list \<Rightarrow> row list \<Rightarrow> pystr list" where
  "numeric_columns U columns rows =
     take 3 (filter (\<lambda>c. list_ex (\<lambda>r. chart_number U (cell_of r c)) (take 50 rows)) (tl columns))"

definition time_markers :: "pystr list" where
  "time_markers = map lit [''date'', ''time'', ''month'', ''year'', ''quarter'']
     @ [[26085, 26399], [26376, 20221], [23395, 24230]]"

definition table_chart :: chart_spec where
  "table_chart = \<lparr>ch_type = Table_Chart, ch_title = [26597, 35810, 32467, 26524], ch_x = None, ch_series = []\<rparr>"

definition build_chart_spec :: "unidata \<Rightarrow> pystr list \<Rightarrow> row list \<Rightarrow> exn + chart_spec" where
  "build_chart_spec U columns rows =
     (if length columns < 2 \<or> rows = [] then mk_chart_spec table_chart
      else (let x = hd columns; numeric = numeric_columns U columns rows in
        if numeric = [] then mk_chart_spec table_chart
        else mk_chart_spec
          \<lparr>ch_type = (if has_marker U time_markers x then Line
               else if length rows \<le> 8 \<and> length numeric = 1 then Pie else Bar),
           ch_title = [20998, 26512, 32467, 26524], ch_x = Some x, ch_series = numeric\<rparr>))"

section \<open>Lemmas\<close>

lemma best_row_in: "rows \<noteq> [] \<Longrightarrow> best_row beats rows \<in> set rows"
proof -
  have "foldl (\<lambda>best r. if beats r best then r else best) x xs \<in> set (x # xs)" for x xs
    by (induction xs arbitrary: x) auto
  then show "rows \<noteq> [] \<Longrightarrow> best_row beats rows \<in> set rows"
    by (cases rows) (auto simp: best_row_def)
qed

text \<open>For a comparison by a real number the winner is at least as good as every row.\<close>

lemma best_row_best:
  assumes "\<And>a b. beats a b \<longleftrightarrow> (f b :: real) < f a" and "r \<in> set rows"
  shows "f r \<le> f (best_row beats rows)"
proof -
  have step: "\<forall>y \<in> set (x # xs). f y \<le> f (foldl (\<lambda>best r. if beats r best then r else best) x xs)" for x xs
  proof (induction xs arbitrary: x)
    case (Cons y ys)
    define z where "z = (if beats y x then y else x)"
    from Cons.IH [of z] have
      "\<forall>u \<in> set (z # ys). f u \<le> f (foldl (\<lambda>best r. if beats r best then r else best) z ys)" .
    moreover have "f x \<le> f z" "f y \<le> f z" using assms(1) [of y x] by (auto simp: z_def)
    ultimately show ?case by (auto simp: z_def intro: order_trans)
  qed simp
  from assms(2) have "set rows = set (hd rows # tl rows)" by (cases rows) auto
  with step [of "hd rows" "tl rows"] assms(2) show ?thesis by (auto simp: best_row_def)
qed

lemma metric_of_Some:
  assumes "metric_of U R columns rows = Some m"
  shows "m \<in> set columns" "\<not> has_marker U dimension_markers m"
    "r \<in> set rows \<Longrightarrow> cell_number U R (cell_of r m) = Some (row_key U R m r)"
proof -
  from find_SomeD [OF assms [unfolded metric_of_def]] have
    f: "m \<in> set columns" "\<not> has_marker U dimension_markers m"
      "\<forall>r \<in> set rows. cell_number U R (cell_of r m) \<noteq> None"
    by (simp_all add: list_all_iff)
  then show "m \<in> set columns" "\<not> has_marker U dimension_markers m" by simp_all
  show "r \<in> set rows \<Longrightarrow> cell_number U R (cell_of r m) = Some (row_key U R m r)"
    using f(3) by (auto simp: row_key_def split: option.splits)
qed

lemma mk_chart_spec_Inr:
  "mk_chart_spec c = Inr d \<Longrightarrow> d = c \<and> length (ch_series c) \<le> 3"
  by (auto simp: mk_chart_spec_def split: if_splits)

section \<open>Properties\<close>

text \<open>
  The extremes an answer names are the extremes of the returned rows: over more than four rows
  with a metric, the answer begins with the text that names a highest and a lowest row, both
  among the rows; the metric is a column of the result that is no dimension, every row has a
  number in it, and no row has a number above the highest or below the lowest.
\<close>

theorem named_extremes_are_extreme:
  assumes "describe_sql_result U R columns rows trunc = Inr answer_text"
    and "metric_of U R columns rows = Some m" and "4 < length rows"
  shows "\<exists>hi lo rest. answer_text = extremes_text R columns rows m hi lo @ rest
    \<and> hi \<in> set rows \<and> lo \<in> set rows \<and> m \<in> set columns \<and> \<not> has_marker U dimension_markers m
    \<and> (\<forall>r \<in> set rows. \<exists>x a b. cell_number U R (cell_of r m) = Some x
        \<and> cell_number U R (cell_of hi m) = Some a \<and> cell_number U R (cell_of lo m) = Some b
        \<and> dec_value b \<le> dec_value x \<and> dec_value x \<le> dec_value a)"
proof -
  define hi lo where "hi = highest_row U R m rows" and "lo = lowest_row U R m rows"
  from assms(3) have ne: "rows \<noteq> []" by auto
  have mem: "hi \<in> set rows" "lo \<in> set rows"
    using ne by (simp_all add: hi_def lo_def highest_row_def lowest_row_def best_row_in)
  have hi: "r \<in> set rows \<Longrightarrow> dec_value (row_key U R m r) \<le> dec_value (row_key U R m hi)" for r
    unfolding hi_def highest_row_def by (rule best_row_best) (simp_all add: dec_less_value)
  have lo: "r \<in> set rows \<Longrightarrow> - dec_value (row_key U R m r) \<le> - dec_value (row_key U R m lo)" for r
    unfolding lo_def lowest_row_def by (rule best_row_best) (simp_all add: dec_less_value)
  obtain change where "answer_text = rows_text U R columns rows (Some m) @ change
      @ (if trunc then truncation_text rows else [])"
    using assms ne by (auto simp: describe_sql_result_def Let_def)
  moreover have "rows_text U R columns rows (Some m) = extremes_text R columns rows m hi lo"
    using assms(3) by (simp add: rows_text_def hi_def lo_def)
  ultimately have "answer_text = extremes_text R columns rows m hi lo
      @ change @ (if trunc then truncation_text rows else [])" by simp
  with mem hi lo metric_of_Some [OF assms(2)] show ?thesis
    by (intro exI [of _ hi] exI [of _ lo]) auto
qed

text \<open>
  C26. A described change is the change of the data: where an answer speaks of a change from the
  first to the last period, the rows are in ascending order of their periods, the first and the last
  differ, and the direction is that of last minus first, rounded or not, for numbers whose last place
  is at most the 1,000,026th. The printed amount reads back as the exact distance of the two
  numbers where it has at most 28 digits, the precision of Python's decimals; a longer distance is
  rounded to 28.
\<close>

theorem described_change_is_exact:
  assumes "period_change U R columns rows m = Inr sentence" and "sentence \<noteq> []" and "rows \<noteq> []"
  shows "\<exists>a b amount rel. cell_number U R (cell_of (hd rows) m) = Some a
    \<and> cell_number U R (cell_of (last rows) m) = Some b
    \<and> sorted (map (period_key R (filter (has_marker U period_markers) columns)) rows)
    \<and> period_key R (filter (has_marker U period_markers) columns) (hd rows)
        \<noteq> period_key R (filter (has_marker U period_markers) columns) (last rows)
    \<and> (- 1000026 \<le> dc_exp a \<and> - 1000026 \<le> dc_exp b \<longrightarrow>
        sentence = change_intro @ m
          @ (if dec_value a < dec_value b then grew
             else if dec_value b < dec_value a then declined else unchanged)
          @ lit '' '' @ amount @ rel @ change_note)
    \<and> (fits_context b a \<longrightarrow> (\<exists>d. decimal_of_text U amount = Some (Finite_Decimal d)
          \<and> dec_value d = \<bar>dec_value b - dec_value a\<bar>))"
proof -
  let ?p = "filter (has_marker U period_markers) columns"
  from assms obtain a b where ab: "cell_number U R (cell_of (hd rows) m) = Some a"
      "cell_number U R (cell_of (last rows) m) = Some b"
    and chg: "change_text m a b = Inr sentence"
    and keys: "sorted (map (period_key R ?p) rows)" "hd (map (period_key R ?p) rows) \<noteq> last (map (period_key R ?p) rows)"
    by (auto simp: period_change_def Let_def split: if_splits option.splits)
  from chg obtain c c1 d rel where c: "dec_sub decimal_overflow b a = Inr c"
      "dec_abs decimal_overflow c = Inr c1" "dec_normalize decimal_overflow c1 = Inr d"
    and t: "sentence = change_intro @ m @ direction_text c @ lit '' '' @ format_f d @ rel
         @ change_note"
    by (auto simp: change_text_def)
  have direction: "direction_text c = (if dec_value a < dec_value b then grew
      else if dec_value b < dec_value a then declined else unchanged)"
    if "- 1000026 \<le> dc_exp a" "- 1000026 \<le> dc_exp b"
    using difference_sign [OF c(1) that(2,1)] by (simp add: direction_text_def)
  have amount: "\<exists>r. decimal_of_text U (format_f d) = Some (Finite_Decimal r)
      \<and> dec_value r = \<bar>dec_value b - dec_value a\<bar>" if "fits_context b a"
    using difference_exact [OF c(1) that] printed_size_exact [OF c(2,3), of U] by metis
  from ab keys t direction amount assms(3) show ?thesis
    by (intro exI [of _ a] exI [of _ b] exI [of _ "format_f d"] exI [of _ rel]) (auto simp: hd_map last_map)
qed

text \<open>
  A chart is data only and closed: whatever the columns and rows are, a specification has at
  most three series, each a column after the first with a number among the first fifty rows, its
  axis is the first column; without such columns it is a table. Only a first column of more than
  160 characters makes it fail.
\<close>

theorem charts_are_closed:
  "(case build_chart_spec U columns rows of
      Inr c \<Rightarrow> length (ch_series c) \<le> 3
        \<and> list_all (\<lambda>s. s \<in> set (tl columns)
            \<and> list_ex (\<lambda>r. chart_number U (cell_of r s)) (take 50 rows)) (ch_series c)
        \<and> (ch_type c = Table_Chart \<longleftrightarrow> ch_series c = [])
        \<and> ch_x c = (if ch_series c = [] then None else Some (hd columns))
        \<and> (ch_type c = Pie \<longleftrightarrow> ch_series c \<noteq> [] \<and> \<not> has_marker U time_markers (hd columns)
             \<and> length rows \<le> 8 \<and> length (ch_series c) = 1)
    | Inl e \<Rightarrow> e = validation_error ''ChartSpec'' \<and> 160 < length (hd columns))"
proof -
  have n: "length (numeric_columns U columns rows) \<le> 3"
    "list_all (\<lambda>s. s \<in> set (tl columns) \<and> list_ex (\<lambda>r. chart_number U (cell_of r s)) (take 50 rows))
      (numeric_columns U columns rows)"
    by (auto simp: numeric_columns_def list_all_iff dest: in_set_takeD)
  then show ?thesis
    by (simp add: build_chart_spec_def mk_chart_spec_def table_chart_def Let_def)
qed

section \<open>Concrete results\<close>

definition monthly :: "(string \<times> string) list \<Rightarrow> row list" where
  "monthly = map (\<lambda>(m, x). [(lit ''month'', JStr (lit m)), (lit ''sales'', JStr (lit x))])"

definition five_months :: "row list" where
  "five_months = monthly [(''2024-01'', ''0''), (''2024-02'', ''7''), (''2024-03'', ''1e2''),
     (''2024-04'', ''9''), (''2024-05'', ''12.75'')]"

definition month_columns :: "pystr list" where
  "month_columns = [lit ''month'', lit ''sales'']"

lemma five_months_metric:
  "metric_of ascii_uni (\<lambda>v. []) month_columns five_months = Some (lit ''sales'')"
  by code_simp

text \<open>The numbers of the first and the last month, and the arithmetic between them, step by step.\<close>

definition sales_first :: decimal where "sales_first = \<lparr>dc_coeff = 0, dc_exp = 0\<rparr>"
definition sales_last :: decimal where "sales_last = \<lparr>dc_coeff = 1275, dc_exp = - 2\<rparr>"

lemma sales_steps:
  "dec_sub decimal_overflow sales_last sales_first = Inr sales_last"
  "dec_abs decimal_overflow sales_last = Inr sales_last"
  "dec_normalize decimal_overflow sales_last = Inr sales_last"
  by code_simp+

lemma five_months_numbers:
  "cell_number ascii_uni (\<lambda>v. []) (cell_of (hd five_months) (lit ''sales'')) = Some sales_first"
  "cell_number ascii_uni (\<lambda>v. []) (cell_of (last five_months) (lit ''sales'')) = Some sales_last"
  by code_simp+

lemma five_months_change:
  "\<exists>s. period_change ascii_uni (\<lambda>v. []) month_columns five_months (lit ''sales'') = Inr s \<and> s \<noteq> []"
proof -
  have p: "filter (has_marker ascii_uni period_markers) month_columns = [lit ''month'']" by code_simp
  have k: "sorted (map (period_key (\<lambda>v. []) [lit ''month'']) five_months)"
    "hd (map (period_key (\<lambda>v. []) [lit ''month'']) five_months)
      \<noteq> last (map (period_key (\<lambda>v. []) [lit ''month'']) five_months)" by code_simp+
  have z: "dc_coeff sales_first = 0" by code_simp
  show ?thesis
    by (simp add: period_change_def Let_def p k five_months_numbers change_text_def sales_steps
        relative_text_def z grew_def change_intro_def)
qed

theorem named_extremes_are_extreme_witness:
  "\<exists>hi lo rest. describe_sql_result ascii_uni (\<lambda>v. []) month_columns five_months False
     = Inr (extremes_text (\<lambda>v. []) month_columns five_months (lit ''sales'') hi lo @ rest)"
proof -
  have "five_months \<noteq> []" "1 < length five_months" by code_simp+
  with five_months_change five_months_metric obtain t where
    t: "describe_sql_result ascii_uni (\<lambda>v. []) month_columns five_months False = Inr t"
    by (auto simp: describe_sql_result_def Let_def)
  have "4 < length five_months" by code_simp
  from named_extremes_are_extreme [OF t five_months_metric this] t show ?thesis by auto
qed

theorem described_change_is_exact_witness:
  "\<exists>amount rel. period_change ascii_uni (\<lambda>v. []) month_columns five_months (lit ''sales'')
     = Inr (change_intro @ lit ''sales'' @ grew @ lit '' '' @ amount @ rel @ change_note)
   \<and> (\<exists>d. decimal_of_text ascii_uni amount = Some (Finite_Decimal d) \<and> dec_value d = 51 / 4)"
proof -
  obtain s where s: "period_change ascii_uni (\<lambda>v. []) month_columns five_months (lit ''sales'') = Inr s"
    "s \<noteq> []" using five_months_change by blast
  have ne: "five_months \<noteq> []" by code_simp
  have v: "dec_value sales_first = 0" "dec_value sales_last = 51 / 4"
    by (simp_all add: dec_value_def sales_first_def sales_last_def power_int_minus)
  have fits: "fits_context sales_last sales_first" "- 1000026 \<le> dc_exp sales_first" "- 1000026 \<le> dc_exp sales_last"
    by code_simp+
  from described_change_is_exact [OF s ne] obtain amount rel where
    "s = change_intro @ lit ''sales''
          @ (if dec_value sales_first < dec_value sales_last then grew
             else if dec_value sales_last < dec_value sales_first then declined else unchanged)
          @ lit '' '' @ amount @ rel @ change_note
        \<and> (\<exists>d. decimal_of_text ascii_uni amount = Some (Finite_Decimal d)
              \<and> dec_value d = \<bar>dec_value sales_last - dec_value sales_first\<bar>)"
    unfolding five_months_numbers using fits by auto
  then show ?thesis unfolding s(1) v by (intro exI [of _ amount] exI [of _ rel]) auto
qed

end
