(* ===== verification/Agent_Actions.thy ===== *)
theory Agent_Actions
  imports Agent_Service Metric_Retrieval Answering
begin

text \<open>
  \<open>NorthwindAgentActions\<close> (\<open>agent/actions.py\<close>), the production steps behind the graph, and the
  workflow the factory builds from them (\<open>agent/factory.py\<close>, \<open>agent/checkpoint.py\<close>). Each method
  is one definition over an explicit world: the language model, the retrieval service, the
  database (which may answer each call differently), the log of the executor and the platform
  the sinks post to. sqlglot, PostgreSQL, HTTP and pydantic's reading of numbers are arguments;
  the models the state stores as dictionaries are read back as they were stored.
\<close>

section \<open>What the actions are built from\<close>

record ('p, 's, 'h) action_env =
  ac_uni :: unidata
  ac_sha :: "nat list \<Rightarrow> pystr"
  ac_float :: "real \<Rightarrow> pystr"
  ac_repr :: py_repr
  ac_sqlglot :: sqlglot
  ac_references :: "pystr \<Rightarrow> exn + sql_table list \<times> sql_column list"
  ac_wire :: pydantic
  ac_real :: "json \<Rightarrow> real option"
  ac_provider :: "'p llm_provider"
  ac_client :: client_config
  ac_retrieval :: "('s, 'h) retrieval_service"
  ac_clock :: "nat \<Rightarrow> real \<times> real"
  ac_source :: data_source_config
  ac_catalog :: "nat \<Rightarrow> pystr \<Rightarrow> exn + catalog"
  ac_estimate :: "nat \<Rightarrow> estimator"
  ac_execute :: "nat \<Rightarrow> guarded_query \<Rightarrow> data_source_config \<Rightarrow> query_policy \<Rightarrow> exn + query_execution_result"
  ac_max_total_cost :: real
  ac_max_plan_rows :: int
  ac_min_confidence :: real
  ac_controlled :: "pystr set"

text \<open>
  The world: \<open>aw_calls\<close> counts the calls of external services, so that their answers may change
  from call to call; \<open>aw_rejections\<close> are the labels counted in \<open>SQL_REJECTIONS\<close>.
\<close>

record ('p, 's, 'h, 'x) actions_world =
  aw_model :: 'p
  aw_retrieval :: "('s, 'h) retrieval_state"
  aw_calls :: nat
  aw_ran :: "guarded_query list"
  aw_rejections :: "pystr list"
  aw_platform :: 'x

definition default_controlled :: "pystr set" where
  "default_controlled =
     set (map lit [''customers.contact_name'', ''employees.first_name'', ''employees.last_name''])"

definition tick :: "('p, 's, 'h, 'x) actions_world \<Rightarrow> ('p, 's, 'h, 'x) actions_world" where
  "tick w = w\<lparr>aw_calls := Suc (aw_calls w)\<rparr>"

text \<open>\<open>state[key]\<close>\<close>

definition need :: "'a option \<Rightarrow> exn + 'a" where
  "need x = (case x of None \<Rightarrow> Inl (Py KeyError) | Some v \<Rightarrow> Inr v)"

definition rejected_update :: "sql_risk \<Rightarrow> pystr \<Rightarrow> agent_state" where
  "rejected_update risk reason = no_state\<lparr>as_risk := Some risk, as_reasons := Some [reason],
     as_error := Some (Some reason)\<rparr>"

section \<open>\<open>classify\<close>\<close>

definition knowledge_markers :: "pystr list" where
  "knowledge_markers = [[23450, 20041], [21475, 24452], [20160, 20040, 26159], lit ''how is'', lit ''definition'']"

definition act_classify ::
  "('p, 's, 'h) action_env \<Rightarrow> agent_state \<Rightarrow> ('p, 's, 'h, 'x) actions_world
     \<Rightarrow> (exn + agent_state) \<times> ('p, 's, 'h, 'x) actions_world" where
  "act_classify A s w =
     (case need (as_question s) of
        Inl e \<Rightarrow> (Inl e, w)
      | Inr question \<Rightarrow>
          (case inspect_question (ac_uni A) question of
             Inl (NL2SQL (NL2SQLPolicyError reason)) \<Rightarrow>
               (Inr (rejected_update Blocked reason),
                w\<lparr>aw_rejections := aw_rejections w @ [reason]\<rparr>)
           | Inl e \<Rightarrow> (Inl e, w)
           | Inr q \<Rightarrow>
               (Inr (no_state\<lparr>as_intent := Some
                   (if has_marker (ac_uni A) knowledge_markers q then Knowledge else intent.Hybrid),
                  as_error := Some None\<rparr>), w)))"

section \<open>\<open>retrieve_metrics\<close>\<close>

definition evidence_of :: "retrieval_hit \<Rightarrow> metric_evidence" where
  "evidence_of h = \<lparr>me_content = hit_content h, me_citation = citation_json (hit_citation h)\<rparr>"

definition retrieved_update :: "agent_state \<Rightarrow> retrieval_result \<Rightarrow> agent_state" where
  "retrieved_update s r = no_state
     \<lparr>as_metric_context := Some (map evidence_of (rr_hits r)),
      as_citations := Some (map citation_json (rr_citations r)),
      as_error := Some (if as_intent s = Some Knowledge \<and> \<not> rr_should_answer r
        then Some (lit ''RAG_INSUFFICIENT_EVIDENCE'') else None)\<rparr>"

definition act_retrieve ::
  "('p, 's, 'h) action_env \<Rightarrow> agent_state \<Rightarrow> ('p, 's, 'h, 'x) actions_world
     \<Rightarrow> (exn + agent_state) \<times> ('p, 's, 'h, 'x) actions_world" where
  "act_retrieve A s w =
     (case need (as_tenant_id s) of
        Inl e \<Rightarrow> (Inl e, w)
      | Inr t \<Rightarrow>
         (case uuid_of_text (ac_uni A) t of
            None \<Rightarrow> (Inl (Py (ValueError (lit ''badly formed hexadecimal UUID string''))), w)
          | Some tenant \<Rightarrow>
             (case need (as_question s) of
                Inl e \<Rightarrow> (Inl e, w)
              | Inr question \<Rightarrow>
                 (case retrieve (ac_retrieval A) (ac_clock A (aw_calls w)) tenant question
                         retrieval_mode.Hybrid None (aw_retrieval w) of
                    (r, st) \<Rightarrow> (res_bind r (\<lambda>x. Inr (retrieved_update s x)),
                       (tick w)\<lparr>aw_retrieval := st\<rparr>)))))"

section \<open>\<open>select_schema\<close>\<close>

record confident_selection =
  cs_tables :: "pystr list"
  cs_confidence :: real

definition confident_of :: "(json \<Rightarrow> real option) \<Rightarrow> pystr list \<Rightarrow> json \<Rightarrow> confident_selection option" where
  "confident_of real_of names j = (case j of
     JObj kvs \<Rightarrow>
       (case (json_texts 1 6 (map_of kvs (lit ''tables'')),
              Option.bind (map_of kvs (lit ''confidence'')) real_of) of
          (Some ts, Some c) \<Rightarrow>
            if only_keys [''tables'', ''confidence''] kvs \<and> set ts \<subseteq> set names \<and> 0 \<le> c \<and> c \<le> 1
            then Some \<lparr>cs_tables = ts, cs_confidence = c\<rparr> else None
        | _ \<Rightarrow> None)
   | _ \<Rightarrow> None)"

text \<open>The selection prompt with its extra sentence, and the prompt of the second attempt.\<close>

definition confident_messages :: "pystr \<Rightarrow> schema_snapshot \<Rightarrow> prompt" where
  "confident_messages question snap = (case selection_messages question snap of
     (r, c) # rest \<Rightarrow> (r, c @ lit '' Return a confidence number from 0 to 1 alongside the selected tables.'') # rest
   | [] \<Rightarrow> [])"

definition correction_message :: "llm_role \<times> pystr" where
  "correction_message = (User, dumps (default_style True (\<lambda>x. []))
     (JObj [(lit ''safe_error_code'', JStr (nl2sql_code SchemaSelectionError)),
        (lit ''instruction'', JStr (lit ''Return unique exact unqualified table names ''
           @ lit ''from the original table_catalog, with a confidence number.''))]))"

definition checked_tables :: "query_policy \<Rightarrow> confident_selection \<Rightarrow> exn + pystr list" where
  "checked_tables pol sel =
     res_bind (normalize_reported_tables (cs_tables sel) (allowed_schema pol)) (\<lambda>ts.
       if ts = [] \<or> \<not> set ts \<subseteq> allowed_tables pol then Inl (NL2SQL SchemaSelectionError) else Inr ts)"

definition invalid_as_selection :: "exn \<Rightarrow> exn" where
  "invalid_as_selection e = (case e of LLM (LLMInvalidResponseError is) \<Rightarrow> NL2SQL SchemaSelectionError
     | _ \<Rightarrow> e)"

text \<open>The \<open>for\<close> loop: the number of attempts left after this one is 1, then 0.\<close>

fun select_attempts ::
  "('p, 's, 'h) action_env \<Rightarrow> query_policy \<Rightarrow> pystr list \<Rightarrow> nat \<Rightarrow> prompt \<Rightarrow> 'p
     \<Rightarrow> (exn + pystr list \<times> real) \<times> 'p" where
  "select_attempts A pol names n msgs p =
     (case to_messages msgs of
        Inl e \<Rightarrow> (Inl e, p)
      | Inr ms \<Rightarrow>
          (case generate (ac_provider A) (ac_client A)
                  (model_of (ac_wire A) ''ConfidentTableSelection'' (confident_of (ac_real A) names)) ms p of
             (Inl e, p', _) \<Rightarrow> (Inl (invalid_as_selection e), p')
           | (Inr r, p', _) \<Rightarrow>
               (case checked_tables pol (sr_output r) of
                  Inr ts \<Rightarrow> (Inr (ts, cs_confidence (sr_output r)), p')
                | Inl e \<Rightarrow> (case n of
                    0 \<Rightarrow> (Inl e, p')
                  | Suc m \<Rightarrow> select_attempts A pol names m (msgs @ [correction_message]) p'))))"

declare select_attempts.simps [simp del]

text \<open>\<open>QueryPolicy.from_snapshot\<close> with the two limits given and the other defaults.\<close>

definition actions_policy :: "('p, 's, 'h) action_env \<Rightarrow> schema_snapshot \<Rightarrow> exn + query_policy" where
  "actions_policy A snap = policy_from_snapshot (ac_uni A) snap
     (default_limits\<lparr>lim_max_total_cost := ac_max_total_cost A, lim_max_plan_rows := ac_max_plan_rows A\<rparr>)"

definition act_select ::
  "('p, 's, 'h) action_env \<Rightarrow> agent_state \<Rightarrow> ('p, 's, 'h, 'x) actions_world
     \<Rightarrow> (exn + agent_state) \<times> ('p, 's, 'h, 'x) actions_world" where
  "act_select A s w =
     (case res_bind (inspect_schema (ac_sha A) (ac_float A) (ac_catalog A (aw_calls w))
             (ds_source_id (ac_source A)) (ds_allowed_schema (ac_source A))) (\<lambda>snap.
           res_bind (actions_policy A snap) (\<lambda>pol.
           res_bind (need (as_question s)) (\<lambda>q.
           res_bind (catalog_selection_names (allowed_tables pol) (allowed_schema pol)) (\<lambda>names.
             Inr (snap, pol, q, names))))) of
        Inl e \<Rightarrow> (Inl e, tick w)
      | Inr (snap, pol, q, names) \<Rightarrow>
          (case select_attempts A pol names 1 (confident_messages q snap) (aw_model w) of
             (r, p) \<Rightarrow> (res_bind r (\<lambda>(selected, confidence).
                res_bind (restrict_to_tables pol (set selected)) (\<lambda>narrowed. Inr
                  (no_state\<lparr>as_candidate_tables := Some selected, as_confidence := Some confidence,
                     as_snapshot := Some snap, as_policy := Some narrowed\<rparr>))),
                (tick w)\<lparr>aw_model := p\<rparr>)))"

section \<open>\<open>generate_sql\<close>\<close>

definition generation_prompt :: "agent_state \<Rightarrow> exn + prompt \<times> query_policy" where
  "generation_prompt s =
     res_bind (need (as_snapshot s)) (\<lambda>snap.
     res_bind (need (as_policy s)) (\<lambda>pol.
     res_bind (need (as_question s)) (\<lambda>q.
     res_bind (need (as_candidate_tables s)) (\<lambda>tables.
     res_bind (generation_messages q snap tables pol) (\<lambda>base.
       Inr (case (as_sql s, error_of s) of
           (Some sql, Some code) \<Rightarrow>
             if sql \<noteq> [] \<and> code \<noteq> [] then repair_messages base sql code else base
         | _ \<Rightarrow> base, pol))))))"

definition act_generate ::
  "('p, 's, 'h) action_env \<Rightarrow> agent_state \<Rightarrow> ('p, 's, 'h, 'x) actions_world
     \<Rightarrow> (exn + agent_state) \<times> ('p, 's, 'h, 'x) actions_world" where
  "act_generate A s w =
     (case res_bind (generation_prompt s) (\<lambda>(prompts, pol).
           res_bind (to_messages prompts) (\<lambda>ms. Inr (ms, pol))) of
        Inl e \<Rightarrow> (Inl e, w)
      | Inr (ms, pol) \<Rightarrow>
          (case generate (ac_provider A) (ac_client A) (model_of (ac_wire A) ''NL2SQLDraft'' draft_of)
                  ms (aw_model w) of
             (r, p, _) \<Rightarrow> (res_bind r (\<lambda>d.
                res_bind (validate_draft_tables (sr_output d) (list_of (as_candidate_tables s))
                    (allowed_schema pol)) (\<lambda>_. Inr
                  (no_state\<lparr>as_sql := Some (dr_sql (sr_output d)), as_plan := Some (dr_plan (sr_output d)),
                     as_attempts := Some (attempts_of s + 1), as_error := Some None\<rparr>))),
                w\<lparr>aw_model := p\<rparr>)))"

section \<open>\<open>guard_sql\<close>\<close>

text \<open>\<open>_controlled_references\<close>: a later table with the same alias replaces an earlier one.\<close>

definition qualified_reference :: "sql_table list \<Rightarrow> sql_column \<Rightarrow> pystr" where
  "qualified_reference tables c =
     (let table = (case map_of (rev (map (\<lambda>t. (tb_alias_or_name t, tb_name t)) tables)) (cl_table c) of
          Some t \<Rightarrow> t | None \<Rightarrow> cl_table c)
      in if table = [] then [] else table @ [46] @ cl_name c)"

definition controlled_references :: "('p, 's, 'h) action_env \<Rightarrow> pystr \<Rightarrow> exn + pystr set" where
  "controlled_references A sql = res_bind (ac_references A sql) (\<lambda>(tables, columns).
     Inr (set (map (qualified_reference tables) columns) \<inter> ac_controlled A))"

definition risk_reasons ::
  "('p, 's, 'h) action_env \<Rightarrow> agent_state \<Rightarrow> query_policy \<Rightarrow> pystr set \<Rightarrow> query_cost_estimate \<Rightarrow> pystr list"
  where
  "risk_reasons A s pol controlled est =
     (if total_cost est > max_total_cost pol then [lit ''TOTAL_COST_LIMIT_EXCEEDED''] else [])
     @ (if plan_rows est > max_plan_rows pol then [lit ''PLAN_ROWS_LIMIT_EXCEEDED''] else [])
     @ (if controlled \<noteq> {} then [lit ''CONTROLLED_SENSITIVE_COLUMN''] else [])
     @ (if (case as_confidence s of None \<Rightarrow> 1 | Some c \<Rightarrow> c) < ac_min_confidence A
        then [lit ''LOW_MODEL_CONFIDENCE''] else [])"

definition guarded_update :: "guarded_query \<Rightarrow> pystr list \<Rightarrow> agent_state" where
  "guarded_update g reasons = no_state
     \<lparr>as_risk := Some (if reasons = [] then Safe else Approval), as_reasons := Some reasons,
      as_fingerprint := Some (query_fingerprint g), as_guarded := Some g, as_error := Some None\<rparr>"

definition act_guard ::
  "('p, 's, 'h) action_env \<Rightarrow> agent_state \<Rightarrow> ('p, 's, 'h, 'x) actions_world
     \<Rightarrow> (exn + agent_state) \<times> ('p, 's, 'h, 'x) actions_world" where
  "act_guard A s w =
     (case res_bind (need (as_policy s)) (\<lambda>pol. res_bind (need (as_sql s)) (\<lambda>sql. Inr (pol, sql))) of
        Inl e \<Rightarrow> (Inl e, w)
      | Inr (pol, sql) \<Rightarrow>
          (case inspect (ac_uni A) (ac_sqlglot A) (ac_sha A) sql pol of
             Inl (QuerySafety (SQLPolicyViolationError reason)) \<Rightarrow>
               (Inr (rejected_update Repair_Risk reason),
                w\<lparr>aw_rejections := aw_rejections w @ [reason]\<rparr>)
           | Inl e \<Rightarrow> (Inl e, w)
           | Inr g \<Rightarrow>
               (case controlled_references A (normalized_sql g) of
                  Inl e \<Rightarrow> (Inl e, w)
                | Inr controlled \<Rightarrow>
                    (res_bind (ac_estimate A (aw_calls w) g (ac_source A)) (\<lambda>est.
                       Inr (guarded_update g (risk_reasons A s pol controlled est))), tick w))))"

section \<open>\<open>execute_sql\<close>, \<open>verify\<close>, \<open>compose\<close>\<close>

definition act_execute ::
  "('p, 's, 'h) action_env \<Rightarrow> agent_state \<Rightarrow> ('p, 's, 'h, 'x) actions_world
     \<Rightarrow> (exn + agent_state) \<times> ('p, 's, 'h, 'x) actions_world" where
  "act_execute A s w =
     (case res_bind (need (as_guarded s)) (\<lambda>g. res_bind (need (as_policy s)) (\<lambda>pol. Inr (g, pol))) of
        Inl e \<Rightarrow> (Inl e, w)
      | Inr (g, pol) \<Rightarrow>
          (res_bind (ac_execute A (aw_calls w) g (ac_source A) pol) (\<lambda>r. Inr
             (no_state\<lparr>as_columns := Some (res_columns r), as_rows := Some (res_rows r),
                as_truncated := Some (truncated r), as_error := Some None\<rparr>)),
           (tick w)\<lparr>aw_ran := aw_ran w @ [g]\<rparr>))"

definition act_verify :: "agent_state \<Rightarrow> agent_state" where
  "act_verify s =
     (let expected = (case as_plan s of None \<Rightarrow> [] | Some p \<Rightarrow> ap_columns p) in
      no_state\<lparr>as_error := Some
        (if expected \<noteq> [] \<and> \<not> set expected \<subseteq> set (list_of (as_columns s))
         then Some (lit ''RESULT_COLUMNS_MISMATCH'') else None)\<rparr>)"

definition insufficient_answer :: pystr where
  "insufficient_answer =
     lit ''The metric knowledge base does not contain enough evidence to answer.''"

definition act_compose :: "('p, 's, 'h) action_env \<Rightarrow> agent_state \<Rightarrow> exn + agent_state" where
  "act_compose A s =
     (let columns = list_of (as_columns s); rows = list_of (as_rows s) in
      if error_of s = Some (lit ''RAG_INSUFFICIENT_EVIDENCE'')
      then Inr (no_state\<lparr>as_answer := Some insufficient_answer, as_error := Some None\<rparr>)
      else if has_error s then Inr (no_state\<lparr>as_answer := Some []\<rparr>)
      else res_bind
        (if as_intent s = Some Knowledge
         then Inr (case list_of (as_metric_context s) of [] \<Rightarrow> [] | m # _ \<Rightarrow> me_content m)
         else describe_sql_result (ac_uni A) (ac_repr A) columns rows
           (case as_truncated s of None \<Rightarrow> False | Some t \<Rightarrow> t)) (\<lambda>text.
        res_bind (build_chart_spec (ac_uni A) columns rows) (\<lambda>chart.
          Inr (no_state\<lparr>as_answer := Some text, as_chart := Some chart\<rparr>))))"

section \<open>The production workflow\<close>

text \<open>The graph calls the method of a node; \<open>request_approval\<close> is the graph's own.\<close>

definition northwind_action :: "('p, 's, 'h) action_env \<Rightarrow> ('p, 's, 'h, 'x) actions_world actions" where
  "northwind_action A n s w = (case n of
     Classify \<Rightarrow> act_classify A s w
   | Retrieve_Metrics \<Rightarrow> act_retrieve A s w
   | Select_Schema \<Rightarrow> act_select A s w
   | Generate_SQL \<Rightarrow> act_generate A s w
   | Guard_SQL \<Rightarrow> act_guard A s w
   | Execute_SQL \<Rightarrow> act_execute A s w
   | Verify \<Rightarrow> (Inr (act_verify s), w)
   | Compose \<Rightarrow> (act_compose A s, w)
   | Request_Approval \<Rightarrow> (Inl (Py KeyError), w))"

text \<open>
  The settings the factory reads (\<open>AgentWorkflowSettings\<close>): after validation \<open>max_repairs\<close> is
  one of three values and the confidence is between 0 and 1.
\<close>

datatype repair_limit = No_Repair | One_Repair | Two_Repairs

fun repairs_int :: "repair_limit \<Rightarrow> int" where
  "repairs_int No_Repair = 0"
| "repairs_int One_Repair = 1"
| "repairs_int Two_Repairs = 2"

record workflow_settings =
  ws_token :: pystr
  ws_platform_url :: pystr
  ws_repairs :: repair_limit
  ws_confidence :: real

definition mk_workflow_settings :: "pystr \<Rightarrow> pystr \<Rightarrow> int \<Rightarrow> real \<Rightarrow> exn + workflow_settings" where
  "mk_workflow_settings token url repairs confidence =
     (if 0 \<le> repairs \<and> repairs \<le> 2 \<and> 0 \<le> confidence \<and> confidence \<le> 1
      then Inr \<lparr>ws_token = token, ws_platform_url = url,
        ws_repairs = (if repairs = 0 then No_Repair else if repairs = 1 then One_Repair else Two_Repairs),
        ws_confidence = confidence\<rparr>
      else Inl (validation_error ''AgentWorkflowSettings''))"

text \<open>The platform the two sinks post to, and the clock of the step wrapper.\<close>

record 'x platform =
  pl_send :: "http_post \<Rightarrow> 'x \<Rightarrow> (exn + int) \<times> 'x"
  pl_elapsed :: "nat \<Rightarrow> int"

definition sink_timeout :: real where
  "sink_timeout = 5"

definition with_platform ::
  "('x \<Rightarrow> (exn + unit) \<times> 'x) \<Rightarrow> ('p, 's, 'h, 'x) actions_world
     \<Rightarrow> (exn + unit) \<times> ('p, 's, 'h, 'x) actions_world" where
  "with_platform f w = (case f (aw_platform w) of (r, x) \<Rightarrow> (r, (tick w)\<lparr>aw_platform := x\<rparr>))"

definition production_env ::
  "('p, 's, 'h) action_env \<Rightarrow> 'x platform \<Rightarrow> workflow_settings
     \<Rightarrow> ('p, 's, 'h, 'x) actions_world agent_env" where
  "production_env A P c =
     \<lparr>ag_action = northwind_action (A\<lparr>ac_min_confidence := ws_confidence c\<rparr>),
      ag_record = (\<lambda>r. with_platform (platform_step (pl_send P) (ws_platform_url c) (ws_token c) sink_timeout r)),
      ag_pending = (\<lambda>s. with_platform
         (platform_ensure_pending (pl_send P) (ws_platform_url c) (ws_token c) sink_timeout s)),
      ag_elapsed = (\<lambda>w. pl_elapsed P (aw_calls w)), ag_uni = ac_uni A, ag_sha = ac_sha A,
      ag_max_repairs = repairs_int (ws_repairs c)\<rparr>"

section \<open>What each action touches\<close>

text \<open>An update of an action that is not \<open>generate_sql\<close>: no attempt counted, no identity replaced.\<close>

definition plain_update :: "agent_state \<Rightarrow> bool" where
  "plain_update u \<longleftrightarrow> as_attempts u = None \<and> no_identity u"

lemma act_verify_frame: "plain_update (act_verify s)" "as_sql (act_verify s) = None"
  "as_policy (act_verify s) = None" "as_candidate_tables (act_verify s) = None"
  "as_confidence (act_verify s) = None" "as_guarded (act_verify s) = None"
  by (simp_all add: act_verify_def no_state_def plain_update_def no_identity_def)

lemma act_classify_frame:
  assumes "act_classify A s w = (x, w')"
  shows "aw_ran w' = aw_ran w" "x = Inr u \<Longrightarrow> plain_update u \<and> as_sql u = None \<and> as_policy u = None
    \<and> as_candidate_tables u = None \<and> as_confidence u = None \<and> as_guarded u = None"
  using assms
  by (auto simp: act_classify_def plain_update_def no_identity_def no_state_def rejected_update_def
      split: sum.splits exn.splits nl2sql_error.splits)

lemma act_retrieve_frame:
  assumes "act_retrieve A s w = (x, w')"
  shows "aw_ran w' = aw_ran w" "x = Inr u \<Longrightarrow> plain_update u \<and> as_sql u = None \<and> as_policy u = None
    \<and> as_candidate_tables u = None \<and> as_confidence u = None \<and> as_guarded u = None"
  using assms
  by (auto simp: act_retrieve_def plain_update_def no_identity_def tick_def retrieved_update_def
      no_state_def split: sum.splits option.splits prod.splits)

lemma act_select_Inr:
  assumes "act_select A s w = (Inr u, w')"
  shows "\<exists>snap pol q names ts conf narrowed p. actions_policy A snap = Inr pol
    \<and> restrict_to_tables pol (set ts) = Inr narrowed
    \<and> select_attempts A pol names 1 (confident_messages q snap) (aw_model w) = (Inr (ts, conf), p)
    \<and> u = no_state\<lparr>as_candidate_tables := Some ts, as_confidence := Some conf,
       as_snapshot := Some snap, as_policy := Some narrowed\<rparr>"
proof -
  from assms obtain snap pol q names where "actions_policy A snap = Inr pol"
    and run: "(case select_attempts A pol names 1 (confident_messages q snap) (aw_model w) of
        (r, p) \<Rightarrow> (res_bind r (\<lambda>(selected, confidence).
           res_bind (restrict_to_tables pol (set selected)) (\<lambda>narrowed. Inr
             (no_state\<lparr>as_candidate_tables := Some selected, as_confidence := Some confidence,
                as_snapshot := Some snap, as_policy := Some narrowed\<rparr>))),
           (tick w)\<lparr>aw_model := p\<rparr>)) = (Inr u, w')"
    by (auto simp: act_select_def split: sum.splits)
  moreover obtain r p where r: "select_attempts A pol names 1 (confident_messages q snap) (aw_model w) = (r, p)"
    by (cases "select_attempts A pol names 1 (confident_messages q snap) (aw_model w)")
  moreover from run r obtain ts conf narrowed where "r = Inr (ts, conf)"
    "restrict_to_tables pol (set ts) = Inr narrowed"
    "u = no_state\<lparr>as_candidate_tables := Some ts, as_confidence := Some conf,
       as_snapshot := Some snap, as_policy := Some narrowed\<rparr>"
    by auto
  ultimately show ?thesis by blast
qed

lemma act_select_frame:
  assumes "act_select A s w = (x, w')"
  shows "aw_ran w' = aw_ran w" "x = Inr u \<Longrightarrow> plain_update u \<and> as_sql u = None \<and> as_guarded u = None"
proof -
  show "aw_ran w' = aw_ran w"
    using assms by (auto simp: act_select_def tick_def split: sum.splits prod.splits)
  show "x = Inr u \<Longrightarrow> plain_update u \<and> as_sql u = None \<and> as_guarded u = None"
    using assms by (auto dest!: act_select_Inr simp: plain_update_def no_identity_def no_state_def)
qed

lemma act_generate_frame:
  assumes "act_generate A s w = (x, w')"
  shows "aw_ran w' = aw_ran w" "x = Inr u \<Longrightarrow> as_attempts u = Some (attempts_of s + 1) \<and> no_identity u
    \<and> as_policy u = None \<and> as_candidate_tables u = None \<and> as_confidence u = None \<and> as_guarded u = None"
  using assms
  by (auto simp: act_generate_def no_identity_def no_state_def split: sum.splits prod.splits)

lemma act_guard_Inr:
  assumes "act_guard A s w = (Inr u, w')"
  shows "\<exists>pol sql. as_policy s = Some pol \<and> as_sql s = Some sql
    \<and> ((\<exists>reason. u = rejected_update Repair_Risk reason)
     \<or> (\<exists>g controlled k est. inspect (ac_uni A) (ac_sqlglot A) (ac_sha A) sql pol = Inr g
          \<and> controlled_references A (normalized_sql g) = Inr controlled
          \<and> ac_estimate A k g (ac_source A) = Inr est
          \<and> u = guarded_update g (risk_reasons A s pol controlled est)))"
proof -
  from assms obtain pol sql where ps: "as_policy s = Some pol" "as_sql s = Some sql"
    by (auto simp: act_guard_def need_def split: sum.splits option.splits)
  note run = assms [unfolded act_guard_def ps need_def option.case res_bind.simps sum.case prod.case]
  show ?thesis
  proof (cases "inspect (ac_uni A) (ac_sqlglot A) (ac_sha A) sql pol")
    case (Inl e)
    with run have "\<exists>reason. u = rejected_update Repair_Risk reason"
      by (cases e) (auto split: query_safety_error.splits)
    with ps show ?thesis by blast
  next
    case (Inr g)
    with run obtain controlled est where
      "controlled_references A (normalized_sql g) = Inr controlled"
      "ac_estimate A (aw_calls w) g (ac_source A) = Inr est"
      "u = guarded_update g (risk_reasons A s pol controlled est)"
      by (auto split: sum.splits)
    with ps Inr show ?thesis by blast
  qed
qed

lemma act_guard_frame:
  assumes "act_guard A s w = (x, w')"
  shows "aw_ran w' = aw_ran w" "x = Inr u \<Longrightarrow> plain_update u \<and> as_sql u = None \<and> as_policy u = None
    \<and> as_candidate_tables u = None \<and> as_confidence u = None"
proof -
  show "aw_ran w' = aw_ran w"
    using assms by (auto simp: act_guard_def tick_def split: sum.splits exn.splits query_safety_error.splits)
  assume "x = Inr u"
  with assms have "act_guard A s w = (Inr u, w')" by simp
  from act_guard_Inr [OF this] show "plain_update u \<and> as_sql u = None \<and> as_policy u = None
    \<and> as_candidate_tables u = None \<and> as_confidence u = None"
    by (auto simp: plain_update_def no_identity_def rejected_update_def guarded_update_def no_state_def)
qed

lemma act_execute_frame:
  assumes "act_execute A s w = (x, w')"
  shows "aw_ran w' = aw_ran w \<or> (\<exists>g. as_guarded s = Some g \<and> aw_ran w' = aw_ran w @ [g])"
    "x = Inr u \<Longrightarrow> plain_update u \<and> as_sql u = None \<and> as_policy u = None
    \<and> as_candidate_tables u = None \<and> as_confidence u = None \<and> as_guarded u = None"
  using assms
  by (auto simp: act_execute_def need_def tick_def plain_update_def no_identity_def no_state_def
      split: sum.splits option.splits)

lemma act_compose_frame:
  "act_compose A s = Inr u \<Longrightarrow> plain_update u \<and> as_sql u = None \<and> as_policy u = None
    \<and> as_candidate_tables u = None \<and> as_confidence u = None \<and> as_guarded u = None"
  by (auto simp: act_compose_def Let_def plain_update_def no_identity_def no_state_def
      split: if_splits)

lemmas act_frames = act_classify_frame act_retrieve_frame act_select_frame act_generate_frame
  act_guard_frame act_execute_frame

text \<open>One action as a whole: what its update may hold.\<close>

lemma northwind_ran:
  assumes "northwind_action A n s w = (x, w')"
  shows "aw_ran w' = aw_ran w
    \<or> n = Execute_SQL \<and> (\<exists>g. as_guarded s = Some g \<and> aw_ran w' = aw_ran w @ [g])"
  using assms act_frames(1,3,5,7,9,11) by (cases n) (fastforce simp: northwind_action_def)+

lemma northwind_update:
  assumes "northwind_action A n s w = (Inr u, w')"
  shows "n \<noteq> Request_Approval \<and> no_identity u
    \<and> as_attempts u = (if n = Generate_SQL then Some (attempts_of s + 1) else None)
    \<and> (n \<noteq> Generate_SQL \<longrightarrow> as_sql u = None) \<and> (n \<noteq> Guard_SQL \<longrightarrow> as_guarded u = None)
    \<and> (n \<noteq> Select_Schema \<longrightarrow> as_policy u = None \<and> as_candidate_tables u = None
         \<and> as_confidence u = None)"
proof (cases n)
  case Generate_SQL
  with assms act_generate_frame(2) [of A s w "Inr u" w' u] show ?thesis
    by (simp add: northwind_action_def)
next
  case Classify
  with assms act_classify_frame(2) [of A s w "Inr u" w' u] show ?thesis
    by (simp add: northwind_action_def plain_update_def)
next
  case Retrieve_Metrics
  with assms act_retrieve_frame(2) [of A s w "Inr u" w' u] show ?thesis
    by (simp add: northwind_action_def plain_update_def)
next
  case Select_Schema
  with assms act_select_frame(2) [of A s w "Inr u" w' u] show ?thesis
    by (simp add: northwind_action_def plain_update_def)
next
  case Guard_SQL
  with assms act_guard_frame(2) [of A s w "Inr u" w' u] show ?thesis
    by (simp add: northwind_action_def plain_update_def)
next
  case Execute_SQL
  with assms act_execute_frame(2) [of A s w "Inr u" w' u] show ?thesis
    by (simp add: northwind_action_def plain_update_def)
next
  case Verify
  with assms act_verify_frame show ?thesis
    by (auto simp: northwind_action_def plain_update_def)
next
  case Compose
  with assms act_compose_frame [of A s u] show ?thesis
    by (simp add: northwind_action_def plain_update_def)
qed (use assms in \<open>simp add: northwind_action_def\<close>)

lemma with_platform_ran: "with_platform f w = (y, w') \<Longrightarrow> aw_ran w' = aw_ran w"
  by (auto simp: with_platform_def tick_def split: prod.splits)

section \<open>The production workflow keeps the contract of the graph\<close>

interpretation production: agent_actions "production_env A P c" aw_ran for A P c
proof unfold_locales
  show "0 \<le> ag_max_repairs (production_env A P c)" "ag_max_repairs (production_env A P c) \<le> 2"
    by (cases "ws_repairs c"; simp add: production_env_def)+
qed (auto simp: production_env_def dest: northwind_update northwind_ran with_platform_ran
       split: if_splits)

lemma production_repairs: "ag_max_repairs (production_env A P c) = repairs_int (ws_repairs c)"
  by (simp add: production_env_def)

section \<open>What stands guarded\<close>

text \<open>The policy of a state is narrowed to its selected tables and keeps the configured limits.\<close>

definition policy_ok :: "('p, 's, 'h) action_env \<Rightarrow> agent_state \<Rightarrow> bool" where
  "policy_ok A s \<longleftrightarrow> (\<forall>pol. as_policy s = Some pol \<longrightarrow>
     (\<exists>ts. as_candidate_tables s = Some ts \<and> allowed_tables pol = set ts)
     \<and> max_total_cost pol = ac_max_total_cost A \<and> max_plan_rows pol = ac_max_plan_rows A)"

text \<open>A query that needs no approval: cheap, without controlled columns, of a confident selection.\<close>

definition harmless :: "('p, 's, 'h) action_env \<Rightarrow> agent_state \<Rightarrow> guarded_query \<Rightarrow> bool" where
  "harmless A s g \<longleftrightarrow> controlled_references A (normalized_sql g) = Inr {}
     \<and> ac_min_confidence A \<le> (case as_confidence s of None \<Rightarrow> 1 | Some c \<Rightarrow> c)
     \<and> (\<exists>k est. ac_estimate A k g (ac_source A) = Inr est
          \<and> total_cost est \<le> ac_max_total_cost A \<and> plan_rows est \<le> ac_max_plan_rows A)"

definition guard_ok :: "('p, 's, 'h) action_env \<Rightarrow> agent_state \<Rightarrow> bool" where
  "guard_ok A s \<longleftrightarrow> (\<exists>pol sql g. as_policy s = Some pol \<and> as_sql s = Some sql \<and> as_guarded s = Some g
     \<and> inspect (ac_uni A) (ac_sqlglot A) (ac_sha A) sql pol = Inr g
     \<and> (as_risk s = Some Safe \<longrightarrow> harmless A s g))"

definition position_ok :: "('p, 's, 'h) action_env \<Rightarrow> ('p, 's, 'h, 'x) actions_world position \<Rightarrow> bool" where
  "position_ok A p \<longleftrightarrow> policy_ok A (po_state p)
     \<and> (po_node p \<in> {Request_Approval, Execute_SQL} \<longrightarrow> guard_ok A (po_state p))"

lemma risk_reasons_empty:
  "risk_reasons A s pol controlled est = [] \<longleftrightarrow> total_cost est \<le> max_total_cost pol
     \<and> plan_rows est \<le> max_plan_rows pol \<and> controlled = {}
     \<and> ac_min_confidence A \<le> (case as_confidence s of None \<Rightarrow> 1 | Some c \<Rightarrow> c)"
  by (auto simp: risk_reasons_def)

lemma merge_frame [simp]:
  "as_candidate_tables (merge_state s u) = newer (as_candidate_tables u) (as_candidate_tables s)"
  "as_confidence (merge_state s u) = newer (as_confidence u) (as_confidence s)"
  by (simp_all add: merge_state_def)

lemma selected_policy:
  assumes "actions_policy A snap = Inr pol" "restrict_to_tables pol names = Inr q"
  shows "allowed_tables q = names \<and> max_total_cost q = ac_max_total_cost A
    \<and> max_plan_rows q = ac_max_plan_rows A"
  using assms
  by (auto simp: actions_policy_def policy_from_snapshot_def mk_policy_Inr restrict_to_tables_def
      split: if_splits)

lemma approval_update:
  assumes "run_node E Request_Approval resume s w = (Updated u, w')"
  shows "\<exists>d e. u = no_state\<lparr>as_decision := Some d, as_error := Some e\<rparr>"
proof -
  from assms have "timed_step E (node_name Request_Approval) (pause E resume) s w = (Updated u, w')"
    by (simp add: run_node_def)
  then obtain w1 where "pause E resume s w = (Updated u, w1)" by (rule timed_step_Updated)
  from pause_Updated [OF this] show ?thesis by blast
qed

lemma policy_ok_step:
  assumes "northwind_action A n s w = (Inr u, w')" "policy_ok A s"
  shows "policy_ok A (merge_state s u)"
proof (cases "n = Select_Schema")
  case True
  with assms(1) have "act_select A s w = (Inr u, w')" by (simp add: northwind_action_def)
  from act_select_Inr [OF this] show ?thesis
    by (auto simp: policy_ok_def dest: selected_policy)
next
  case False
  with northwind_update [OF assms(1)] assms(2) show ?thesis by (simp add: policy_ok_def)
qed

lemma guard_ok_step:
  assumes "northwind_action A Guard_SQL s w = (Inr u, w')" "policy_ok A s"
    and "as_risk u \<noteq> Some Repair_Risk"
  shows "guard_ok A (merge_state s u)"
proof -
  from assms(1) have run: "act_guard A s w = (Inr u, w')" by (simp add: northwind_action_def)
  from act_guard_Inr [OF run] assms(3) obtain pol sql g controlled k est where
    "as_policy s = Some pol" "as_sql s = Some sql"
    "inspect (ac_uni A) (ac_sqlglot A) (ac_sha A) sql pol = Inr g"
    "controlled_references A (normalized_sql g) = Inr controlled"
    "ac_estimate A k g (ac_source A) = Inr est"
    and u: "u = guarded_update g (risk_reasons A s pol controlled est)"
    by (auto simp: rejected_update_def)
  moreover have f: "as_sql u = None" "as_policy u = None" "as_confidence u = None"
    "as_guarded u = Some g"
    "as_risk u = Some (if risk_reasons A s pol controlled est = [] then Safe else Approval)"
    by (simp_all add: u guarded_update_def no_state_def)
  moreover from calculation assms(2) have
    lims: "max_total_cost pol = ac_max_total_cost A" "max_plan_rows pol = ac_max_plan_rows A"
    by (simp_all add: policy_ok_def)
  moreover have "harmless A (merge_state s u) g" if "as_risk (merge_state s u) = Some Safe"
  proof -
    from that f(5) have "risk_reasons A s pol controlled est = []" by (simp split: if_splits)
    with calculation show ?thesis by (auto simp: harmless_def risk_reasons_empty)
  qed
  ultimately show ?thesis by (simp add: guard_ok_def)
qed

lemma position_ok_step:
  assumes "agent_step (production_env A P c) p q"
    and "position_ok (A\<lparr>ac_min_confidence := ws_confidence c\<rparr>) p"
  shows "position_ok (A\<lparr>ac_min_confidence := ws_confidence c\<rparr>) q"
  using assms(1)
proof (cases rule: agent_step.cases)
  case (move n resume s w u w' m)
  let ?A = "A\<lparr>ac_min_confidence := ws_confidence c\<rparr>"
  from assms(2) move(1) have ok: "policy_ok ?A s"
    "n \<in> {Request_Approval, Execute_SQL} \<Longrightarrow> guard_ok ?A s"
    by (auto simp: position_ok_def)
  show ?thesis
  proof (cases "n = Request_Approval")
    case True
    with move(3) have "run_node (production_env A P c) Request_Approval resume s w = (Updated u, w')"
      by simp
    from approval_update [OF this] obtain d e where
      "u = no_state\<lparr>as_decision := Some d, as_error := Some e\<rparr>" by blast
    then have "as_sql u = None" "as_policy u = None" "as_guarded u = None" "as_risk u = None"
      "as_candidate_tables u = None" "as_confidence u = None" by (simp_all add: no_state_def)
    with ok True move(2) show ?thesis
      by (simp add: position_ok_def policy_ok_def guard_ok_def harmless_def)
  next
    case False
    with move(3) obtain w1 where act: "northwind_action ?A n s w = (Inr u, w1)"
      by (auto elim!: run_node_action simp: production_env_def)
    have "m \<in> {Request_Approval, Execute_SQL} \<Longrightarrow> n = Guard_SQL \<and> as_risk (merge_state s u) \<noteq> Some Repair_Risk"
      using move(4) False by (cases n) (auto split: option.splits sql_risk.splits if_splits)
    moreover have "as_risk (merge_state s u) \<noteq> Some Repair_Risk \<Longrightarrow> as_risk u \<noteq> Some Repair_Risk"
      by auto
    ultimately show ?thesis
      using policy_ok_step [OF act ok(1)] guard_ok_step act ok(1) move(2)
      by (auto simp: position_ok_def)
  qed
qed

lemma reachable_position_ok:
  "reachable (production_env A P c) r w0 p \<Longrightarrow>
     position_ok (A\<lparr>ac_min_confidence := ws_confidence c\<rparr>) p"
proof (induction rule: reachable.induct)
  case start
  show ?case by (simp add: position_ok_def policy_ok_def initial_state_def no_state_def)
next
  case (step p q)
  from position_ok_step [OF step.hyps(2) step.IH] show ?case .
qed

section \<open>Properties\<close>

text \<open>
  C2. Only guarded and cleared queries run: a step of the production workflow that makes the
  executor run anything runs one query, the guarded form of the SQL of the state under the very
  policy of the state, which allows the selected tables and no others and has the configured cost
  limits; the SQL refers only to selected tables in the policy's schema, save unqualified references
  that bear the name of one of its CTEs. And either the query is harmless (estimated within both
  configured limits, no controlled column, selection confident enough) or its approval was asked for
  and given. A whole run executes at most one query more than the repairs allowed.
\<close>

theorem executed_queries_were_guarded_and_cleared:
  assumes "reachable (production_env A P c) r w0 p"
    and "run_node (production_env A P c) (po_node p) resume (po_state p) (po_world p) = (x, w')"
    and "aw_ran w' \<noteq> aw_ran (po_world p)"
  shows "\<exists>g sql pol ts s. aw_ran w' = aw_ran (po_world p) @ [g] \<and> as_sql (po_state p) = Some sql
    \<and> as_policy (po_state p) = Some pol
    \<and> inspect (ac_uni A) (ac_sqlglot A) (ac_sha A) sql pol = Inr g
    \<and> as_candidate_tables (po_state p) = Some ts \<and> allowed_tables pol = set ts
    \<and> max_total_cost pol = ac_max_total_cost A \<and> max_plan_rows pol = ac_max_plan_rows A
    \<and> single_query (ac_sqlglot A) sql s \<and> reads_within (ac_uni A) pol (set ts) s
    \<and> set (referenced_tables g) \<subseteq> qualified_name pol ` set ts
    \<and> (harmless (A\<lparr>ac_min_confidence := ws_confidence c\<rparr>) (po_state p) g
       \<or> as_risk (po_state p) = Some Approval \<and> as_decision (po_state p) = Some Approved)
    \<and> int (length (aw_ran w')) \<le> int (length (aw_ran w0)) + repairs_int (ws_repairs c) + 1"
proof -
  let ?A = "A\<lparr>ac_min_confidence := ws_confidence c\<rparr>"
  from production.executed_was_cleared [OF assms] obtain g where
    g: "as_guarded (po_state p) = Some g" "aw_ran w' = aw_ran (po_world p) @ [g]"
      "as_risk (po_state p) = Some Safe
       \<or> as_risk (po_state p) = Some Approval \<and> as_decision (po_state p) = Some Approved"
    by blast
  have node: "po_node p = Execute_SQL"
    using production.run_node_ran [OF assms(2)] assms(3) by blast
  from reachable_position_ok [OF assms(1)] have "policy_ok ?A (po_state p)"
    and gd: "guard_ok ?A (po_state p)"
    by (simp_all add: position_ok_def node)
  with g(1) obtain pol sql ts where
    i: "inspect (ac_uni A) (ac_sqlglot A) (ac_sha A) sql pol = Inr g" "as_sql (po_state p) = Some sql"
      "as_policy (po_state p) = Some pol" "as_candidate_tables (po_state p) = Some ts"
      "allowed_tables pol = set ts" "max_total_cost pol = ac_max_total_cost A"
      "max_plan_rows pol = ac_max_plan_rows A" "as_risk (po_state p) = Some Safe \<Longrightarrow> harmless ?A (po_state p) g"
    by (auto simp: policy_ok_def guard_ok_def)
  from inspect_reads [OF i(1)] obtain s where "single_query (ac_sqlglot A) sql s"
    "reads_within (ac_uni A) pol (set ts) s" "set (referenced_tables g) \<subseteq> qualified_name pol ` set ts"
    unfolding i(5) .
  moreover have "int (length (aw_ran w')) \<le> int (length (aw_ran w0)) + repairs_int (ws_repairs c) + 1"
    using production.reachable_ran [OF assms(1)] production.reachable_budget [OF assms(1)]
    by (simp add: node g(2) production.pending_query_def production.budget_ok_def production_repairs)
  ultimately show ?thesis using g i by blast
qed

text \<open>
  C10. Every run settles: whatever sequence of starts and resumptions the service has served, each
  of its threads has ended, waits for an approval or has failed; none was cut off by the
  runtime's limit of 25 steps. From any position a run can reach, 19 steps are enough.
\<close>

theorem every_run_settles:
  "(served (production_env A P c) g \<longrightarrow>
      (\<forall>run_id th. rt_threads g run_id = Some th \<longrightarrow> th_end th \<noteq> Out_of_steps
         \<and> (\<forall>q. th_end th = Paused q \<longrightarrow> th_node th = Request_Approval)))
   \<and> (reachable (production_env A P c) r w0 p \<longrightarrow>
      fst (run_from (production_env A P c) 19 (po_node p) resume (po_state p) (po_world p))
        \<noteq> Out_of_steps)"
proof (intro conjI impI)
  assume "served (production_env A P c) g"
  from production.served_threads_ok [OF this]
  show "\<forall>run_id th. rt_threads g run_id = Some th \<longrightarrow> th_end th \<noteq> Out_of_steps
         \<and> (\<forall>q. th_end th = Paused q \<longrightarrow> th_node th = Request_Approval)"
    by (auto simp: production.threads_ok_def production.thread_ok_def)
next
  assume "reachable (production_env A P c) r w0 p"
  from production.reachable_budget [OF this]
  show "fst (run_from (production_env A P c) 19 (po_node p) resume (po_state p) (po_world p))
        \<noteq> Out_of_steps"
    by (intro production.run_from_ends) simp_all
qed

text \<open>
  C18. A run is started once: after a start that was not refused as a conflict, a start with the
  same run id and the same identity (tenant, user, data source, question) runs nothing and
  reports the run as it stands; with another identity it is refused and changes nothing.
\<close>

theorem starting_is_idempotent:
  assumes "start_workflow (agent_runtime (production_env A P c)) r g = (x, g')"
    and "\<forall>e. x \<noteq> Inl (Workflow e)" and "sr_run_id q = sr_run_id r"
  shows "start_workflow (agent_runtime (production_env A P c)) q g' =
    (if requested_identity q = requested_identity r
     then inspect_run (agent_runtime (production_env A P c)) (sr_run_id r) g'
     else Inl (Workflow (WorkflowConflictError (lit ''the run id belongs to a different request''))), g')"
  using assms by (rule production.workflow.start_again)

text \<open>
  C8. A refusal is final: when a waiting run is resumed with a rejection and answers, its status
  is rejected, the executor has run nothing, and every later resumption is refused as a
  conflict without any effect.
\<close>

theorem rejection_is_final:
  assumes "served (production_env A P c) g" and "ar_decision a = Rejected"
    and "resume_workflow (agent_runtime (production_env A P c)) run_id tenant a g = (Inr res, g')"
  shows "wr_status res = Rejected_Run \<and> aw_ran (rt_world g') = aw_ran (rt_world g)
    \<and> (\<forall>b t. resume_workflow (agent_runtime (production_env A P c)) run_id t b g' =
          (Inl (Workflow (WorkflowConflictError (lit ''the workflow is not waiting for approval''))), g'))"
  using assms by (rule production.rejection_settles)


section \<open>Concrete runs\<close>

text \<open>A model that selects \<open>orders\<close> with a confidence, then drafts a query for it.\<close>

definition confident_wire :: "real \<Rightarrow> pydantic" where
  "confident_wire c = sample_wire\<lparr>pd_loads := (\<lambda>t. if t = lit ''S''
     then Some (JObj [(lit ''tables'', JList [JStr (lit ''orders'')]), (lit ''confidence'', JFloat c)])
     else pd_loads sample_wire t)\<rparr>"

definition orders_catalog :: catalog where
  "orders_catalog = \<lparr>cat_columns = [\<lparr>cr_table = lit ''orders'', cr_table_comment = None,
       cr_column = lit ''order_id'', cr_position = 1, cr_type = lit ''integer'', cr_nullable = False,
       cr_comment = None\<rparr>],
     cat_primary_keys = [], cat_foreign_keys = [], cat_version = None\<rparr>"

text \<open>A knowledge base without documents.\<close>

definition empty_repo :: "unit metric_repo" where
  "empty_repo = \<lparr>repo_replace = (\<lambda>m r s. (Inl (Retrieval RetrievalStoreError), s)),
     repo_lexical = (\<lambda>t q n s. (Inr [], s)), repo_vector = (\<lambda>t v n s. (Inr [], s)),
     repo_revision = (\<lambda>t s. Inr (lit ''0''))\<rparr>"

definition empty_knowledge :: "(unit, unit) retrieval_service" where
  "empty_knowledge = \<lparr>rs_uni = ascii_uni, rs_pdf = no_pdf, rs_sha = zero_sha, rs_repo = empty_repo,
     rs_embed = (\<lambda>texts h. (Inr (map (\<lambda>t. [1]) texts), h)), rs_reranker = None, rs_chunk_max = 1200,
     rs_chunk_overlap = 120, rs_default_limit = 5, rs_rrf_k = 60, rs_min_lexical = 1 / 20,
     rs_min_vector = 1 / 4, rs_limits = document_limits\<rparr>"

definition sample_actions :: "real \<Rightarrow> (fake_llm, unit, unit) action_env" where
  "sample_actions c = \<lparr>ac_uni = ascii_uni, ac_sha = zero_sha, ac_float = plain_float,
     ac_repr = (\<lambda>v. []), ac_sqlglot = orders_sqlglot,
     ac_references = (\<lambda>sql. Inr (st_tables orders_statement, st_columns orders_statement)),
     ac_wire = confident_wire c, ac_real = num_value, ac_provider = fake_provider (lit ''m''),
     ac_client = sample_client, ac_retrieval = empty_knowledge,
     ac_clock = (\<lambda>k. (0, 0)), ac_source = northwind_config,
     ac_catalog = (\<lambda>k schema. Inr orders_catalog),
     ac_estimate = (\<lambda>k g d. Inr \<lparr>total_cost = 5, plan_rows = 10\<rparr>),
     ac_execute = (\<lambda>k. pg_execute plain_float two_row_db), ac_max_total_cost = 10000,
     ac_max_plan_rows = 100000, ac_min_confidence = 0, ac_controlled = default_controlled\<rparr>"

definition sample_platform :: "http_post list platform" where
  "sample_platform = \<lparr>pl_send = (\<lambda>p sent. (Inr 200, sent @ [p])), pl_elapsed = (\<lambda>k. 0)\<rparr>"

definition sample_workflow_settings :: workflow_settings where
  "sample_workflow_settings = \<lparr>ws_token = lit ''t'', ws_platform_url = lit ''http://p'',
     ws_repairs = Two_Repairs, ws_confidence = 1 / 2\<rparr>"

abbreviation sample_workflow ::
  "real \<Rightarrow> (fake_llm, unit, unit, http_post list) actions_world agent_env" where
  "sample_workflow c \<equiv> production_env (sample_actions c) sample_platform sample_workflow_settings"

text \<open>The cache already holds the empty answer to the question.\<close>

definition warm_cache :: retrieval_cache where
  "warm_cache = cache_put \<lparr>rc_ttl = 300, rc_entries = (\<lambda>k. None)\<rparr> 7
     \<lparr>rr_query = lit ''hi'', rr_mode = retrieval_mode.Hybrid, rr_revision = lit ''0'', rr_hits = [],
      rr_citations = [], rr_should_answer = False\<rparr> 5 0"

definition sample_world :: "(fake_llm, unit, unit, http_post list) actions_world" where
  "sample_world = \<lparr>aw_model = sample_script [lit ''S'', lit ''D''],
     aw_retrieval = \<lparr>rt_store = (), rt_cache = warm_cache,
       rt_provider = ()\<rparr>, aw_calls = 0, aw_ran = [],
     aw_rejections = [], aw_platform = []\<rparr>"

definition sample_start_run :: start_run where
  "sample_start_run = \<lparr>sr_run_id = lit ''run'',
     sr_tenant_id = lit ''00000000-0000-0000-0000-000000000007'', sr_user_id = lit ''u'',
     sr_role = lit ''ANALYST'', sr_data_source_id = lit ''d'', sr_trace_id = zeros 31 @ [49],
     sr_question = lit ''hi''\<rparr>"

definition sample_origin ::
  "(fake_llm, unit, unit, http_post list) actions_world position" where
  "sample_origin = \<lparr>po_node = Classify, po_state = initial_state sample_start_run,
     po_world = sample_world\<rparr>"

definition fresh_runtime ::
  "(fake_llm, unit, unit, http_post list) actions_world runtime" where
  "fresh_runtime = \<lparr>rt_threads = (\<lambda>id. None), rt_world = sample_world\<rparr>"

lemma sample_origin_reachable [intro]: "reachable (sample_workflow c) sample_start_run sample_world sample_origin"
  unfolding sample_origin_def by (rule reachable.start)

lemma sample_executes:
  "map_option (\<lambda>p. (po_node p, aw_ran (po_world p),
       length (aw_ran (snd (run_node (sample_workflow (9 / 10)) (po_node p) None (po_state p) (po_world p))))))
     (walk (sample_workflow (9 / 10)) 5 sample_origin) = Some (Execute_SQL, [], 1)"
  by code_simp

lemma sample_waits:
  "map_sum (\<lambda>e. ()) wr_status (fst (start_workflow (agent_runtime (sample_workflow (1 / 4)))
     sample_start_run fresh_runtime)) = Inr Waiting_Approval"
  by code_simp

definition refusal :: approval_resume where
  "refusal = \<lparr>ar_approval_id = lit ''a'', ar_decision = Rejected, ar_decided_by = lit ''u'',
     ar_comment = None\<rparr>"

definition refused_run where
  "refused_run = resume_workflow (agent_runtime (sample_workflow (1 / 4))) (lit ''run'')
     (lit ''00000000-0000-0000-0000-000000000007'') refusal
     (snd (start_workflow (agent_runtime (sample_workflow (1 / 4))) sample_start_run fresh_runtime))"

lemma sample_refused: "map_sum (\<lambda>e. ()) wr_status (fst refused_run) = Inr Rejected_Run"
  by code_simp

theorem executed_queries_were_guarded_and_cleared_witness:
  "\<exists>p x w' g sql pol. reachable (sample_workflow (9 / 10)) sample_start_run sample_world p
     \<and> run_node (sample_workflow (9 / 10)) (po_node p) None (po_state p) (po_world p) = (x, w')
     \<and> aw_ran w' = [g] \<and> as_sql (po_state p) = Some sql \<and> as_policy (po_state p) = Some pol
     \<and> inspect ascii_uni orders_sqlglot zero_sha sql pol = Inr g"
proof -
  from sample_executes obtain p where p: "walk (sample_workflow (9 / 10)) 5 sample_origin = Some p"
    "aw_ran (po_world p) = []"
    "length (aw_ran (snd (run_node (sample_workflow (9 / 10)) (po_node p) None (po_state p) (po_world p)))) = 1"
    by auto
  obtain x w' where run: "run_node (sample_workflow (9 / 10)) (po_node p) None (po_state p) (po_world p) = (x, w')"
    by (cases "run_node (sample_workflow (9 / 10)) (po_node p) None (po_state p) (po_world p)")
  have r: "reachable (sample_workflow (9 / 10)) sample_start_run sample_world p"
    by (rule walk_reachable [OF p(1) sample_origin_reachable])
  have "aw_ran w' \<noteq> aw_ran (po_world p)" using p run by auto
  from executed_queries_were_guarded_and_cleared [OF r run this] p(2) obtain g sql pol where
    "aw_ran w' = [g]" "as_sql (po_state p) = Some sql" "as_policy (po_state p) = Some pol"
    "inspect (ac_uni (sample_actions (9 / 10))) (ac_sqlglot (sample_actions (9 / 10)))
       (ac_sha (sample_actions (9 / 10))) sql pol = Inr g"
    by auto
  with r run show ?thesis
    unfolding sample_actions_def by (intro exI [of _ p] exI conjI) simp_all
qed

theorem every_run_settles_witness:
  "\<exists>g th. served (sample_workflow (1 / 4)) g \<and> rt_threads g (lit ''run'') = Some th
     \<and> th_end th \<noteq> Out_of_steps"
proof -
  let ?E = "sample_workflow (1 / 4)"
  obtain x g where run: "start_workflow (agent_runtime ?E) sample_start_run fresh_runtime = (x, g)"
    by (cases "start_workflow (agent_runtime ?E) sample_start_run fresh_runtime")
  have s: "served ?E g"
    by (rule served.start [OF _ run]) (simp add: fresh_runtime_def served.fresh)
  from run have "\<exists>th. rt_threads g (sr_run_id sample_start_run) = Some th"
    by (auto simp: start_workflow_def agent_runtime_def thread_snapshot_def fresh_runtime_def
        invoke_def Let_def split: prod.splits sum.splits)
  moreover have "sr_run_id sample_start_run = lit ''run''" by (simp add: sample_start_run_def)
  ultimately obtain th where "rt_threads g (lit ''run'') = Some th" by auto
  moreover from every_run_settles s this have "th_end th \<noteq> Out_of_steps" by blast
  ultimately show ?thesis using s by blast
qed

theorem starting_is_idempotent_witness:
  "\<exists>x g y. start_workflow (agent_runtime (sample_workflow (1 / 4))) sample_start_run fresh_runtime = (x, g)
     \<and> start_workflow (agent_runtime (sample_workflow (1 / 4))) sample_start_run g = (y, g)"
proof -
  let ?G = "agent_runtime (sample_workflow (1 / 4))"
  obtain x g where run: "start_workflow ?G sample_start_run fresh_runtime = (x, g)"
    by (cases "start_workflow ?G sample_start_run fresh_runtime")
  with sample_waits have "\<forall>e. x \<noteq> Inl (Workflow e)" by (cases x) auto
  from starting_is_idempotent [OF run this refl] run show ?thesis by auto
qed

theorem rejection_is_final_witness:
  "\<exists>g res g'. resume_workflow (agent_runtime (sample_workflow (1 / 4))) (lit ''run'')
       (lit ''00000000-0000-0000-0000-000000000007'') refusal g = (Inr res, g')
     \<and> wr_status res = Rejected_Run \<and> aw_ran (rt_world g') = aw_ran (rt_world g)"
proof -
  let ?E = "sample_workflow (1 / 4)"
  obtain x g where run: "start_workflow (agent_runtime ?E) sample_start_run fresh_runtime = (x, g)"
    by (cases "start_workflow (agent_runtime ?E) sample_start_run fresh_runtime")
  have s: "served ?E g"
    by (rule served.start [OF _ run]) (simp add: fresh_runtime_def served.fresh)
  obtain y g' where resumed: "refused_run = (y, g')" by (cases refused_run)
  have "map_sum (\<lambda>e. ()) wr_status y = Inr Rejected_Run"
    using sample_refused unfolding resumed fst_conv .
  then obtain res where y: "y = Inr res" by (cases y) auto
  have "resume_workflow (agent_runtime ?E) (lit ''run'')
       (lit ''00000000-0000-0000-0000-000000000007'') refusal g = (Inr res, g')"
    using resumed [unfolded refused_run_def run snd_conv] y by simp
  moreover have "ar_decision refusal = Rejected" by (simp add: refusal_def)
  ultimately show ?thesis using rejection_is_final [OF s] by blast
qed

end
