(* ===== verification/Graph_Store.thy ===== *)
theory Graph_Store
  imports Metric_Store
begin

text \<open>
  The knowledge graph's models (\<open>knowledge_graph/models.py\<close>) and its in-memory store
  (\<open>knowledge_graph/repository.py\<close>): one graph per tenant and source, the neighbourhood of the
  entities a query matches, and the breadth-first search for a path. The locale \<open>graph_store\<close>
  states what the service relies on in a store.
\<close>

section \<open>Models\<close>

datatype entity_kind = Metric_Entity | Table_Entity | Column_Entity | Business_Term
  | Document_Entity | Data_Source_Entity

datatype relation_kind = Defined_In | Derived_From | Uses_Column | Belongs_To | Related_To | Joins_With

fun entity_kind_text :: "entity_kind \<Rightarrow> pystr" where
  "entity_kind_text Metric_Entity = lit ''Metric''"
| "entity_kind_text Table_Entity = lit ''Table''"
| "entity_kind_text Column_Entity = lit ''Column''"
| "entity_kind_text Business_Term = lit ''BusinessTerm''"
| "entity_kind_text Document_Entity = lit ''Document''"
| "entity_kind_text Data_Source_Entity = lit ''DataSource''"

fun relation_kind_text :: "relation_kind \<Rightarrow> pystr" where
  "relation_kind_text Defined_In = lit ''DEFINED_IN''"
| "relation_kind_text Derived_From = lit ''DERIVED_FROM''"
| "relation_kind_text Uses_Column = lit ''USES_COLUMN''"
| "relation_kind_text Belongs_To = lit ''BELONGS_TO''"
| "relation_kind_text Related_To = lit ''RELATED_TO''"
| "relation_kind_text Joins_With = lit ''JOINS_WITH''"

record entity_draft =
  ed_id :: pystr
  ed_name :: pystr
  ed_kind :: entity_kind
  ed_evidence :: pystr
  ed_confidence :: real

record relation_draft =
  rd_source :: pystr
  rd_target :: pystr
  rd_kind :: relation_kind
  rd_evidence :: pystr
  rd_confidence :: real

record extraction =
  ex_entities :: "entity_draft list"
  ex_relations :: "relation_draft list"

definition length_in :: "nat \<Rightarrow> nat \<Rightarrow> pystr \<Rightarrow> bool" where
  "length_in lo hi s \<longleftrightarrow> lo \<le> length s \<and> length s \<le> hi"

definition entity_fields_ok :: "entity_draft \<Rightarrow> bool" where
  "entity_fields_ok e \<longleftrightarrow> length_in 1 80 (ed_id e) \<and> length_in 1 160 (ed_name e)
     \<and> length_in 1 1000 (ed_evidence e) \<and> 0 \<le> ed_confidence e \<and> ed_confidence e \<le> 1"

definition relation_fields_ok :: "relation_draft \<Rightarrow> bool" where
  "relation_fields_ok r \<longleftrightarrow> length_in 1 80 (rd_source r) \<and> length_in 1 80 (rd_target r)
     \<and> length_in 1 1000 (rd_evidence r) \<and> 0 \<le> rd_confidence r \<and> rd_confidence r \<le> 1"

text \<open>\<open>validate_references\<close>\<close>

definition references_ok :: "unidata \<Rightarrow> extraction \<Rightarrow> bool" where
  "references_ok U x \<longleftrightarrow> (let ids = map ed_id (ex_entities x) in
     \<not> has_duplicates ids
     \<and> \<not> has_duplicates (map (\<lambda>e. (ed_kind e, u_casefold U (ed_name e))) (ex_entities x))
     \<and> list_all (\<lambda>r. rd_source r \<in> set ids \<and> rd_target r \<in> set ids) (ex_relations x))"

definition mk_extraction :: "unidata \<Rightarrow> extraction \<Rightarrow> exn + extraction" where
  "mk_extraction U x =
     (if list_all entity_fields_ok (ex_entities x) \<and> length (ex_entities x) \<le> 100
         \<and> list_all relation_fields_ok (ex_relations x) \<and> length (ex_relations x) \<le> 200
         \<and> references_ok U x
      then Inr x else Inl (validation_error ''Extraction''))"

record graph_node =
  gn_id :: pystr
  gn_name :: pystr
  gn_kind :: entity_kind
  gn_source_id :: uuid
  gn_source_name :: pystr
  gn_evidence :: pystr
  gn_confidence :: real
  gn_extracted_at :: real

record graph_edge =
  ge_id :: pystr
  ge_source :: pystr
  ge_target :: pystr
  ge_kind :: relation_kind
  ge_source_id :: uuid
  ge_source_name :: pystr
  ge_evidence :: pystr
  ge_confidence :: real
  ge_extracted_at :: real

record subgraph =
  su_nodes :: "graph_node list"
  su_edges :: "graph_edge list"
  su_truncated :: bool

definition no_graph :: subgraph where
  "no_graph = \<lparr>su_nodes = [], su_edges = [], su_truncated = False\<rparr>"

section \<open>The in-memory store\<close>

type_synonym memory_graphs = "((uuid \<times> uuid) \<times> subgraph) list"

definition graph_replace :: "uuid \<Rightarrow> uuid \<Rightarrow> subgraph \<Rightarrow> memory_graphs \<Rightarrow> memory_graphs" where
  "graph_replace tenant source g s = AList.update (tenant, source) g s"

definition tenant_graphs :: "uuid \<Rightarrow> memory_graphs \<Rightarrow> subgraph list" where
  "tenant_graphs tenant s = map snd (filter (\<lambda>((t, _), g). t = tenant) s)"

definition all_nodes :: "uuid \<Rightarrow> memory_graphs \<Rightarrow> graph_node list" where
  "all_nodes tenant s = concat (map su_nodes (tenant_graphs tenant s))"

definition all_edges :: "uuid \<Rightarrow> memory_graphs \<Rightarrow> graph_edge list" where
  "all_edges tenant s = concat (map su_edges (tenant_graphs tenant s))"

definition name_matches :: "unidata \<Rightarrow> pystr \<Rightarrow> pystr \<Rightarrow> bool" where
  "name_matches U name query \<longleftrightarrow> contains (u_casefold U name) (u_casefold U query)
     \<or> contains (u_casefold U query) (u_casefold U name)"

text \<open>One round of the loop: the other ends of the edges that touch the selection.\<close>

definition adjacent :: "graph_edge list \<Rightarrow> pystr set \<Rightarrow> pystr set" where
  "adjacent es S = ge_target ` {e \<in> set es. ge_source e \<in> S} \<union> ge_source ` {e \<in> set es. ge_target e \<in> S}"

primrec expand :: "graph_edge list \<Rightarrow> nat \<Rightarrow> pystr set \<Rightarrow> pystr set" where
  "expand es 0 S = S"
| "expand es (Suc k) S = expand es k (S \<union> adjacent es S)"

definition graph_seeds :: "unidata \<Rightarrow> graph_node list \<Rightarrow> pystr \<Rightarrow> int \<Rightarrow> pystr list" where
  "graph_seeds U nodes query n =
     upto_slice (n + 1) (map gn_id (filter (\<lambda>x. query = [] \<or> name_matches U (gn_name x) query) nodes))"

definition memory_subgraph ::
  "unidata \<Rightarrow> uuid \<Rightarrow> pystr \<Rightarrow> int \<Rightarrow> int \<Rightarrow> memory_graphs \<Rightarrow> subgraph" where
  "memory_subgraph U tenant query depth n s =
     (let nodes = all_nodes tenant s; edges = all_edges tenant s;
          selected = expand edges (nat depth) (set (graph_seeds U nodes query n));
          found = filter (\<lambda>x. gn_id x \<in> selected) nodes;
          chosen = gn_id ` set (upto_slice n found) in
      \<lparr>su_nodes = upto_slice n found,
       su_edges = take 200 (filter (\<lambda>e. ge_source e \<in> chosen \<and> ge_target e \<in> chosen) edges),
       su_truncated = int (length found) > n\<rparr>)"

section \<open>Paths\<close>

text \<open>The other end of an edge at a node; an empty id counts as none.\<close>

definition neighbor :: "pystr \<Rightarrow> graph_edge \<Rightarrow> pystr option" where
  "neighbor node e =
     (let other = (if ge_source e = node then Some (ge_target e)
        else if ge_target e = node then Some (ge_source e) else None) in
      if other = Some [] then None else other)"

type_synonym partial_path = "pystr \<times> graph_edge list \<times> pystr set"

definition extensions :: "graph_edge list \<Rightarrow> partial_path \<Rightarrow> partial_path list" where
  "extensions es p = (case p of (node, route, visited) \<Rightarrow>
     List.map_filter (\<lambda>e. case neighbor node e of
         None \<Rightarrow> None
       | Some m \<Rightarrow> if m \<in> visited then None else Some (m, route @ [e], insert m visited)) es)"

text \<open>
  The search loop over the queue. It ends: with \<open>k\<close> edges, a path of length \<open>l\<close> weighs
  \<open>(k + 2)\<close> to the power \<open>depth + 1 - l\<close>, more than its extensions together.
\<close>

definition path_weight :: "nat \<Rightarrow> int \<Rightarrow> partial_path \<Rightarrow> nat" where
  "path_weight k depth p = (k + 2) ^ (nat depth + 1 - length (fst (snd p)))"

lemma length_extensions: "length (extensions es p) \<le> length es"
  by (cases p) (simp add: extensions_def List.map_filter_def)

lemma extension_route: "q \<in> set (extensions es p) \<Longrightarrow> length (fst (snd q)) = Suc (length (fst (snd p)))"
  by (cases p) (auto simp: extensions_def List.map_filter_def split: option.splits if_splits)

lemma extensions_weigh_less:
  assumes "int (length (fst (snd p))) < depth"
  shows "sum_list (map (path_weight (length es) depth) (extensions es p)) < path_weight (length es) depth p"
proof -
  define k l where "k = length es" and "l = length (fst (snd p))"
  define m where "m = nat depth - l"
  have m: "nat depth + 1 - l = Suc m" "nat depth + 1 - Suc l = m"
    using assms by (auto simp: m_def l_def)
  have "map (path_weight k depth) (extensions es p) = map (\<lambda>q. (k + 2) ^ m) (extensions es p)"
    using extension_route m by (auto simp: path_weight_def l_def)
  then have "sum_list (map (path_weight k depth) (extensions es p)) = length (extensions es p) * (k + 2) ^ m"
    by (simp only: sum_list_triv of_nat_id)
  also have "\<dots> \<le> k * (k + 2) ^ m"
    using length_extensions [of es p] by (simp add: k_def)
  also have "\<dots> < (k + 2) ^ Suc m" by simp
  also have "\<dots> = path_weight k depth p" using m by (simp add: path_weight_def l_def)
  finally show ?thesis by (simp add: k_def)
qed

function search_path ::
  "graph_edge list \<Rightarrow> int \<Rightarrow> pystr \<Rightarrow> partial_path list \<Rightarrow> (graph_edge list \<times> pystr set) option" where
  "search_path es depth target [] = None"
| "search_path es depth target ((node, route, visited) # queue) =
     (if node = target then Some (route, visited)
      else if int (length route) \<ge> depth then search_path es depth target queue
      else search_path es depth target (queue @ extensions es (node, route, visited)))"
  by pat_completeness auto

termination
proof (relation "measure (\<lambda>(es, depth, target, queue). sum_list (map (path_weight (length es) depth) queue))")
  fix es :: "graph_edge list" and depth :: int and target node :: pystr and route visited queue
  show "\<not> depth \<le> int (length route) \<Longrightarrow>
    ((es, depth, target, queue @ extensions es (node, route, visited)),
     (es, depth, target, (node, route, visited) # queue))
    \<in> measure (\<lambda>(es, depth, target, queue). sum_list (map (path_weight (length es) depth) queue))"
    using extensions_weigh_less [of "(node, route, visited)" depth es] by simp
qed (simp_all add: path_weight_def)

definition memory_path :: "uuid \<Rightarrow> pystr \<Rightarrow> pystr \<Rightarrow> int \<Rightarrow> memory_graphs \<Rightarrow> exn + subgraph" where
  "memory_path tenant source target depth s =
     (let lookup = dict_of (map (\<lambda>n. (gn_id n, n)) (all_nodes tenant s)) in
      if map_of lookup source = None \<or> map_of lookup target = None then Inr no_graph
      else (case search_path (all_edges tenant s) depth target [(source, [], {source})] of
          None \<Rightarrow> Inr no_graph
        | Some (route, visited) \<Rightarrow>
            res_bind (res_map (\<lambda>k. case map_of lookup k of None \<Rightarrow> Inl (Py KeyError) | Some n \<Rightarrow> Inr n)
                (sorted_list_of_set visited)) (\<lambda>nodes.
              Inr \<lparr>su_nodes = nodes, su_edges = route, su_truncated = False\<rparr>)))"

section \<open>Shortest paths\<close>

text \<open>A route: edges from a node to another that visit no node twice, and the nodes they visit.\<close>

inductive route :: "graph_edge list \<Rightarrow> pystr \<Rightarrow> pystr \<Rightarrow> graph_edge list \<Rightarrow> pystr set \<Rightarrow> bool" for es a where
  stay: "route es a a [] {a}"
| extend: "route es a m r V \<Longrightarrow> e \<in> set es \<Longrightarrow> neighbor m e = Some n \<Longrightarrow> n \<notin> V
    \<Longrightarrow> route es a n (r @ [e]) (insert n V)"

inductive_cases route_NilE: "route es a n [] V"

lemma route_last:
  "route es a n (r @ [e]) V \<Longrightarrow>
     \<exists>m W. route es a m r W \<and> e \<in> set es \<and> neighbor m e = Some n \<and> n \<notin> W \<and> V = insert n W"
  by (erule route.cases) auto

lemma route_unique: "route es a n r V \<Longrightarrow> route es a m r W \<Longrightarrow> n = m \<and> V = W"
proof (induction arbitrary: m W rule: route.induct)
  case stay
  then show ?case by (auto elim: route_NilE)
next
  case (extend k r V e n)
  from route_last [OF extend.prems] extend.IH extend.hyps(3) show ?case by fastforce
qed

lemma route_prefix: "route es a n (r @ q) V \<Longrightarrow> \<exists>m W. route es a m r W"
proof (induction q arbitrary: n V rule: rev_induct)
  case (snoc e q)
  from snoc.prems have "route es a n ((r @ q) @ [e]) V" by simp
  from route_last [OF this] snoc.IH show ?case by blast
qed auto

lemma route_edges: "route es a n r V \<Longrightarrow> set r \<subseteq> set es \<and> finite V \<and> card V = Suc (length r) \<and> a \<in> V \<and> n \<in> V"
proof (induction rule: route.induct)
  case (extend m r V e n)
  then show ?case by (simp add: card_insert_disjoint)
qed simp

text \<open>The step of the search: the extensions of a route are the routes one edge longer.\<close>

lemma map_filter_iff: "y \<in> set (List.map_filter f xs) \<longleftrightarrow> (\<exists>x \<in> set xs. f x = Some y)"
  by (induction xs) (auto simp: List.map_filter_simps split: option.splits)

lemma extensions_iff:
  "(m, r', W) \<in> set (extensions es (n, r, V)) \<longleftrightarrow>
     (\<exists>e \<in> set es. neighbor n e = Some m \<and> m \<notin> V \<and> r' = r @ [e] \<and> W = insert m V)"
proof -
  have "(case neighbor n e of None \<Rightarrow> None
         | Some x \<Rightarrow> if x \<in> V then None else Some (x, r @ [e], insert x V)) = Some (m, r', W)
       \<longleftrightarrow> neighbor n e = Some m \<and> m \<notin> V \<and> r' = r @ [e] \<and> W = insert m V" for e
    by (cases "neighbor n e") auto
  then show ?thesis by (simp add: extensions_def map_filter_iff)
qed

definition routed :: "graph_edge list \<Rightarrow> pystr \<Rightarrow> partial_path \<Rightarrow> bool" where
  "routed es a p \<longleftrightarrow> route es a (fst p) (fst (snd p)) (snd (snd p))"

definition path_length :: "partial_path \<Rightarrow> nat" where
  "path_length p = length (fst (snd p))"

lemma extensions_routed:
  "routed es a p \<Longrightarrow> q \<in> set (extensions es p) \<Longrightarrow> routed es a q \<and> path_length q = Suc (path_length p)"
proof -
  assume p: "routed es a p" and q: "q \<in> set (extensions es p)"
  obtain n r V m r' W where pq: "p = (n, r, V)" "q = (m, r', W)" by (metis prod_cases3)
  with q obtain e where "e \<in> set es" "neighbor n e = Some m" "m \<notin> V" "r' = r @ [e]" "W = insert m V"
    by (auto simp: extensions_iff)
  with p pq show ?thesis by (simp add: routed_def path_length_def route.extend)
qed

lemma search_path_sound:
  assumes "search_path es depth target queue = Some (r, V)"
    and "\<forall>p \<in> set queue. routed es a p \<and> int (path_length p) \<le> max 0 depth"
  shows "route es a target r V \<and> int (length r) \<le> max 0 depth"
  using assms
proof (induction es depth target queue rule: search_path.induct)
  case (2 es depth target node q visited queue)
  let ?p = "(node, q, visited)"
  have p: "routed es a ?p" "int (path_length ?p) \<le> max 0 depth" using 2(4) by auto
  consider "node = target" | "node \<noteq> target" "depth \<le> int (length q)"
    | "node \<noteq> target" "\<not> depth \<le> int (length q)" by blast
  then show ?case
  proof cases
    case 1
    with 2(3) p show ?thesis by (simp add: routed_def path_length_def)
  next
    case 2
    with \<open>search_path es depth target (?p # queue) = Some (r, V)\<close>
    have "search_path es depth target queue = Some (r, V)" by simp
    with "2.IH"(1) 2 "2.prems"(2) show ?thesis by simp
  next
    case 3
    with "2.prems"(1) have run: "search_path es depth target (queue @ extensions es ?p) = Some (r, V)"
      by simp
    have "\<forall>x \<in> set (extensions es ?p). routed es a x \<and> int (path_length x) \<le> max 0 depth"
      using extensions_routed [OF p(1)] 3(2) by (auto simp: path_length_def)
    with "2.prems"(2) have "\<forall>x \<in> set (queue @ extensions es ?p). routed es a x \<and> int (path_length x) \<le> max 0 depth"
      by auto
    from "2.IH"(2) [OF 3 run this] show ?thesis .
  qed
qed simp

text \<open>
  The queue is in ascending order of length, spread over at most two lengths; any route to the
  target continues an entry of the queue, so the search returns one that is not longer.
\<close>

definition level_queue :: "partial_path list \<Rightarrow> bool" where
  "level_queue queue \<longleftrightarrow> sorted (map path_length queue)
     \<and> (\<forall>p \<in> set queue. path_length p \<le> Suc (path_length (hd queue)))"

lemma level_queue_tail:
  assumes "level_queue (p # queue)" shows "level_queue queue"
proof (cases queue)
  case (Cons q qs)
  with assms have "path_length p \<le> path_length q" "sorted (map path_length queue)"
    "\<And>x. x \<in> set queue \<Longrightarrow> path_length x \<le> Suc (path_length p)"
    by (auto simp: level_queue_def)
  moreover have "hd queue = q" using Cons by simp
  ultimately show ?thesis unfolding level_queue_def by (metis Suc_le_mono order_trans)
qed (simp add: level_queue_def)

lemma level_queue_step:
  assumes "level_queue (p # queue)" and "\<And>q. q \<in> set ext \<Longrightarrow> path_length q = Suc (path_length p)"
  shows "level_queue (queue @ ext)"
proof -
  have const: "map path_length ext = replicate (length ext) (Suc (path_length p))"
    using assms(2) by (induction ext) auto
  from assms(1) have q: "sorted (map path_length queue)"
    "\<And>x. x \<in> set queue \<Longrightarrow> path_length p \<le> path_length x \<and> path_length x \<le> Suc (path_length p)"
    by (auto simp: level_queue_def)
  have "sorted (map path_length (queue @ ext))"
    using q by (auto simp: sorted_append const)
  moreover have "path_length x \<le> Suc (path_length (hd (queue @ ext)))" if "x \<in> set (queue @ ext)" for x
  proof -
    have "path_length p \<le> path_length (hd (queue @ ext))"
    proof (cases queue)
      case Nil
      with that have "hd ext \<in> set ext" by (cases ext) auto
      with Nil assms(2) show ?thesis by simp
    qed (use q(2) in simp)
    moreover have "path_length x \<le> Suc (path_length p)" using that q(2) [of x] assms(2) [of x] by auto
    ultimately show ?thesis by simp
  qed
  ultimately show ?thesis by (simp add: level_queue_def)
qed

definition continues :: "graph_edge list \<Rightarrow> partial_path list \<Rightarrow> bool" where
  "continues r queue \<longleftrightarrow> (\<exists>p \<in> set queue. \<exists>q. r = fst (snd p) @ q)"

text \<open>A route that is longer than a path of the queue it continues goes on with an extension.\<close>

lemma continues_extension:
  assumes "routed es a p" and "route es a target (fst (snd p) @ q) V" and "fst p \<noteq> target"
  shows "q \<noteq> [] \<and> continues (fst (snd p) @ q) (extensions es p)"
proof (cases q)
  case Nil
  with assms route_unique [of es a "fst p" "fst (snd p)" "snd (snd p)" target V] show ?thesis
    by (auto simp: routed_def)
next
  case (Cons e q')
  with assms(2) have "route es a target ((fst (snd p) @ [e]) @ q') V" by simp
  from route_prefix [OF this] obtain m W where "route es a m (fst (snd p) @ [e]) W" by blast
  from route_last [OF this] obtain n U where
    n: "route es a n (fst (snd p)) U" "e \<in> set es" "neighbor n e = Some m" "m \<notin> U" by blast
  with assms(1) have "n = fst p" "U = snd (snd p)"
    using route_unique by (auto simp: routed_def)
  with n have "(m, fst (snd p) @ [e], insert m (snd (snd p))) \<in> set (extensions es p)"
    by (cases p) (auto simp: extensions_iff)
  with Cons show ?thesis
    by (auto simp: continues_def intro!: bexI [of _ "(m, fst (snd p) @ [e], insert m (snd (snd p)))"])
qed

lemma search_path_shortest:
  assumes "level_queue queue" and "\<forall>p \<in> set queue. routed es a p"
    and "route es a target r V" "int (length r) \<le> depth" and "continues r queue"
  shows "\<exists>r' V'. search_path es depth target queue = Some (r', V') \<and> length r' \<le> length r"
  using assms
proof (induction es depth target queue rule: search_path.induct)
  case (1 es depth target)
  then show ?case by (simp add: continues_def)
next
  case (2 es depth target node q visited queue)
  let ?p = "(node, q, visited)"
  from "2.prems"(5) obtain p rest where p: "p \<in> set (?p # queue)" "r = fst (snd p) @ rest"
    unfolding continues_def by blast
  from p(1) "2.prems"(1) have "path_length ?p \<le> path_length p" by (auto simp: level_queue_def)
  then have le: "length q \<le> length r" using p(2) by (simp add: path_length_def)
  have routed: "routed es a ?p" "\<forall>x \<in> set queue. routed es a x" using "2.prems"(2) by auto
  consider "node = target" | "node \<noteq> target" "depth \<le> int (length q)"
    | "node \<noteq> target" "\<not> depth \<le> int (length q)" by blast
  then show ?case
  proof cases
    case 1
    with le show ?thesis by simp
  next
    case 2
    have "p \<noteq> ?p"
    proof
      assume "p = ?p"
      with continues_extension [OF routed(1), of target rest V] "2.prems"(3) p(2) 2(1) have
        "rest \<noteq> []" by simp
      with p(2) \<open>p = ?p\<close> 2(2) "2.prems"(4) show False by (cases rest) auto
    qed
    with p have "continues r queue" by (auto simp: continues_def)
    with "2.IH"(1) [OF 2 level_queue_tail [OF "2.prems"(1)] routed(2) "2.prems"(3,4)] 2
    show ?thesis by simp
  next
    case 3
    have lq: "level_queue (queue @ extensions es ?p)"
      by (rule level_queue_step [OF "2.prems"(1)]) (use extensions_routed [OF routed(1)] in blast)
    have rq: "\<forall>x \<in> set (queue @ extensions es ?p). routed es a x"
      using routed extensions_routed by auto
    have "continues r (queue @ extensions es ?p)"
    proof (cases "p = ?p")
      case True
      with continues_extension [OF routed(1), of target rest V] "2.prems"(3) p(2) 3(1) show ?thesis
        by (auto simp: continues_def)
    qed (use p in \<open>auto simp: continues_def\<close>)
    with "2.IH"(2) [OF 3 lq rq "2.prems"(3,4)] 3 show ?thesis by simp
  qed
qed

section \<open>Neighbourhoods\<close>

definition linked :: "graph_edge list \<Rightarrow> pystr \<Rightarrow> pystr \<Rightarrow> bool" where
  "linked es a b \<longleftrightarrow> (\<exists>e \<in> set es. ge_source e = a \<and> ge_target e = b \<or> ge_target e = a \<and> ge_source e = b)"

lemma expand_relpow: "b \<in> expand es k S \<longleftrightarrow> (\<exists>a \<in> S. \<exists>j \<le> k. (linked es ^^ j) a b)"
proof (induction k arbitrary: S)
  case (Suc k)
  have adj: "c \<in> adjacent es S \<longleftrightarrow> (\<exists>a \<in> S. linked es a c)" for c
    by (auto simp: adjacent_def linked_def)
  have walk: "(\<exists>c. linked es a c \<and> (\<exists>j \<le> k. (linked es ^^ j) c b)) \<longleftrightarrow> (\<exists>j \<le> k. (linked es ^^ Suc j) a b)"
    for a
    by (metis relpowp_Suc_D2 relpowp_Suc_I2)
  have split: "(\<exists>j \<le> Suc k. P j) \<longleftrightarrow> (\<exists>j \<le> k. P j) \<or> (\<exists>j \<le> k. P (Suc j))" for P
  proof
    assume "\<exists>j \<le> Suc k. P j"
    then obtain j where "j \<le> Suc k" "P j" by blast
    then show "(\<exists>j \<le> k. P j) \<or> (\<exists>j \<le> k. P (Suc j))" by (cases j) auto
  qed (auto intro: le_SucI)
  have "b \<in> expand es (Suc k) S \<longleftrightarrow> (\<exists>a \<in> S. \<exists>j \<le> k. (linked es ^^ j) a b)
      \<or> (\<exists>a \<in> S. \<exists>c. linked es a c \<and> (\<exists>j \<le> k. (linked es ^^ j) c b))"
    unfolding expand.simps Suc.IH using adj by blast
  also have "\<dots> \<longleftrightarrow> (\<exists>a \<in> S. \<exists>j \<le> Suc k. (linked es ^^ j) a b)"
    unfolding walk split by blast
  finally show ?case .
qed simp

text \<open>Paths and links: without empty ids, a chain of links gives a route that is not longer.\<close>

lemma route_visits:
  "route es a n r V \<Longrightarrow> b \<in> V \<Longrightarrow> \<exists>r' V'. route es a b r' V' \<and> length r' \<le> length r"
proof (induction rule: route.induct)
  case stay
  then show ?case using route.stay by auto
next
  case (extend m r V e n)
  show ?case
  proof (cases "b = n")
    case True
    from route.extend [OF extend.hyps] True show ?thesis by blast
  next
    case False
    with extend.prems have "b \<in> V" by simp
    from extend.IH [OF this] show ?thesis by (auto intro: le_SucI)
  qed
qed

lemma neighbor_linked: "neighbor a e = Some b \<Longrightarrow> e \<in> set es \<Longrightarrow> linked es a b"
  by (auto simp: neighbor_def linked_def Let_def split: if_splits)

lemma linked_neighbor: "linked es a b \<Longrightarrow> b \<noteq> [] \<Longrightarrow> a \<noteq> b \<Longrightarrow> \<exists>e \<in> set es. neighbor a e = Some b"
proof -
  assume l: "linked es a b" and b: "b \<noteq> []" "a \<noteq> b"
  from l obtain e where "e \<in> set es" "ge_source e = a \<and> ge_target e = b \<or> ge_target e = a \<and> ge_source e = b"
    unfolding linked_def by blast
  with b have "neighbor a e = Some b" by (auto simp: neighbor_def)
  with \<open>e \<in> set es\<close> show ?thesis by blast
qed

lemma route_relpow: "route es a n r V \<Longrightarrow> (linked es ^^ length r) a n"
proof (induction rule: route.induct)
  case (extend m r V e n)
  with neighbor_linked [of m e n es] show ?case by auto
qed simp

definition named_ends :: "graph_edge list \<Rightarrow> bool" where
  "named_ends es \<longleftrightarrow> list_all (\<lambda>e. ge_source e \<noteq> [] \<and> ge_target e \<noteq> []) es"

lemma relpow_route:
  assumes "named_ends es"
  shows "(linked es ^^ k) a b \<Longrightarrow> \<exists>r V. route es a b r V \<and> length r \<le> k"
proof (induction k arbitrary: b)
  case 0
  then show ?case using route.stay by auto
next
  case (Suc k)
  then obtain c where c: "(linked es ^^ k) a c" "linked es c b" by auto
  from Suc.IH [OF c(1)] obtain r V where r: "route es a c r V" "length r \<le> k" by blast
  show ?case
  proof (cases "b \<in> V")
    case True
    from route_visits [OF r(1) True] r(2) show ?thesis by (metis le_SucI order_trans)
  next
    case False
    have "b \<noteq> []" using assms c(2) by (auto simp: named_ends_def linked_def list_all_iff)
    moreover have "c \<noteq> b" using False route_edges [OF r(1)] by auto
    ultimately obtain e where "e \<in> set es" "neighbor c e = Some b"
      using linked_neighbor c(2) by blast
    from route.extend [OF r(1) this False] r(2) show ?thesis
      by (metis length_append_singleton Suc_le_mono)
  qed
qed

text \<open>The graphs a service stores: edges between nodes of the graph, with ids that are not empty.\<close>

definition closed_graph :: "subgraph \<Rightarrow> bool" where
  "closed_graph g \<longleftrightarrow> list_all (\<lambda>e. ge_source e \<in> gn_id ` set (su_nodes g)
     \<and> ge_target e \<in> gn_id ` set (su_nodes g)) (su_edges g)
     \<and> list_all (\<lambda>n. gn_id n \<noteq> []) (su_nodes g)"

definition closed_store :: "memory_graphs \<Rightarrow> bool" where
  "closed_store s \<longleftrightarrow> distinct (map fst s) \<and> list_all (\<lambda>(k, g). closed_graph g) s"

lemma graph_replace_closed: "closed_store s \<Longrightarrow> closed_graph g \<Longrightarrow> closed_store (graph_replace t x g s)"
proof -
  assume s: "closed_store s" and g: "closed_graph g"
  have "closed_graph h" if "(k, h) \<in> set (graph_replace t x g s)" for k h
  proof -
    from s have d: "distinct (map fst (graph_replace t x g s))"
      by (simp add: closed_store_def graph_replace_def AList.distinct_update)
    with that have "map_of (graph_replace t x g s) k = Some h" by simp
    then have "h = g \<or> (k, h) \<in> set s"
      by (auto simp: graph_replace_def update_conv' split: if_splits dest: map_of_SomeD)
    with s g show ?thesis by (auto simp: closed_store_def list_all_iff)
  qed
  with s show ?thesis
    by (auto simp: closed_store_def list_all_iff graph_replace_def AList.distinct_update)
qed

lemma graph_replace_other: "t \<noteq> t' \<Longrightarrow> tenant_graphs t (graph_replace t' x g s) = tenant_graphs t s"
  by (induction s) (auto simp: graph_replace_def tenant_graphs_def)

lemma all_nodes_other: "t \<noteq> t' \<Longrightarrow> all_nodes t (graph_replace t' x g s) = all_nodes t s"
  by (simp add: all_nodes_def graph_replace_other)

lemma all_edges_other: "t \<noteq> t' \<Longrightarrow> all_edges t (graph_replace t' x g s) = all_edges t s"
  by (simp add: all_edges_def graph_replace_other)

lemma closed_edges:
  assumes "closed_store s" "e \<in> set (all_edges t s)"
  shows "ge_source e \<in> gn_id ` set (all_nodes t s) \<and> ge_target e \<in> gn_id ` set (all_nodes t s)
     \<and> ge_source e \<noteq> [] \<and> ge_target e \<noteq> []"
proof -
  from assms(2) obtain k g where g: "(k, g) \<in> set s" "fst k = t" "e \<in> set (su_edges g)"
    by (auto simp: all_edges_def tenant_graphs_def)
  then have "set (su_nodes g) \<subseteq> set (all_nodes t s)"
    by (auto simp: all_nodes_def tenant_graphs_def intro!: bexI [of _ "(k, g)"])
  moreover from assms(1) g(1) have "closed_graph g" by (auto simp: closed_store_def list_all_iff)
  with g(3) have "ge_source e \<in> gn_id ` set (su_nodes g)" "ge_target e \<in> gn_id ` set (su_nodes g)"
    "\<forall>n \<in> set (su_nodes g). gn_id n \<noteq> []"
    by (auto simp: closed_graph_def list_all_iff)
  ultimately show ?thesis by auto
qed

lemma route_visited_nodes:
  "route (all_edges t s) a n r V \<Longrightarrow> closed_store s \<Longrightarrow> a \<in> gn_id ` set (all_nodes t s) \<Longrightarrow>
     V \<subseteq> gn_id ` set (all_nodes t s)"
proof (induction rule: route.induct)
  case (extend m r V e n)
  have "n \<in> gn_id ` set (all_nodes t s)"
    using closed_edges [OF extend.prems(1) extend.hyps(2)] extend.hyps(3)
    by (auto simp: neighbor_def Let_def split: if_splits)
  with extend show ?case by simp
qed simp

section \<open>What a store promises\<close>

lemma visited_lookup:
  assumes "V \<subseteq> gn_id ` set ns" and "finite V"
  shows "\<exists>found. res_map (\<lambda>k. case map_of (dict_of (map (\<lambda>n. (gn_id n, n)) ns)) k of
        None \<Rightarrow> Inl (Py KeyError) | Some n \<Rightarrow> Inr n) (sorted_list_of_set V) = Inr found
     \<and> map gn_id found = sorted_list_of_set V \<and> set found \<subseteq> set ns"
proof -
  let ?look = "map_of (dict_of (map (\<lambda>n. (gn_id n, n)) ns))"
  have at: "\<exists>n \<in> set ns. ?look k = Some n \<and> gn_id n = k" if k: "k \<in> V" for k
  proof -
    have "k \<in> fst ` set (dict_of (map (\<lambda>n. (gn_id n, n)) ns))"
      using assms(1) k by (auto simp: image_image)
    then obtain n where n: "?look k = Some n"
      by (metis map_of_eq_None_iff option.exhaust)
    then have "(k, n) \<in> set (map (\<lambda>n. (gn_id n, n)) ns)"
      using set_dict_of_subset map_of_SomeD by fastforce
    with n show ?thesis by auto
  qed
  let ?found = "map (\<lambda>k. the (?look k)) (sorted_list_of_set V)"
  have "res_map (\<lambda>k. case ?look k of None \<Rightarrow> Inl (Py KeyError) | Some n \<Rightarrow> Inr n) (sorted_list_of_set V)
      = Inr ?found"
    by (rule res_map_total) (use at assms(2) in fastforce)
  moreover have "map gn_id ?found = sorted_list_of_set V"
    unfolding map_map comp_def by (rule map_idI) (use at assms(2) in fastforce)
  moreover have "set ?found \<subseteq> set ns" using at assms(2) by fastforce
  ultimately show ?thesis by blast
qed

lemma memory_path_found:
  assumes "closed_store s" and "a \<in> gn_id ` set (all_nodes t s)" "b \<in> gn_id ` set (all_nodes t s)"
    and "search_path (all_edges t s) depth b [(a, [], {a})] = Some (r, V)"
  shows "\<exists>found. memory_path t a b depth s = Inr \<lparr>su_nodes = found, su_edges = r, su_truncated = False\<rparr>
     \<and> map gn_id found = sorted_list_of_set V \<and> set found \<subseteq> set (all_nodes t s)
     \<and> route (all_edges t s) a b r V"
proof -
  let ?es = "all_edges t s"
  have "route ?es a b r V"
    using search_path_sound [OF assms(4), of a] by (simp add: routed_def path_length_def route.stay)
  with route_visited_nodes [OF this assms(1,2)] route_edges [OF this] have
    "V \<subseteq> gn_id ` set (all_nodes t s)" "finite V" by auto
  from visited_lookup [OF this] obtain found where found:
    "res_map (\<lambda>k. case map_of (dict_of (map (\<lambda>n. (gn_id n, n)) (all_nodes t s))) k of
        None \<Rightarrow> Inl (Py KeyError) | Some n \<Rightarrow> Inr n) (sorted_list_of_set V) = Inr found"
    "map gn_id found = sorted_list_of_set V" "set found \<subseteq> set (all_nodes t s)" by blast
  have known: "map_of (dict_of (map (\<lambda>n. (gn_id n, n)) (all_nodes t s))) k \<noteq> None"
    if "k \<in> gn_id ` set (all_nodes t s)" for k
    using that by (simp add: map_of_eq_None_iff image_image)
  have "memory_path t a b depth s = Inr \<lparr>su_nodes = found, su_edges = r, su_truncated = False\<rparr>"
    unfolding memory_path_def Let_def assms(4)
    using known [OF assms(2)] known [OF assms(3)] found(1) by (simp only: simp_thms if_False
      option.case prod.case res_bind.simps)
  with found \<open>route ?es a b r V\<close> show ?thesis by blast
qed

lemma closed_named_ends: "closed_store s \<Longrightarrow> named_ends (all_edges t s)"
  using closed_edges by (auto simp: named_ends_def list_all_iff)

text \<open>The search over all links finds a path exactly when a chain of at most \<open>depth\<close> links exists.\<close>

lemma search_path_finds:
  assumes "named_ends es" and "(linked es ^^ k) a b" and "k \<le> nat depth"
  shows "\<exists>r V. search_path es depth b [(a, [], {a})] = Some (r, V) \<and> length r \<le> k"
proof (cases "a = b")
  case False
  with assms(2,3) have "0 < k" by (cases k) auto
  from relpow_route [OF assms(1,2)] obtain r V where r: "route es a b r V" "length r \<le> k" by blast
  have "level_queue [(a, [], {a})]" "\<forall>p \<in> set [(a, [], {a})]. routed es a p" "continues r [(a, [], {a})]"
    by (auto simp: level_queue_def routed_def route.stay continues_def)
  moreover have "int (length r) \<le> depth" using r(2) assms(3) \<open>0 < k\<close> by linarith
  ultimately show ?thesis
    using search_path_shortest [of "[(a, [], {a})]" es a b r V depth] r by (meson order_trans)
qed simp

lemma memory_path_empty:
  assumes "search_path (all_edges t s) depth b [(a, [], {a})] = None"
  shows "memory_path t a b depth s = Inr no_graph"
  unfolding memory_path_def Let_def assms by simp

lemma memory_path_unknown:
  "a \<notin> gn_id ` set (all_nodes t s) \<or> b \<notin> gn_id ` set (all_nodes t s) \<Longrightarrow>
     memory_path t a b depth s = Inr no_graph"
  by (auto simp: memory_path_def map_of_eq_None_iff image_image)

text \<open>
  The service's view of a store: what it reads back is a graph whose edges end in the nodes it
  lists, and what one tenant writes is invisible to another. \<open>closed\<close> is the invariant that
  writing a closed graph keeps.
\<close>

locale graph_store =
  fixes read :: "uuid \<Rightarrow> pystr \<Rightarrow> int \<Rightarrow> int \<Rightarrow> 's \<Rightarrow> exn + subgraph"
    and connect :: "uuid \<Rightarrow> pystr \<Rightarrow> pystr \<Rightarrow> int \<Rightarrow> 's \<Rightarrow> exn + subgraph"
    and store :: "uuid \<Rightarrow> uuid \<Rightarrow> subgraph \<Rightarrow> 's \<Rightarrow> (exn + unit) \<times> 's"
    and closed :: "'s \<Rightarrow> bool"
  assumes read_ends: "read t q d n s = Inr g \<Longrightarrow> e \<in> set (su_edges g) \<Longrightarrow>
      ge_source e \<in> gn_id ` set (su_nodes g) \<and> ge_target e \<in> gn_id ` set (su_nodes g)"
    and connect_ends: "closed s \<Longrightarrow> connect t a b d s = Inr g \<Longrightarrow> e \<in> set (su_edges g) \<Longrightarrow>
      ge_source e \<in> gn_id ` set (su_nodes g) \<and> ge_target e \<in> gn_id ` set (su_nodes g)"
    and connect_total: "closed s \<Longrightarrow> \<exists>g. connect t a b d s = Inr g"
    and store_closed: "closed s \<Longrightarrow> closed_graph g \<Longrightarrow> closed (snd (store t x g s))"
    and store_read_other: "t \<noteq> t' \<Longrightarrow> read t q d n (snd (store t' x g s)) = read t q d n s"
    and store_connect_other: "t \<noteq> t' \<Longrightarrow> connect t a b d (snd (store t' x g s)) = connect t a b d s"
begin

text \<open>A history of writes: each by a tenant, for one of its sources.\<close>

definition replay :: "(uuid \<times> uuid \<times> subgraph) list \<Rightarrow> 's \<Rightarrow> 's" where
  "replay ws s = foldl (\<lambda>s (t, x, g). snd (store t x g s)) s ws"

lemma replay_closed:
  "closed s \<Longrightarrow> list_all (\<lambda>(t, x, g). closed_graph g) ws \<Longrightarrow> closed (replay ws s)"
  by (induction ws arbitrary: s) (auto simp: replay_def store_closed)

lemma replay_isolated:
  "list_all (\<lambda>(t', x, g). t' \<noteq> t) ws \<Longrightarrow> read t q d n (replay ws s) = read t q d n s
     \<and> connect t a b d (replay ws s) = connect t a b d s"
  by (induction ws arbitrary: s) (auto simp: replay_def store_read_other store_connect_other)

lemma replay_connect:
  assumes "closed s" and "list_all (\<lambda>(t, x, g). closed_graph g) ws"
  obtains g where "connect t a b d (replay ws s) = Inr g"
    and "\<And>e. e \<in> set (su_edges g) \<Longrightarrow> ge_source e \<in> gn_id ` set (su_nodes g) \<and> ge_target e \<in> gn_id ` set (su_nodes g)"
  using connect_total [OF replay_closed [OF assms]] connect_ends [OF replay_closed [OF assms]] by metis

end

lemma route_ends:
  "route es a n r V \<Longrightarrow> e \<in> set r \<Longrightarrow> ge_source e \<in> V \<and> ge_target e \<in> V"
proof (induction rule: route.induct)
  case (extend m r V e' n)
  have "m \<in> V" using route_edges [OF extend.hyps(1)] by simp
  with extend show ?case by (auto simp: neighbor_def Let_def split: if_splits)
qed simp

lemma memory_path_cases:
  assumes "closed_store s"
  obtains "memory_path t a b d s = Inr no_graph"
  | g V where "memory_path t a b d s = Inr g" "map gn_id (su_nodes g) = sorted_list_of_set V"
      "route (all_edges t s) a b (su_edges g) V" "set (su_nodes g) \<subseteq> set (all_nodes t s)"
proof (cases "a \<in> gn_id ` set (all_nodes t s) \<and> b \<in> gn_id ` set (all_nodes t s)")
  case True
  show ?thesis
  proof (cases "search_path (all_edges t s) d b [(a, [], {a})]")
    case (Some p)
    then show ?thesis
      using memory_path_found [OF assms, of a t b d "fst p" "snd p"] True that(2) by fastforce
  qed (use memory_path_empty that(1) in blast)
qed (use memory_path_unknown that(1) in blast)

interpretation memory_graph: graph_store
  "\<lambda>t q d n s. Inr (memory_subgraph U t q d n s)" memory_path
  "\<lambda>t x g s. (Inr (), graph_replace t x g s)" closed_store
proof (unfold_locales, goal_cases)
  case (1 t q d n s g e)
  then show ?case by (auto simp: memory_subgraph_def Let_def dest!: in_set_takeD)
next
  case (2 s t a b d g e)
  from 2(1) show ?case
  proof (cases rule: memory_path_cases [of s t a b d])
    case (2 h V)
    with \<open>memory_path t a b d s = Inr g\<close> have "h = g" by simp
    with 2 \<open>e \<in> set (su_edges g)\<close> route_ends route_edges show ?thesis
      by (metis list.set_map set_sorted_list_of_set)
  qed (use 2 in \<open>auto simp: no_graph_def\<close>)
next
  case (3 s t a b d)
  then show ?case by (rule memory_path_cases [of s t a b d]) auto
qed (simp_all add: graph_replace_closed memory_subgraph_def memory_path_def all_nodes_other all_edges_other
    cong: if_cong)

section \<open>Properties\<close>

definition chain_within :: "graph_edge list \<Rightarrow> nat \<Rightarrow> pystr \<Rightarrow> pystr \<Rightarrow> bool" where
  "chain_within es k a b \<longleftrightarrow> (\<exists>j \<le> k. (linked es ^^ j) a b)"

lemma shortest_least:
  assumes "named_ends es" and "route es a b r V" and "search_path es depth b [(a, [], {a})] = Some (r, V)"
    and "int (length r) \<le> max 0 depth"
  shows "length r = (LEAST k. (linked es ^^ k) a b)"
proof (rule Least_equality [symmetric])
  show "(linked es ^^ length r) a b" by (rule route_relpow [OF assms(2)])
  fix k assume k: "(linked es ^^ k) a b"
  show "length r \<le> k"
  proof (cases "k \<le> nat depth")
    case True
    from search_path_finds [OF assms(1) k this] assms(3) show ?thesis by simp
  next
    case False
    with assms(4) show ?thesis by linarith
  qed
qed

definition sample_node :: "string \<Rightarrow> graph_node" where
  "sample_node k = \<lparr>gn_id = lit k, gn_name = lit k, gn_kind = Table_Entity, gn_source_id = 5,
     gn_source_name = lit ''s'', gn_evidence = lit k, gn_confidence = 1, gn_extracted_at = 0\<rparr>"

definition sample_edge :: "string \<Rightarrow> string \<Rightarrow> string \<Rightarrow> graph_edge" where
  "sample_edge k x y = \<lparr>ge_id = lit k, ge_source = lit x, ge_target = lit y, ge_kind = Joins_With,
     ge_source_id = 5, ge_source_name = lit ''s'', ge_evidence = lit k, ge_confidence = 1,
     ge_extracted_at = 0\<rparr>"

text \<open>Four entities: \<open>a\<close> reaches \<open>c\<close> over \<open>b\<close>, in two links, and over a direct edge stored last.\<close>

definition sample_graph :: subgraph where
  "sample_graph = \<lparr>su_nodes = [sample_node ''a'', sample_node ''b'', sample_node ''c'', sample_node ''d''],
     su_edges = [sample_edge ''1'' ''a'' ''b'', sample_edge ''2'' ''c'' ''b'', sample_edge ''3'' ''a'' ''c''],
     su_truncated = False\<rparr>"

definition sample_graphs :: memory_graphs where
  "sample_graphs = graph_replace 9 5 sample_graph []"

lemma sample_all: "all_nodes 9 sample_graphs = su_nodes sample_graph"
  "all_edges 9 sample_graphs = su_edges sample_graph"
  by (simp_all add: all_nodes_def all_edges_def tenant_graphs_def sample_graphs_def graph_replace_def)

lemma sample_closed: "closed_store sample_graphs"
  by (simp add: closed_store_def sample_graphs_def graph_replace_def closed_graph_def sample_graph_def
      sample_node_def sample_edge_def lit_def)

lemma sample_chain: "chain_within (all_edges 9 sample_graphs) 2 (lit ''a'') (lit ''c'')"
proof -
  have "linked (all_edges 9 sample_graphs) (lit ''a'') (lit ''c'')"
    by (simp add: sample_all linked_def sample_graph_def sample_edge_def)
  then have "(linked (all_edges 9 sample_graphs) ^^ 1) (lit ''a'') (lit ''c'')" by (simp add: eq_OO)
  then show ?thesis unfolding chain_within_def by (intro exI [of _ 1]) simp
qed

lemma sample_known: "lit ''a'' \<in> gn_id ` set (all_nodes 9 sample_graphs)"
  "lit ''c'' \<in> gn_id ` set (all_nodes 9 sample_graphs)"
  by (simp_all add: sample_all sample_graph_def sample_node_def)

text \<open>
  C14. Between two entities of a tenant, the in-memory store finds a path exactly when a chain of
  at most \<open>depth\<close> links (edges followed in either direction) connects them; the path it returns
  is a chain of that tenant's edges from one to the other that visits no entity twice, has the
  least number of links of any chain, and is returned with exactly the entities it visits, in the
  order of their ids. No lookup of a visited entity fails.
\<close>

theorem paths_are_shortest:
  assumes "closed_store s" and "a \<in> gn_id ` set (all_nodes t s)" and "b \<in> gn_id ` set (all_nodes t s)"
  shows "\<exists>g. memory_path t a b depth s = Inr g \<and>
     (if chain_within (all_edges t s) (nat depth) a b
      then (\<exists>V. route (all_edges t s) a b (su_edges g) V \<and> map gn_id (su_nodes g) = sorted_list_of_set V)
        \<and> length (su_edges g) = (LEAST k. (linked (all_edges t s) ^^ k) a b)
        \<and> set (su_nodes g) \<subseteq> set (all_nodes t s)
      else g = no_graph)"
proof (cases "search_path (all_edges t s) depth b [(a, [], {a})]")
  case None
  have "\<not> chain_within (all_edges t s) (nat depth) a b"
    using search_path_finds [OF closed_named_ends [OF assms(1), of t], of _ a b depth] None
    by (auto simp: chain_within_def)
  with memory_path_empty [OF None] show ?thesis by simp
next
  case (Some p)
  then have run: "search_path (all_edges t s) depth b [(a, [], {a})] = Some (fst p, snd p)" by simp
  have len: "int (length (fst p)) \<le> max 0 depth" "route (all_edges t s) a b (fst p) (snd p)"
    using search_path_sound [OF run, of a] by (auto simp: routed_def path_length_def route.stay)
  then have "chain_within (all_edges t s) (nat depth) a b"
    using route_relpow by (auto simp: chain_within_def intro!: exI [of _ "length (fst p)"])
  moreover have "length (fst p) = (LEAST k. (linked (all_edges t s) ^^ k) a b)"
    by (rule shortest_least [OF closed_named_ends [OF assms(1)] len(2) run len(1)])
  ultimately show ?thesis using memory_path_found [OF assms run] by force
qed

theorem paths_are_shortest_witness:
  "closed_store sample_graphs \<and> (\<exists>g V. memory_path 9 (lit ''a'') (lit ''c'') 2 sample_graphs = Inr g
     \<and> route (all_edges 9 sample_graphs) (lit ''a'') (lit ''c'') (su_edges g) V
     \<and> map gn_id (su_nodes g) = sorted_list_of_set V)"
  using paths_are_shortest [OF sample_closed sample_known, of 2] sample_chain sample_closed by auto

definition near :: "graph_edge list \<Rightarrow> nat \<Rightarrow> pystr list \<Rightarrow> graph_node \<Rightarrow> bool" where
  "near es k seeds x \<longleftrightarrow> (\<exists>a \<in> set seeds. chain_within es k a (gn_id x))"

text \<open>
  A neighbourhood query returns the first \<open>n\<close> of the tenant's entities that a chain of at most
  \<open>depth\<close> links connects with one of the first \<open>n + 1\<close> entities whose name contains the query
  or is contained in it, in storage order, together with edges of the tenant between returned
  entities only, at most 200; \<open>truncated\<close> is set exactly when entities were left out.
\<close>

theorem neighbourhoods_are_exact:
  assumes "0 \<le> n"
  shows "let es = all_edges t s; g = memory_subgraph U t q depth n s;
      found = filter (near es (nat depth) (graph_seeds U (all_nodes t s) q n)) (all_nodes t s) in
     su_nodes g = take (nat n) found
     \<and> su_edges g = take 200 (filter (\<lambda>e. ge_source e \<in> gn_id ` set (su_nodes g)
          \<and> ge_target e \<in> gn_id ` set (su_nodes g)) es)
     \<and> su_truncated g = (length (su_nodes g) < length found)"
proof -
  have "filter (\<lambda>x. gn_id x \<in> expand (all_edges t s) (nat depth) (set (graph_seeds U (all_nodes t s) q n)))
      (all_nodes t s)
    = filter (near (all_edges t s) (nat depth) (graph_seeds U (all_nodes t s) q n)) (all_nodes t s)"
    by (simp add: expand_relpow near_def [abs_def] chain_within_def)
  with assms show ?thesis
    by (auto simp: memory_subgraph_def Let_def upto_slice_def)
qed

theorem neighbourhoods_are_exact_witness:
  "su_nodes (memory_subgraph ascii_uni 9 (lit ''a'') 1 2 sample_graphs) =
     take 2 (filter (near (all_edges 9 sample_graphs) 1 (graph_seeds ascii_uni (all_nodes 9 sample_graphs) (lit ''a'') 2))
       (all_nodes 9 sample_graphs))"
  using neighbourhoods_are_exact [of 2 9 sample_graphs ascii_uni "lit ''a''" 1] by (simp add: Let_def)

text \<open>
  What is written for other tenants is invisible: after any sequence of replacements by other
  tenants, a tenant's neighbourhood and path queries return what they returned before.
\<close>

theorem graphs_are_isolated:
  assumes "list_all (\<lambda>(t', x, g). t' \<noteq> t) ws"
  shows "let s' = foldl (\<lambda>s (t', x, g). graph_replace t' x g s) s ws in
     memory_subgraph U t q depth n s' = memory_subgraph U t q depth n s
     \<and> memory_path t a b depth s' = memory_path t a b depth s"
  using memory_graph.replay_isolated [OF assms, where U = U and q = q and d = depth and n = n and s = s
      and a = a and b = b]
  by (simp add: memory_graph.replay_def Let_def)

theorem graphs_are_isolated_witness:
  "memory_subgraph ascii_uni 9 [] 1 2 (graph_replace 8 5 no_graph sample_graphs) = memory_subgraph ascii_uni 9 [] 1 2 sample_graphs"
  using graphs_are_isolated [where ws = "[(8, 5, no_graph)]" and t = 9] by (simp add: Let_def)

end
