(* ===== verification/Service_Api.thy ===== *)
theory Service_Api
  imports Agent_Service Agent_Actions Graph_Service
begin

text \<open>
  The HTTP surface of the service: the routes of \<open>agent/api.py\<close>, \<open>retrieval/api.py\<close> and
  \<open>knowledge_graph/api.py\<close>, and the boundary and tools of \<open>mcp_server.py\<close>. FastAPI's parsing is
  an argument: a handler takes the values its parameters have after validation, in the order in
  which the dependencies run. A handler ends with a value, an HTTP error, or an exception that
  nothing catches, which the framework answers with status 500.
\<close>

section \<open>Outcomes\<close>

datatype api_failure = Http_Exception int pystr | Uncaught exn

definition http_unauthorized :: api_failure where
  "http_unauthorized = Http_Exception 401 (lit ''invalid service credential'')"

text \<open>\<open>except ValueError\<close>, and the driver's errors by their class names.\<close>

fun is_value_error :: "exn \<Rightarrow> bool" where
  "is_value_error (Py (ValueError _)) = True"
| "is_value_error _ = False"

text \<open>
  Python's \<open>except\<close> also catches subclasses. An exception of the driver is an \<open>OtherError\<close> that bears the
  name of the class the code names which it is an instance of; \<open>AuthError\<close> or \<open>TransientError\<close>, say,
  are \<open>Neo4jError\<close> here.
\<close>

fun is_neo4j_error :: "exn \<Rightarrow> bool" where
  "is_neo4j_error (Py (OtherError n)) = (n = lit ''Neo4jError'' \<or> n = lit ''ServiceUnavailable'')"
| "is_neo4j_error _ = False"

fun is_retrieval_error :: "exn \<Rightarrow> bool" where
  "is_retrieval_error (Retrieval _) = True"
| "is_retrieval_error _ = False"

section \<open>Authorization\<close>

text \<open>\<open>compare_digest\<close> on texts raises a \<open>TypeError\<close> outside ASCII.\<close>

definition text_digest_equal :: "pystr \<Rightarrow> pystr \<Rightarrow> exn + bool" where
  "text_digest_equal a b =
     (if list_all (\<lambda>c. c < 128) a \<and> list_all (\<lambda>c. c < 128) b then Inr (a = b) else Inl (Py TypeError))"

definition authorize_service :: "unidata \<Rightarrow> pystr \<Rightarrow> pystr \<Rightarrow> api_failure + unit" where
  "authorize_service U expected authorization =
     (let scheme = before_char 32 authorization; token = after_char 32 authorization in
      if u_lower U scheme \<noteq> lit ''bearer'' \<or> token = [] then Inl http_unauthorized
      else (case text_digest_equal token expected of
          Inl e \<Rightarrow> Inl (Uncaught e)
        | Inr same \<Rightarrow> if same then Inr () else Inl http_unauthorized))"

definition trace_id :: "unidata \<Rightarrow> pystr \<Rightarrow> api_failure + pystr" where
  "trace_id U traceparent = (case trace_id_from_traceparent U traceparent of
     Inl e \<Rightarrow> Inl (if is_value_error e then Http_Exception 400 (lit ''invalid traceparent'') else Uncaught e)
   | Inr t \<Rightarrow> Inr t)"

text \<open>The service an application holds, or 503.\<close>

definition available :: "string \<Rightarrow> 'a option \<Rightarrow> api_failure + 'a" where
  "available what x = (case x of None \<Rightarrow> Inl (Http_Exception 503 (lit what)) | Some v \<Rightarrow> Inr v)"

section \<open>Runs\<close>

record start_run_request =
  sq_job_id :: pystr
  sq_data_source_id :: pystr
  sq_question :: pystr

record run_headers =
  rh_tenant :: pystr
  rh_user :: pystr
  rh_role :: pystr
  rh_traceparent :: pystr

text \<open>
  What FastAPI checks of the two bodies before a route runs. \<open>requested_at\<close> is read and not used.
\<close>

definition mk_start_run_request :: "start_run_request \<Rightarrow> exn + start_run_request" where
  "mk_start_run_request b =
     (if id_length_ok (sq_job_id b) \<and> id_length_ok (sq_data_source_id b)
         \<and> 1 \<le> length (sq_question b) \<and> length (sq_question b) \<le> 4000
      then Inr b else Inl (validation_error ''StartRunRequest''))"

record resume_run_request =
  rq_approval_id :: pystr
  rq_decision :: decision
  rq_decided_by :: pystr
  rq_comment :: "pystr option"

definition mk_resume_run_request :: "resume_run_request \<Rightarrow> exn + resume_run_request" where
  "mk_resume_run_request b =
     (if id_length_ok (rq_approval_id b) \<and> id_length_ok (rq_decided_by b)
         \<and> (case rq_comment b of None \<Rightarrow> True | Some c \<Rightarrow> length c \<le> 500)
      then Inr b else Inl (validation_error ''ResumeRunRequest''))"

fun start_failure :: "exn \<Rightarrow> api_failure" where
  "start_failure (Workflow (WorkflowConflictError m)) = Http_Exception 409 m"
| "start_failure e = Uncaught e"

definition run_request :: "start_run_request \<Rightarrow> run_headers \<Rightarrow> pystr \<Rightarrow> start_run" where
  "run_request b h tid = \<lparr>sr_run_id = sq_job_id b, sr_tenant_id = rh_tenant h, sr_user_id = rh_user h,
     sr_role = rh_role h, sr_data_source_id = sq_data_source_id b, sr_trace_id = tid,
     sr_question = sq_question b\<rparr>"

definition api_start_run ::
  "unidata \<Rightarrow> pystr \<Rightarrow> 'g graph_ops option \<Rightarrow> pystr \<Rightarrow> start_run_request \<Rightarrow> run_headers \<Rightarrow> 'g
     \<Rightarrow> (api_failure + workflow_result) \<times> 'g" where
  "api_start_run U expected workflow authorization b h g =
     (case authorize_service U expected authorization of
        Inl f \<Rightarrow> (Inl f, g)
      | Inr _ \<Rightarrow>
          (case available ''workflow service is unavailable'' workflow of
             Inl f \<Rightarrow> (Inl f, g)
           | Inr G \<Rightarrow>
               (case trace_id U (rh_traceparent h) of
                  Inl f \<Rightarrow> (Inl f, g)
                | Inr tid \<Rightarrow>
                    (case mk_start_run (run_request b h tid) of
                       Inl e \<Rightarrow> (Inl (Uncaught e), g)
                     | Inr r \<Rightarrow>
                         (case start_workflow G r g of
                            (Inl e, g') \<Rightarrow> (Inl (start_failure e), g')
                          | (Inr res, g') \<Rightarrow> (Inr res, g'))))))"

fun resume_failure :: "exn \<Rightarrow> api_failure" where
  "resume_failure (Workflow (WorkflowConflictError m)) = Http_Exception 409 m"
| "resume_failure (Workflow (WorkflowIdentityError m)) = Http_Exception 404 m"
| "resume_failure e = Uncaught e"

text \<open>\<open>ApprovalResume.model_validate(body.model_dump())\<close>\<close>

definition resume_of_body :: "resume_run_request \<Rightarrow> exn + approval_resume" where
  "resume_of_body b = mk_approval_resume \<lparr>ar_approval_id = rq_approval_id b, ar_decision = rq_decision b,
     ar_decided_by = rq_decided_by b, ar_comment = rq_comment b\<rparr>"

definition api_resume_run ::
  "unidata \<Rightarrow> pystr \<Rightarrow> 'g graph_ops option \<Rightarrow> pystr \<Rightarrow> pystr \<Rightarrow> resume_run_request \<Rightarrow> pystr \<Rightarrow> pystr \<Rightarrow> 'g
     \<Rightarrow> (api_failure + workflow_result) \<times> 'g" where
  "api_resume_run U expected workflow authorization run_id b tenant role g =
     (case authorize_service U expected authorization of
        Inl f \<Rightarrow> (Inl f, g)
      | Inr _ \<Rightarrow>
          (case available ''workflow service is unavailable'' workflow of
             Inl f \<Rightarrow> (Inl f, g)
           | Inr G \<Rightarrow>
               if role \<noteq> lit ''ADMIN'' then (Inl (Http_Exception 403 (lit ''administrator role required'')), g)
               else (case resume_of_body b of
                   Inl e \<Rightarrow> (Inl (Uncaught e), g)
                 | Inr a \<Rightarrow>
                     (case resume_workflow G run_id tenant a g of
                        (Inl e, g') \<Rightarrow> (Inl (resume_failure e), g')
                      | (Inr res, g') \<Rightarrow> (Inr res, g')))))"

section \<open>Documents\<close>

text \<open>\<open>base64.b64decode(s, validate=True)\<close>: whole groups of four, padding only at the end.\<close>

definition b64_value :: "nat \<Rightarrow> nat option" where
  "b64_value c =
     (if 65 \<le> c \<and> c \<le> 90 then Some (c - 65) else if 97 \<le> c \<and> c \<le> 122 then Some (c - 71)
      else if 48 \<le> c \<and> c \<le> 57 then Some (c + 4) else if c = 43 then Some 62
      else if c = 47 then Some 63 else None)"

definition b64_group :: "nat \<Rightarrow> nat \<Rightarrow> nat \<Rightarrow> nat \<Rightarrow> nat list option" where
  "b64_group a b c d = (case (b64_value a, b64_value b, b64_value c, b64_value d) of
     (Some w, Some x, Some y, Some z) \<Rightarrow>
       Some [w * 4 + x div 16, (x mod 16) * 16 + y div 4, (y mod 4) * 64 + z]
   | _ \<Rightarrow> None)"

text \<open>The last group may end in one or two \<open>=\<close>.\<close>

definition b64_last :: "nat \<Rightarrow> nat \<Rightarrow> nat \<Rightarrow> nat \<Rightarrow> nat list option" where
  "b64_last a b c d =
     (if d \<noteq> 61 then b64_group a b c d
      else if c \<noteq> 61 then map_option (take 2) (b64_group a b c 65)
      else map_option (take 1) (b64_group a b 65 65))"

fun b64_decode :: "pystr \<Rightarrow> nat list option" where
  "b64_decode [] = Some []"
| "b64_decode (a # b # c # d # rest) =
     (if rest = [] then b64_last a b c d
      else (case b64_group a b c d of
          None \<Rightarrow> None
        | Some bs \<Rightarrow> map_option (\<lambda>ds. bs @ ds) (b64_decode rest)))"
| "b64_decode _ = None"

record ingest_request =
  iq_title :: pystr
  iq_source_name :: pystr
  iq_source_type :: source_type
  iq_content :: pystr

definition mk_ingest_request :: "ingest_request \<Rightarrow> exn + ingest_request" where
  "mk_ingest_request r =
     (if length_in 1 240 (iq_title r) \<and> length_in 1 255 (iq_source_name r)
         \<and> length_in 1 14000000 (iq_content r)
      then Inr r else Inl (validation_error ''KnowledgeIngestRequest''))"

definition ingest_failure :: "exn \<Rightarrow> api_failure" where
  "ingest_failure e =
     (if is_value_error e then Http_Exception 422 (lit ''invalid document payload'')
      else case e of Retrieval r \<Rightarrow> Http_Exception 422 (retrieval_code r) | _ \<Rightarrow> Uncaught e)"

definition api_ingest_document ::
  "unidata \<Rightarrow> pystr \<Rightarrow> ('s, 'h) retrieval_service option \<Rightarrow> mint \<Rightarrow> pystr \<Rightarrow> ingest_request \<Rightarrow> uuid \<Rightarrow> pystr
     \<Rightarrow> ('s, 'h) retrieval_state \<Rightarrow> (api_failure + stored_document) \<times> ('s, 'h) retrieval_state" where
  "api_ingest_document U expected service mint authorization b tenant traceparent st =
     (case authorize_service U expected authorization of
        Inl f \<Rightarrow> (Inl f, st)
      | Inr _ \<Rightarrow>
          (case available ''retrieval service is unavailable'' service of
             Inl f \<Rightarrow> (Inl f, st)
           | Inr S \<Rightarrow>
               (case trace_id U traceparent of
                  Inl f \<Rightarrow> (Inl f, st)
                | Inr _ \<Rightarrow>
                    (case b64_decode (iq_content b) of
                       None \<Rightarrow> (Inl (Http_Exception 422 (lit ''invalid document payload'')), st)
                     | Some payload \<Rightarrow>
                         (case ingest S mint \<lparr>in_tenant = tenant, in_title = iq_title b,
                             in_source_name = iq_source_name b, in_source_type = iq_source_type b,
                             in_payload = payload\<rparr> st of
                            (Inl e, st') \<Rightarrow> (Inl (ingest_failure e), st')
                          | (Inr d, st') \<Rightarrow> (Inr d, st'))))))"

section \<open>The knowledge graph\<close>

record graph_query =
  gq_query :: pystr
  gq_limit :: int
  gq_depth :: int

definition mk_graph_query :: "graph_query \<Rightarrow> exn + graph_query" where
  "mk_graph_query q =
     (if length (gq_query q) \<le> 4000 \<and> 1 \<le> gq_limit q \<and> gq_limit q \<le> 100
         \<and> 0 \<le> gq_depth q \<and> gq_depth q \<le> 3
      then Inr q else Inl (validation_error ''GraphQuery''))"

record path_query = graph_query +
  pq_source :: pystr
  pq_target :: pystr

definition mk_path_query :: "path_query \<Rightarrow> exn + path_query" where
  "mk_path_query q =
     (if length (gq_query q) \<le> 4000 \<and> 1 \<le> gq_limit q \<and> gq_limit q \<le> 100
         \<and> 1 \<le> gq_depth q \<and> gq_depth q \<le> 3
         \<and> length_in 1 80 (pq_source q) \<and> length_in 1 80 (pq_target q) \<and> pq_source q \<noteq> pq_target q
      then Inr q else Inl (validation_error ''PathQuery''))"

record search_request = graph_query +
  sx_mode :: retrieval_mode

definition mk_search_request :: "search_request \<Rightarrow> exn + search_request" where
  "mk_search_request q =
     (if length (gq_query q) \<le> 4000 \<and> 1 \<le> gq_limit q \<and> gq_limit q \<le> 20
         \<and> 0 \<le> gq_depth q \<and> gq_depth q \<le> 3
      then Inr q else Inl (validation_error ''SearchRequest''))"

definition graph_disabled :: string where
  "graph_disabled = ''graph service is disabled''"

definition require_graph_admin :: "pystr \<Rightarrow> api_failure + unit" where
  "require_graph_admin role =
     (if role \<noteq> lit ''ADMIN'' then Inl (Http_Exception 403 (lit ''administrator role required'')) else Inr ())"

definition extract_failure :: "exn \<Rightarrow> api_failure" where
  "extract_failure e =
     (if is_value_error e then Http_Exception 422 (lit ''invalid extraction or unsupported evidence'')
      else if is_neo4j_error e \<or> is_llm_error e
      then Http_Exception 502 (lit ''graph extraction service unavailable'') else Uncaught e)"

definition api_extract ::
  "unidata \<Rightarrow> pystr \<Rightarrow> ('p, 's, 'h, 'g) graph_service option \<Rightarrow> pystr \<Rightarrow> pystr \<Rightarrow> real \<Rightarrow> extract_request \<Rightarrow> uuid
     \<Rightarrow> ('p, 's, 'h, 'g) graph_world \<Rightarrow> (api_failure + subgraph) \<times> ('p, 's, 'h, 'g) graph_world" where
  "api_extract U expected service authorization role now b tenant w =
     (case authorize_service U expected authorization of
        Inl f \<Rightarrow> (Inl f, w)
      | Inr _ \<Rightarrow>
          (case require_graph_admin role of
             Inl f \<Rightarrow> (Inl f, w)
           | Inr _ \<Rightarrow>
               (case available graph_disabled service of
                  Inl f \<Rightarrow> (Inl f, w)
                | Inr G \<Rightarrow>
                    (case graph_extract G now tenant b w of
                       (Inl e, w') \<Rightarrow> (Inl (extract_failure e), w')
                     | (Inr g, w') \<Rightarrow> (Inr g, w')))))"

definition api_graph_search ::
  "unidata \<Rightarrow> pystr \<Rightarrow> ('p, 's, 'h, 'g) graph_service option \<Rightarrow> pystr \<Rightarrow> graph_query \<Rightarrow> uuid
     \<Rightarrow> 'g \<Rightarrow> api_failure + subgraph" where
  "api_graph_search U expected service authorization b tenant s =
     (case authorize_service U expected authorization of
        Inl f \<Rightarrow> Inl f
      | Inr _ \<Rightarrow>
          (case available graph_disabled service of
             Inl f \<Rightarrow> Inl f
           | Inr G \<Rightarrow>
               (case gs_read G tenant (gq_query b) (gq_depth b) (gq_limit b) s of
                  Inl e \<Rightarrow> Inl (if is_neo4j_error e then Http_Exception 503 (lit ''graph store unavailable'') else Uncaught e)
                | Inr g \<Rightarrow> Inr g)))"

text \<open>The path route catches nothing; the store's path operation is an argument here.\<close>

definition api_graph_path ::
  "unidata \<Rightarrow> pystr \<Rightarrow> (uuid \<Rightarrow> pystr \<Rightarrow> pystr \<Rightarrow> int \<Rightarrow> 'g \<Rightarrow> exn + subgraph) option \<Rightarrow> pystr \<Rightarrow> path_query \<Rightarrow> uuid
     \<Rightarrow> 'g \<Rightarrow> api_failure + subgraph" where
  "api_graph_path U expected store_path authorization b tenant s =
     (case authorize_service U expected authorization of
        Inl f \<Rightarrow> Inl f
      | Inr _ \<Rightarrow>
          (case available graph_disabled store_path of
             Inl f \<Rightarrow> Inl f
           | Inr path_of \<Rightarrow>
               (case path_of tenant (pq_source b) (pq_target b) (gq_depth b) s of
                  Inl e \<Rightarrow> Inl (Uncaught e) | Inr g \<Rightarrow> Inr g)))"

definition answer_failure :: "exn \<Rightarrow> api_failure" where
  "answer_failure e =
     (if is_value_error e then Http_Exception 422 (lit ''invalid answer evidence'')
      else if is_neo4j_error e \<or> is_llm_error e \<or> is_retrieval_error e
      then Http_Exception 502 (lit ''graph answer service unavailable'') else Uncaught e)"

definition api_graph_answer ::
  "unidata \<Rightarrow> pystr \<Rightarrow> ('p, 's, 'h, 'g) graph_service option \<Rightarrow> pystr \<Rightarrow> real \<times> real \<Rightarrow> graph_query \<Rightarrow> uuid
     \<Rightarrow> ('p, 's, 'h, 'g) graph_world \<Rightarrow> (api_failure + graph_answer) \<times> ('p, 's, 'h, 'g) graph_world" where
  "api_graph_answer U expected service authorization clock b tenant w =
     (case authorize_service U expected authorization of
        Inl f \<Rightarrow> (Inl f, w)
      | Inr _ \<Rightarrow>
          (case available graph_disabled service of
             Inl f \<Rightarrow> (Inl f, w)
           | Inr G \<Rightarrow>
               if strip (gq_query b) = [] then (Inl (Http_Exception 422 (lit ''question is required'')), w)
               else (case graph_answer_to G clock tenant (gq_query b) w of
                   (Inl e, w') \<Rightarrow> (Inl (answer_failure e), w')
                 | (Inr a, w') \<Rightarrow> (Inr a, w'))))"

text \<open>The knowledge search answers a retrieval error with a JSON body of its own.\<close>

datatype search_reply = Found retrieval_result | Search_Error int pystr

definition search_failure :: "exn \<Rightarrow> api_failure + search_reply" where
  "search_failure e =
     (if is_value_error e then Inl (Http_Exception 422 (lit ''invalid search configuration or query''))
      else case e of
        Retrieval r \<Rightarrow> Inr (Search_Error (if retrieval_code r = lit ''RAG_REINDEX_REQUIRED'' then 409 else 502)
          (retrieval_code r))
      | _ \<Rightarrow> Inl (Uncaught e))"

definition api_knowledge_search ::
  "unidata \<Rightarrow> pystr \<Rightarrow> ('s, 'h) retrieval_service option \<Rightarrow> pystr \<Rightarrow> real \<times> real \<Rightarrow> search_request \<Rightarrow> uuid
     \<Rightarrow> ('s, 'h) retrieval_state \<Rightarrow> (api_failure + search_reply) \<times> ('s, 'h) retrieval_state" where
  "api_knowledge_search U expected service authorization clock b tenant st =
     (case authorize_service U expected authorization of
        Inl f \<Rightarrow> (Inl f, st)
      | Inr _ \<Rightarrow>
          (case available ''retrieval service is unavailable'' service of
             Inl f \<Rightarrow> (Inl f, st)
           | Inr S \<Rightarrow>
               (case retrieve S clock tenant (gq_query b) (sx_mode b) (Some (gq_limit b)) st of
                  (Inl e, st') \<Rightarrow> (search_failure e, st')
                | (Inr r, st') \<Rightarrow> (Inr (Found r), st'))))"

section \<open>The MCP boundary\<close>

text \<open>Headers are pairs of bytes; \<open>dict\<close> keeps the last value of a name.\<close>

definition header_bytes :: "string \<Rightarrow> (nat list \<times> nat list) list \<Rightarrow> nat list" where
  "header_bytes name hs = (case map_of (rev hs) (lit name) of None \<Rightarrow> [] | Some v \<Rightarrow> v)"

definition uuid_of_bytes :: "unidata \<Rightarrow> nat list \<Rightarrow> uuid option" where
  "uuid_of_bytes U b = Option.bind (utf8_decode b) (uuid_of_text U)"

definition known_roles :: "nat list list" where
  "known_roles = [lit ''ADMIN'', lit ''ANALYST'', lit ''VIEWER'']"

definition valid_identity :: "unidata \<Rightarrow> (nat list \<times> nat list) list \<Rightarrow> bool" where
  "valid_identity U hs \<longleftrightarrow> uuid_of_bytes U (header_bytes ''x-tenant-id'' hs) \<noteq> None
     \<and> uuid_of_bytes U (header_bytes ''x-user-id'' hs) \<noteq> None
     \<and> (case map_of (rev hs) (lit ''x-user-role'') of None \<Rightarrow> False | Some r \<Rightarrow> r \<in> set known_roles)"

datatype boundary = Forward | Refuse

definition service_boundary ::
  "unidata \<Rightarrow> pystr \<Rightarrow> pystr \<Rightarrow> (nat list \<times> nat list) list \<Rightarrow> exn + boundary" where
  "service_boundary U token scope_type hs =
     (if scope_type \<noteq> lit ''http'' then Inr Forward
      else (case utf8_encode token of
          None \<Rightarrow> Inl encode_error
        | Some expected \<Rightarrow>
            if header_bytes ''authorization'' hs = lit ''Bearer '' @ expected \<and> valid_identity U hs
            then Inr Forward else Inr Refuse))"

section \<open>The MCP tools\<close>

text \<open>
  A tool sees the request's headers as text, names in any case, the first of equal names. The
  framework has checked the bounds of the numeric arguments.
\<close>

type_synonym text_headers = "(pystr \<times> pystr) list"

definition tool_header :: "unidata \<Rightarrow> string \<Rightarrow> text_headers \<Rightarrow> pystr option" where
  "tool_header U name hs = map_option snd (List.find (\<lambda>(k, v). u_lower U k = u_lower U (lit name)) hs)"

definition tool_identity :: "unidata \<Rightarrow> text_headers option \<Rightarrow> exn + uuid \<times> text_headers" where
  "tool_identity U request = (case request of
     None \<Rightarrow> Inl (Py (ValueError (lit ''HTTP identity required'')))
   | Some hs \<Rightarrow>
       (case tool_header U ''X-Tenant-Id'' hs of
          None \<Rightarrow> Inl (Py KeyError)
        | Some t \<Rightarrow> (case uuid_of_text U t of
            None \<Rightarrow> Inl (Py (ValueError (lit ''badly formed hexadecimal UUID string'')))
          | Some tenant \<Rightarrow> Inr (tenant, hs))))"

definition search_knowledge ::
  "unidata \<Rightarrow> ('s, 'h) retrieval_service \<Rightarrow> real \<times> real \<Rightarrow> text_headers option \<Rightarrow> pystr \<Rightarrow> int
     \<Rightarrow> ('s, 'h) retrieval_state \<Rightarrow> (exn + retrieval_result) \<times> ('s, 'h) retrieval_state" where
  "search_knowledge U S clock request query n st =
     (case tool_identity U request of
        Inl e \<Rightarrow> (Inl e, st)
      | Inr (tenant, _) \<Rightarrow> retrieve S clock tenant query retrieval_mode.Hybrid (Some n) st)"

definition metric_definition ::
  "unidata \<Rightarrow> ('s, 'h) retrieval_service \<Rightarrow> real \<times> real \<Rightarrow> text_headers option \<Rightarrow> pystr
     \<Rightarrow> ('s, 'h) retrieval_state \<Rightarrow> (exn + retrieval_result) \<times> ('s, 'h) retrieval_state" where
  "metric_definition U S clock request name st =
     (case tool_identity U request of
        Inl e \<Rightarrow> (Inl e, st)
      | Inr (tenant, _) \<Rightarrow> retrieve S clock tenant name Lexical_Mode (Some 3) st)"

definition relationship_graph ::
  "unidata \<Rightarrow> ('p, 's, 'h, 'g) graph_service option \<Rightarrow> text_headers option \<Rightarrow> pystr \<Rightarrow> int \<Rightarrow> 'g \<Rightarrow> exn + subgraph" where
  "relationship_graph U service request query depth s =
     (case tool_identity U request of
        Inl e \<Rightarrow> Inl e
      | Inr (tenant, _) \<Rightarrow>
          (case service of
             None \<Rightarrow> Inl (Py (ValueError (lit ''graph service is disabled'')))
           | Some G \<Rightarrow> gs_read G tenant (take 4000 query) depth 60 s))"

text \<open>\<open>get\<close> is the HTTP client: a URL and the Authorization header to a status and a JSON body.\<close>

type_synonym platform_client = "pystr \<Rightarrow> pystr \<Rightarrow> exn + int \<times> json"

definition platform_get ::
  "unidata \<Rightarrow> pystr \<Rightarrow> platform_client \<Rightarrow> text_headers option \<Rightarrow> pystr \<Rightarrow> exn + json" where
  "platform_get U base get request path =
     (case tool_identity U request of
        Inl e \<Rightarrow> Inl e
      | Inr (_, hs) \<Rightarrow>
          (case tool_header U ''X-Caller-Token'' hs of
             None \<Rightarrow> Inl (Py (ValueError (lit ''caller authorization required'')))
           | Some caller \<Rightarrow>
               if caller = [] then Inl (Py (ValueError (lit ''caller authorization required'')))
               else (case get (rstrip_char 47 base @ path) (lit ''Bearer '' @ caller) of
                   Inl e \<Rightarrow> Inl e
                 | Inr (status, body) \<Rightarrow>
                     if status \<noteq> 200 then Inl (Py (ValueError (lit ''resource unavailable or access denied'')))
                     else Inr body)))"

text \<open>\<open>{key: item[key] for key in keys}\<close>; the platform answers with objects.\<close>

definition pick :: "string list \<Rightarrow> json \<Rightarrow> exn + json" where
  "pick keys item = (case item of
     JObj kvs \<Rightarrow> (case opt_all (map (\<lambda>k. map_option (Pair (lit k)) (map_of kvs (lit k))) keys) of
         None \<Rightarrow> Inl (Py KeyError) | Some kept \<Rightarrow> Inr (JObj kept))
   | _ \<Rightarrow> Inl (Py TypeError))"

definition item_matches :: "unidata \<Rightarrow> pystr \<Rightarrow> json \<Rightarrow> exn + bool" where
  "item_matches U query item = (case item of
     JObj kvs \<Rightarrow> (case map_of kvs (lit ''name'') of
         None \<Rightarrow> Inl (Py KeyError)
       | Some (JStr n) \<Rightarrow> Inr (contains (u_casefold U query) (u_casefold U n))
       | Some _ \<Rightarrow> Inl (Py (OtherError (lit ''AttributeError''))))
   | _ \<Rightarrow> Inl (Py TypeError))"

fun matching_items :: "unidata \<Rightarrow> pystr \<Rightarrow> json list \<Rightarrow> exn + json list" where
  "matching_items U query [] = Inr []"
| "matching_items U query (item # items) =
     (case item_matches U query item of
        Inl e \<Rightarrow> Inl e
      | Inr False \<Rightarrow> matching_items U query items
      | Inr True \<Rightarrow>
          (case pick [''id'', ''name'', ''allowed_schema''] item of
             Inl e \<Rightarrow> Inl e
           | Inr x \<Rightarrow> res_bind (matching_items U query items) (\<lambda>xs. Inr (x # xs))))"

definition search_catalog ::
  "unidata \<Rightarrow> pystr \<Rightarrow> platform_client \<Rightarrow> text_headers option \<Rightarrow> pystr \<Rightarrow> exn + json list" where
  "search_catalog U base get request query =
     (case platform_get U base get request (lit ''/api/data-sources'') of
        Inl e \<Rightarrow> Inl e
      | Inr (JList items) \<Rightarrow> res_bind (matching_items U query items) (\<lambda>xs. Inr (take 20 xs))
      | Inr _ \<Rightarrow> Inl (Py TypeError))"

definition job_status ::
  "unidata \<Rightarrow> pystr \<Rightarrow> platform_client \<Rightarrow> text_headers option \<Rightarrow> uuid \<Rightarrow> exn + json" where
  "job_status U base get request job =
     (case platform_get U base get request (lit ''/api/analysis/jobs/'' @ uuid_str job) of
        Inl e \<Rightarrow> Inl e
      | Inr body \<Rightarrow> pick [''id'', ''status'', ''updated_at''] body)"

definition capabilities :: pystr where
  "capabilities = dumps (default_style True (\<lambda>x. []))
     (JObj [(lit ''read_only'', JBool True), (lit ''tenant_identity'', JStr (lit ''verified platform JWT'')),
       (lit ''tools'', jstrs (map lit [''search_knowledge'', ''metric_definition'', ''relationship_graph'',
          ''search_catalog'', ''job_status'']))])"

section \<open>Authorization of every route\<close>

lemma compare_cases: "text_digest_equal a b = (if list_all (\<lambda>c. c < 128) a \<and> list_all (\<lambda>c. c < 128) b
   then Inr (a = b) else Inl (Py TypeError))"
  by (simp add: text_digest_equal_def)

text \<open>
  What the service credential check does with an Authorization header, in full: it lets a
  request pass exactly when the scheme is \<open>bearer\<close> in any case and the token is the configured
  one; a different ASCII token, an empty one or another scheme is refused with status 401; but a
  bearer token with a character outside ASCII is an uncaught \<open>TypeError\<close>, a status 500 instead of 401.
\<close>

theorem credential_outcomes:
  "authorize_service U expected a =
     (if u_lower U (before_char 32 a) \<noteq> lit ''bearer'' \<or> after_char 32 a = []
      then Inl (Http_Exception 401 (lit ''invalid service credential''))
      else if \<not> list_all (\<lambda>c. c < 128) (after_char 32 a) \<or> \<not> list_all (\<lambda>c. c < 128) expected
      then Inl (Uncaught (Py TypeError))
      else if after_char 32 a = expected then Inr ()
      else Inl (Http_Exception 401 (lit ''invalid service credential'')))"
  by (auto simp: authorize_service_def compare_cases http_unauthorized_def)

definition idle_ops :: "unit graph_ops" where
  "idle_ops = \<lparr>go_state = (\<lambda>r g. \<lparr>sn_values = None, sn_tasks = []\<rparr>),
     go_start = (\<lambda>s r g. (Inr (s, []), g)), go_resume = (\<lambda>j r g. (Inl (Py KeyError), g))\<rparr>"

definition sample_start :: start_run_request where
  "sample_start = \<lparr>sq_job_id = lit ''j'', sq_data_source_id = lit ''d'', sq_question = lit ''q''\<rparr>"

definition sample_headers :: run_headers where
  "sample_headers = \<lparr>rh_tenant = lit ''a'', rh_user = lit ''u'', rh_role = lit ''VIEWER'',
     rh_traceparent = lit ''00-0af7651916cd43dd8448eb211c80319c-b7ad6b7169203331-01''\<rparr>"

definition sample_refusal :: resume_run_request where
  "sample_refusal = \<lparr>rq_approval_id = lit ''p'', rq_decision = Rejected, rq_decided_by = lit ''u'', rq_comment = None\<rparr>"

text \<open>
  The credential, apart from the code that checks it: the word \<open>bearer\<close> in any case, one space, and the
  configured token, which is not empty and within ASCII.
\<close>

definition bears_credential :: "unidata \<Rightarrow> pystr \<Rightarrow> pystr \<Rightarrow> bool" where
  "bears_credential U expected a \<longleftrightarrow> (\<exists>scheme. a = scheme @ 32 # expected \<and> 32 \<notin> set scheme
     \<and> u_lower U scheme = lit ''bearer'') \<and> expected \<noteq> [] \<and> list_all (\<lambda>c. c < 128) expected"

lemma partition_parts:
  assumes "after_char 32 a \<noteq> []"
  shows "a = before_char 32 a @ 32 # after_char 32 a" "32 \<notin> set (before_char 32 a)"
proof -
  from assms obtain y ys where d: "dropWhile (\<lambda>x. x \<noteq> 32) a = y # ys"
    by (cases "dropWhile (\<lambda>x. x \<noteq> 32) a") (auto simp: after_char_def)
  then have "y = 32" by (metis (full_types) dropWhile_eq_Cons_conv)
  with d show "a = before_char 32 a @ 32 # after_char 32 a"
    unfolding before_char_def after_char_def by (metis list.sel(3) takeWhile_dropWhile_id)
  show "32 \<notin> set (before_char 32 a)" by (auto simp: before_char_def dest: set_takeWhileD)
qed

lemma credential_parts:
  "32 \<notin> set scheme \<Longrightarrow> before_char 32 (scheme @ 32 # t) = scheme \<and> after_char 32 (scheme @ 32 # t) = t"
  by (induction scheme) (auto simp: before_char_def after_char_def)

lemma authorize_bearer: "bears_credential U expected a \<Longrightarrow> authorize_service U expected a = Inr ()"
  by (auto simp: bears_credential_def authorize_service_def credential_parts text_digest_equal_def)

lemma authorize_other:
  assumes "\<not> bears_credential U expected a"
  shows "authorize_service U expected a \<in> {Inl http_unauthorized, Inl (Uncaught (Py TypeError))}"
proof (cases "after_char 32 a = []")
  case True
  then show ?thesis by (simp add: authorize_service_def Let_def)
next
  case False
  from partition_parts [OF False] assms show ?thesis
    by (auto simp: bears_credential_def authorize_service_def text_digest_equal_def Let_def False)
qed

lemma refused_routes:
  assumes "authorize_service U expected a = Inl f"
  shows "api_start_run U expected flow a sb sh g = (Inl f, g)
    \<and> api_resume_run U expected flow a rid rb t role g = (Inl f, g)
    \<and> api_ingest_document U expected rs mint a ib tenant tp st = (Inl f, st)
    \<and> api_knowledge_search U expected rs a clock kb tenant st = (Inl f, st)
    \<and> api_extract U expected gs a role now eb tenant w = (Inl f, w)
    \<and> api_graph_answer U expected gs a clock qb tenant w = (Inl f, w)
    \<and> api_graph_search U expected gs a qb tenant (gw_graphs w) = Inl f
    \<and> api_graph_path U expected pth a pb tenant (gw_graphs w) = Inl f"
  using assms
  by (simp add: api_start_run_def api_resume_run_def api_ingest_document_def api_knowledge_search_def
      api_extract_def api_graph_answer_def api_graph_search_def api_graph_path_def)

text \<open>
  C39. No route does anything for a request without the service credential, and the credential is
  exactly \<open>bearer\<close> in any case, a space and the configured token, which is not empty and within ASCII:
  with it a request passes the check of the routes; with any other header, whatever else the
  request holds and the services are, all eight routes answer with one failure, 401 or the
  uncaught \<open>TypeError\<close> of a text outside ASCII, and leave the workflow, the documents and the
  graphs as they were.
\<close>

theorem unauthorized_requests_change_nothing:
  "if (\<exists>scheme. a = scheme @ 32 # expected \<and> 32 \<notin> set scheme \<and> u_lower U scheme = lit ''bearer'')
      \<and> expected \<noteq> [] \<and> list_all (\<lambda>c. c < 128) expected
   then authorize_service U expected a = Inr ()
   else (\<exists>f. (f = Http_Exception 401 (lit ''invalid service credential'') \<or> f = Uncaught (Py TypeError))
    \<and> api_start_run U expected flow a sb sh g = (Inl f, g)
    \<and> api_resume_run U expected flow a rid rb t role g = (Inl f, g)
    \<and> api_ingest_document U expected rs mint a ib tenant tp st = (Inl f, st)
    \<and> api_knowledge_search U expected rs a clock kb tenant st = (Inl f, st)
    \<and> api_extract U expected gs a role now eb tenant w = (Inl f, w)
    \<and> api_graph_answer U expected gs a clock qb tenant w = (Inl f, w)
    \<and> api_graph_search U expected gs a qb tenant (gw_graphs w) = Inl f
    \<and> api_graph_path U expected pth a pb tenant (gw_graphs w) = Inl f)"
  unfolding bears_credential_def [symmetric]
proof (split if_split, intro conjI impI)
  assume "\<not> bears_credential U expected a"
  from authorize_other [OF this] have "authorize_service U expected a = Inl http_unauthorized
      \<or> authorize_service U expected a = Inl (Uncaught (Py TypeError))" by simp
  then obtain f where f: "authorize_service U expected a = Inl f"
    "f = Http_Exception 401 (lit ''invalid service credential'') \<or> f = Uncaught (Py TypeError)"
    unfolding http_unauthorized_def by (elim disjE) (use that in simp_all)
  show "\<exists>f. (f = Http_Exception 401 (lit ''invalid service credential'') \<or> f = Uncaught (Py TypeError))
    \<and> api_start_run U expected flow a sb sh g = (Inl f, g)
    \<and> api_resume_run U expected flow a rid rb t role g = (Inl f, g)
    \<and> api_ingest_document U expected rs mint a ib tenant tp st = (Inl f, st)
    \<and> api_knowledge_search U expected rs a clock kb tenant st = (Inl f, st)
    \<and> api_extract U expected gs a role now eb tenant w = (Inl f, w)
    \<and> api_graph_answer U expected gs a clock qb tenant w = (Inl f, w)
    \<and> api_graph_search U expected gs a qb tenant (gw_graphs w) = Inl f
    \<and> api_graph_path U expected pth a pb tenant (gw_graphs w) = Inl f"
    by (intro exI [of _ f] conjI f(2)) (simp_all add: refused_routes [OF f(1)])
qed (rule authorize_bearer)

theorem unauthorized_requests_change_nothing_witness:
  "authorize_service ascii_uni (lit ''secret'') (lit ''Bearer secret'') = Inr ()
   \<and> fst (api_start_run ascii_uni (lit ''secret'') (Some idle_ops) (lit ''Bearer guess'') sample_start sample_headers ())
     \<in> {Inl http_unauthorized, Inl (Uncaught (Py TypeError))}
   \<and> snd (api_extract ascii_uni (lit ''secret'') (Some sample_kg) (lit ''Bearer guess'') (lit ''ADMIN'') 0 sample_request 7
       (sample_kg_world [])) = sample_kg_world []"
proof -
  have yes: "(\<exists>scheme. lit ''Bearer secret'' = scheme @ 32 # lit ''secret'' \<and> 32 \<notin> set scheme
      \<and> u_lower ascii_uni scheme = lit ''bearer'') \<and> lit ''secret'' \<noteq> [] \<and> list_all (\<lambda>c. c < 128) (lit ''secret'')"
  proof (intro conjI exI [of _ "lit ''Bearer''"])
    show "lit ''Bearer secret'' = lit ''Bearer'' @ 32 # lit ''secret''" by code_simp
    show "32 \<notin> set (lit ''Bearer'')" by code_simp
    show "u_lower ascii_uni (lit ''Bearer'') = lit ''bearer''" by code_simp
    show "lit ''secret'' \<noteq> []" by code_simp
    show "list_all (\<lambda>c. c < 128) (lit ''secret'')" by code_simp
  qed
  have no: "\<not> ((\<exists>scheme. lit ''Bearer guess'' = scheme @ 32 # lit ''secret'' \<and> 32 \<notin> set scheme
      \<and> u_lower ascii_uni scheme = lit ''bearer'') \<and> lit ''secret'' \<noteq> [] \<and> list_all (\<lambda>c. c < 128) (lit ''secret''))"
    by (auto simp: lit_def append_eq_Cons_conv Cons_eq_append_conv)
  note claim = unauthorized_requests_change_nothing [where U = ascii_uni and expected = "lit ''secret''"
      and flow = "Some idle_ops" and sb = sample_start and sh = sample_headers and g = "()"
      and gs = "Some sample_kg" and w = "sample_kg_world []" and role = "lit ''ADMIN''" and now = 0
      and eb = sample_request and tenant = 7]
  note claim [where a = "lit ''Bearer secret''", unfolded if_P [OF yes]]
  moreover have "\<exists>f. (f = Http_Exception 401 (lit ''invalid service credential'') \<or> f = Uncaught (Py TypeError))
    \<and> api_start_run ascii_uni (lit ''secret'') (Some idle_ops) (lit ''Bearer guess'') sample_start sample_headers () = (Inl f, ())
    \<and> api_extract ascii_uni (lit ''secret'') (Some sample_kg) (lit ''Bearer guess'') (lit ''ADMIN'') 0 sample_request 7
       (sample_kg_world []) = (Inl f, sample_kg_world [])"
    using claim [where a = "lit ''Bearer guess''", unfolded if_not_P [OF no]]
    by (rule ex_forward) (elim conjE, intro conjI)
  ultimately show ?thesis by (auto simp: http_unauthorized_def)
qed

text \<open>
  Only administrators decide approvals and extract graphs: for any other role the two routes
  fail and leave the workflow, the model and the stored graphs as they were.
\<close>

theorem administrators_only:
  assumes "role \<noteq> lit ''ADMIN''"
  shows "\<exists>f f'. api_resume_run U expected flow a rid rb t role g = (Inl f, g)
    \<and> api_extract U expected gs a role now eb tenant w = (Inl f', w)
    \<and> (authorize_service U expected a = Inr () \<longrightarrow> f' = Http_Exception 403 (lit ''administrator role required''))"
  using assms
  by (cases "authorize_service U expected a"; cases flow)
     (simp_all add: api_resume_run_def api_extract_def require_graph_admin_def available_def)

theorem administrators_only_witness:
  "api_extract ascii_uni (lit ''secret'') (Some sample_kg) (lit ''Bearer secret'') (lit ''VIEWER'') 0 sample_request 7
       (sample_kg_world []) = (Inl (Http_Exception 403 (lit ''administrator role required'')), sample_kg_world [])"
proof -
  have "authorize_service ascii_uni (lit ''secret'') (lit ''Bearer secret'') = Inr ()" by code_simp
  moreover have "lit ''VIEWER'' \<noteq> lit ''ADMIN''" by simp
  ultimately show ?thesis
    using administrators_only [of "lit ''VIEWER''" ascii_uni "lit ''secret''" "Some idle_ops" "lit ''Bearer secret''"
        "lit ''j''" sample_refusal "lit ''a''" "()" "Some sample_kg" 0 sample_request 7 "sample_kg_world []"] by auto
qed

section \<open>Failures of the routes\<close>

text \<open>A body that was accepted is accepted again as the decision it stands for.\<close>

lemma accepted_bodies_resume:
  "mk_resume_run_request b = Inr b' \<Longrightarrow> \<exists>a. resume_of_body b = Inr a \<and> ar_decision a = rq_decision b"
  by (auto simp: mk_resume_run_request_def resume_of_body_def mk_approval_resume_def split: if_splits)

text \<open>
  The trace id of a valid header has 32 characters, so an accepted body starts a run exactly when
  the two identity headers have the length of an id. No route checks that: an empty or overlong
  header ends in an uncaught validation error.
\<close>

lemma accepted_bodies_start:
  assumes "mk_start_run_request b = Inr b'" "length tid = 32"
    "rh_role h \<in> set (map lit [''ADMIN'', ''ANALYST'', ''VIEWER''])"
  shows "mk_start_run (run_request b h tid) =
    (if id_length_ok (rh_tenant h) \<and> id_length_ok (rh_user h) then Inr (run_request b h tid)
     else Inl (validation_error ''StartRun''))"
  using assms by (auto simp: mk_start_run_request_def mk_start_run_def run_request_def split: if_splits)

lemma empty_identity_is_not_classified:
  "api_start_run ascii_uni (lit ''secret'') (Some idle_ops) (lit ''Bearer secret'') sample_start
     (sample_headers\<lparr>rh_user := []\<rparr>) () = (Inl (Uncaught (validation_error ''StartRun'')), ())"
  by code_simp

lemma start_failure_cases: "start_failure e = Uncaught e \<or> (\<exists>m. start_failure e = Http_Exception 409 m)"
  by (cases e rule: start_failure.cases) simp_all

definition api_status :: "api_failure \<Rightarrow> int" where
  "api_status f = (case f of Http_Exception n _ \<Rightarrow> n | Uncaught _ \<Rightarrow> 500)"

text \<open>
  A well-formed request to start a run gets the workflow's own answer: with a valid
  credential, a running workflow service, a valid trace parent, ids of 1 to 64 characters, a known
  role and a question of 1 to 4,000 characters, the route starts the workflow with exactly the
  request's data and the parent's trace id, returns its result, and turns only its conflict into
  status 409. No validation error can arise between the route and the workflow.
\<close>

theorem valid_starts_reach_the_workflow:
  assumes "authorize_service U expected a = Inr ()"
    and "trace_id_from_traceparent U (rh_traceparent h) = Inr tid"
    and "id_length_ok (sq_job_id b)" "id_length_ok (sq_data_source_id b)"
    and "1 \<le> length (sq_question b)" "length (sq_question b) \<le> 4000"
    and "id_length_ok (rh_tenant h)" "id_length_ok (rh_user h)"
    and "rh_role h \<in> set (map lit [''ADMIN'', ''ANALYST'', ''VIEWER''])"
  shows "api_start_run U expected (Some G) a b h g =
    (case start_workflow G (run_request b h tid) g of (r, g') \<Rightarrow>
       (case r of Inl (Workflow (WorkflowConflictError m)) \<Rightarrow> Inl (Http_Exception 409 m)
          | Inl e \<Rightarrow> Inl (Uncaught e) | Inr res \<Rightarrow> Inr res, g'))"
proof -
  have "length tid = 32" using assms(2)
    by (auto simp: trace_id_from_traceparent_def all_hex_def split: list.splits if_splits)
  then have "mk_start_run (run_request b h tid) = Inr (run_request b h tid)"
    using assms(3-9) by (simp add: mk_start_run_def run_request_def)
  moreover have "trace_id U (rh_traceparent h) = Inr tid" using assms(2) by (simp add: trace_id_def)
  ultimately show ?thesis using assms(1)
    by (cases "start_workflow G (run_request b h tid) g"; cases "fst (start_workflow G (run_request b h tid) g)")
       (auto simp: api_start_run_def available_def split: exn.split workflow_error.split)
qed

theorem valid_starts_reach_the_workflow_witness:
  "\<exists>res. api_start_run ascii_uni (lit ''secret'') (Some idle_ops) (lit ''bearer secret'') sample_start sample_headers ()
     = (Inr res, ())"
proof -
  have a: "authorize_service ascii_uni (lit ''secret'') (lit ''bearer secret'') = Inr ()"
    "trace_id_from_traceparent ascii_uni (rh_traceparent sample_headers) = Inr (lit ''0af7651916cd43dd8448eb211c80319c'')"
    "id_length_ok (sq_job_id sample_start)" "id_length_ok (sq_data_source_id sample_start)"
    "1 \<le> length (sq_question sample_start)" "length (sq_question sample_start) \<le> 4000"
    "id_length_ok (rh_tenant sample_headers)" "id_length_ok (rh_user sample_headers)"
    "rh_role sample_headers \<in> set (map lit [''ADMIN'', ''ANALYST'', ''VIEWER''])"
    by code_simp+
  show ?thesis unfolding valid_starts_reach_the_workflow [OF a]
    by (simp add: start_workflow_def idle_ops_def)
qed

section \<open>The MCP boundary\<close>

text \<open>
  C40. The boundary of the MCP endpoint admits an HTTP request exactly when its Authorization
  header, the last one if repeated, is the configured token byte for byte, its tenant and user
  headers are UTF-8 texts that read as UUIDs, and its role is one of the three known ones; every
  other HTTP request is refused and none raises, as long as the token can be encoded.
\<close>

theorem mcp_boundary_admits_exactly:
  assumes "utf8_encode token = Some bytes"
  shows "service_boundary U token (lit ''http'') hs = Inr (if
      header_bytes ''authorization'' hs = lit ''Bearer '' @ bytes
      \<and> (\<exists>tenant s. utf8_decode (header_bytes ''x-tenant-id'' hs) = Some s \<and> uuid_of_text U s = Some tenant)
      \<and> (\<exists>user s. utf8_decode (header_bytes ''x-user-id'' hs) = Some s \<and> uuid_of_text U s = Some user)
      \<and> header_bytes ''x-user-role'' hs \<in> {lit ''ADMIN'', lit ''ANALYST'', lit ''VIEWER''}
    then Forward else Refuse)"
proof -
  have "valid_identity U hs \<longleftrightarrow>
      (\<exists>tenant s. utf8_decode (header_bytes ''x-tenant-id'' hs) = Some s \<and> uuid_of_text U s = Some tenant)
      \<and> (\<exists>user s. utf8_decode (header_bytes ''x-user-id'' hs) = Some s \<and> uuid_of_text U s = Some user)
      \<and> header_bytes ''x-user-role'' hs \<in> {lit ''ADMIN'', lit ''ANALYST'', lit ''VIEWER''}"
    by (auto simp: valid_identity_def uuid_of_bytes_def known_roles_def header_bytes_def bind_eq_Some_conv
        split: option.splits)
  with assms show ?thesis by (simp add: service_boundary_def)
qed

definition sample_mcp_headers :: "(nat list \<times> nat list) list" where
  "sample_mcp_headers = [(lit ''authorization'', lit ''Bearer t''),
     (lit ''x-tenant-id'', lit ''11111111-2222-4333-8444-555555555555''),
     (lit ''x-user-id'', lit ''11111111-2222-4333-8444-555555555556''), (lit ''x-user-role'', lit ''VIEWER'')]"

theorem mcp_boundary_admits_exactly_witness:
  "service_boundary ascii_uni (lit ''t'') (lit ''http'') sample_mcp_headers = Inr Forward
   \<and> service_boundary ascii_uni (lit ''x'') (lit ''http'') sample_mcp_headers = Inr Refuse"
proof -
  have enc: "utf8_encode (lit ''t'') = Some (lit ''t'')" "utf8_encode (lit ''x'') = Some (lit ''x'')" by code_simp+
  have h: "header_bytes ''authorization'' sample_mcp_headers = lit ''Bearer '' @ lit ''t''"
    "header_bytes ''authorization'' sample_mcp_headers \<noteq> lit ''Bearer '' @ lit ''x''"
    "header_bytes ''x-user-role'' sample_mcp_headers = lit ''VIEWER''" by code_simp+
  have "uuid_of_bytes ascii_uni (header_bytes ''x-tenant-id'' sample_mcp_headers) \<noteq> None"
    "uuid_of_bytes ascii_uni (header_bytes ''x-user-id'' sample_mcp_headers) \<noteq> None" by code_simp+
  then have "\<exists>tenant s. utf8_decode (header_bytes ''x-tenant-id'' sample_mcp_headers) = Some s \<and> uuid_of_text ascii_uni s = Some tenant"
    "\<exists>user s. utf8_decode (header_bytes ''x-user-id'' sample_mcp_headers) = Some s \<and> uuid_of_text ascii_uni s = Some user"
    by (auto simp: uuid_of_bytes_def bind_eq_Some_conv)
  with h mcp_boundary_admits_exactly [OF enc(1), of ascii_uni sample_mcp_headers]
    mcp_boundary_admits_exactly [OF enc(2), of ascii_uni sample_mcp_headers]
  show ?thesis by simp
qed
end
