(* ===== verification/Metric_Postgres.thy ===== *)
theory Metric_Postgres
  imports Metric_Store
begin

text \<open>
  The PostgreSQL repository of \<open>retrieval/repository.py\<close>. The database is an argument: a
  function that answers one statement with its parameters and gives its next state, or an
  exception of \<open>psycopg\<close>. What the development states is what this code contributes: which
  statements it sends in which order with which parameters, that a replacement is one
  transaction, the classification of errors, and the reading of the answers. Ranking and
  tenant filtering happen inside PostgreSQL.
\<close>

section \<open>The database\<close>

datatype pg_value =
    V_Uuid uuid | V_Text pystr | V_Int int | V_Time real | V_Source source_type

text \<open>The rows of the two tables, as the cursor gives them; pgvector may answer with a text.\<close>

record chunk_row =
  row_chunk :: metric_chunk
  row_embedding :: "pystr + real list"
  row_score :: real

datatype pg_answer =
    Done
  | Current "(uuid \<times> int) option"
  | Flag bool
  | Summary int int pystr
  | Rows "chunk_row list"

type_synonym 'd database_run = "pystr \<times> pg_value list \<Rightarrow> 'd \<Rightarrow> (exn + pg_answer) \<times> 'd"

record 'd pg_repo =
  pg_open :: "'d \<Rightarrow> exn + unit"
  pg_exec :: "'d database_run"
  pg_commit :: "'d \<Rightarrow> exn + unit"
  pg_schema :: pystr
  pg_profile :: pystr
  pg_approximate :: bool
  pg_g10 :: "real \<Rightarrow> pystr"
  pg_float :: "pystr \<Rightarrow> real option"
  pg_digest :: "nat list \<Rightarrow> pystr"

text \<open>\<open>_IDENTIFIER.fullmatch(schema)\<close> is the pattern of the query policy's schema.\<close>

definition identifier_pattern :: "pystr \<Rightarrow> bool" where
  "identifier_pattern s \<longleftrightarrow>
     (case s of [] \<Rightarrow> False
      | c # cs \<Rightarrow> (97 \<le> c \<and> c \<le> 122 \<or> c = 95)
          \<and> list_all (\<lambda>d. 97 \<le> d \<and> d \<le> 122 \<or> d = 95 \<or> ascii_digit d) cs)"

definition mk_pg_config :: "pystr \<Rightarrow> exn + pystr" where
  "mk_pg_config schema = (if identifier_pattern schema then Inr schema
     else Inl (Py (ValueError (lit ''schema must be a simple PostgreSQL identifier''))))"

definition documents_table :: "'d pg_repo \<Rightarrow> pystr" where
  "documents_table R = pg_schema R @ lit ''.metric_documents''"

definition chunks_table :: "'d pg_repo \<Rightarrow> pystr" where
  "chunks_table R = pg_schema R @ lit ''.metric_chunks''"

text \<open>\<open>except psycopg.Error\<close>: every other exception passes.\<close>

fun as_store_error :: "exn \<Rightarrow> exn" where
  "as_store_error (Pg e) = Retrieval RetrievalStoreError"
| "as_store_error e = e"

fun run_statements :: "'d database_run \<Rightarrow> (pystr \<times> pg_value list) list \<Rightarrow> 'd \<Rightarrow> (exn + pg_answer list) \<times> 'd"
  where
  "run_statements db [] d = (Inr [], d)"
| "run_statements db (q # qs) d =
     (case db q d of
        (Inl e, d') \<Rightarrow> (Inl e, d')
      | (Inr a, d') \<Rightarrow>
          (case run_statements db qs d' of
             (Inl e, d'') \<Rightarrow> (Inl e, d'')
           | (Inr answers, d'') \<Rightarrow> (Inr (a # answers), d'')))"

text \<open>
  \<open>with connect(...) as connection, connection.transaction()\<close>: an exception in the body, or a commit
  the server refuses, undoes what the body did. That is psycopg's documented behaviour; a connection
  lost while the commit is under way, after which nobody knows whether it took effect, is outside.
\<close>

definition in_transaction ::
  "'d pg_repo \<Rightarrow> ('d \<Rightarrow> (exn + 'a) \<times> 'd) \<Rightarrow> 'd \<Rightarrow> (exn + 'a) \<times> 'd" where
  "in_transaction R body d =
     (case pg_open R d of
        Inl e \<Rightarrow> (Inl (as_store_error e), d)
      | Inr _ \<Rightarrow>
          (case body d of
             (Inl e, d') \<Rightarrow> (Inl (as_store_error e), d)
           | (Inr a, d') \<Rightarrow>
               (case pg_commit R d' of
                  Inl e \<Rightarrow> (Inl (as_store_error e), d)
                | Inr _ \<Rightarrow> (Inr a, d'))))"

section \<open>Vectors\<close>

definition vector_literal :: "(real \<Rightarrow> pystr) \<Rightarrow> real list \<Rightarrow> pystr" where
  "vector_literal g10 v = lit ''['' @ join [44] (map g10 v) @ lit '']''"

text \<open>\<open>value.strip("[]").split(",")\<close>, empty items skipped; a text that is no number is a \<open>ValueError\<close>.\<close>

definition is_bracket :: "nat \<Rightarrow> bool" where
  "is_bracket c \<longleftrightarrow> c = 91 \<or> c = 93"

definition strip_brackets :: "pystr \<Rightarrow> pystr" where
  "strip_brackets s = rev (dropWhile is_bracket (rev (dropWhile is_bracket s)))"

definition parse_vector :: "(pystr \<Rightarrow> real option) \<Rightarrow> pystr + real list \<Rightarrow> exn + real list" where
  "parse_vector num value =
     (case value of
        Inr v \<Rightarrow> Inr v
      | Inl s \<Rightarrow> res_map (\<lambda>w. case num w of None \<Rightarrow> Inl (Py (ValueError w)) | Some x \<Rightarrow> Inr x)
          (filter (\<lambda>w. w \<noteq> []) (split_on 44 (strip_brackets s))))"

section \<open>Replacing a document\<close>

definition lock_statement :: "'d pg_repo \<Rightarrow> replacement \<Rightarrow> pystr \<times> pg_value list" where
  "lock_statement R r =
     (lit ''SELECT id, version FROM '' @ documents_table R
        @ lit '' WHERE tenant_id = %s AND title = %s AND status = 'ACTIVE' FOR UPDATE'',
      [V_Uuid (rp_tenant r), V_Text (rp_title r)])"

definition supersede_statements :: "'d pg_repo \<Rightarrow> mint \<Rightarrow> (uuid \<times> int) option \<Rightarrow> (pystr \<times> pg_value list) list"
  where
  "supersede_statements R m current =
     (case current of
        None \<Rightarrow> []
      | Some (doc, version) \<Rightarrow>
          [(lit ''UPDATE '' @ documents_table R
              @ lit '' SET status = 'SUPERSEDED', updated_at = %s WHERE id = %s'',
            [V_Time (mint_now m), V_Uuid doc]),
           (lit ''DELETE FROM '' @ chunks_table R @ lit '' WHERE document_id = %s'', [V_Uuid doc])])"

definition insert_document :: "'d pg_repo \<Rightarrow> mint \<Rightarrow> replacement \<Rightarrow> pg_value \<Rightarrow> int \<Rightarrow> pystr \<times> pg_value list"
  where
  "insert_document R m r created_by version =
     (lit ''INSERT INTO '' @ documents_table R
        @ lit '' (id, tenant_id, title, version, status, source_type, source_name, content_sha256, created_by, created_at, updated_at) VALUES (%s, %s, %s, %s, 'ACTIVE', %s, %s, %s, %s, %s, %s)'',
      [V_Uuid (mint_document m), V_Uuid (rp_tenant r), V_Text (rp_title r), V_Int version,
       V_Source (rp_source_type r), V_Text (rp_source_name r), V_Text (rp_sha256 r), created_by,
       V_Time (mint_now m), V_Time (mint_now m)])"

definition insert_chunk ::
  "'d pg_repo \<Rightarrow> mint \<Rightarrow> replacement \<Rightarrow> int \<Rightarrow> nat \<times> pending_chunk \<Rightarrow> pystr \<times> pg_value list" where
  "insert_chunk R m r version nc =
     (lit ''INSERT INTO '' @ chunks_table R
        @ lit '' (id, tenant_id, document_id, document_version, section_key, section_title, source_locator, ordinal, content, embedding, created_at, embedding_profile) VALUES (%s, %s, %s, %s, %s, %s, %s, %s, %s, %s::vector, %s, %s)'',
      [V_Uuid (mint_chunk m (fst nc)), V_Uuid (rp_tenant r), V_Uuid (mint_document m), V_Int version,
       V_Text (pc_key (snd nc)), V_Text (pc_title (snd nc)), V_Text (pc_locator (snd nc)),
       V_Int (int (pc_ordinal (snd nc))), V_Text (pc_content (snd nc)),
       V_Text (vector_literal (pg_g10 R) (pc_embedding (snd nc))), V_Time (mint_now m),
       V_Text (pg_profile R)])"

definition replace_version :: "(uuid \<times> int) option \<Rightarrow> int" where
  "replace_version current = (case current of None \<Rightarrow> 1 | Some (doc, version) \<Rightarrow> version + 1)"

text \<open>What follows the lock: supersede the old document, insert the new one and its chunks.\<close>

definition replace_statements ::
  "'d pg_repo \<Rightarrow> mint \<Rightarrow> replacement \<Rightarrow> pg_value \<Rightarrow> (uuid \<times> int) option \<Rightarrow> (pystr \<times> pg_value list) list"
  where
  "replace_statements R m r created_by current =
     supersede_statements R m current
     @ insert_document R m r created_by (replace_version current)
     # map (insert_chunk R m r (replace_version current)) (enumerate 0 (rp_chunks r))"

definition replace_body ::
  "'d pg_repo \<Rightarrow> mint \<Rightarrow> replacement \<Rightarrow> pg_value \<Rightarrow> 'd \<Rightarrow> (exn + int) \<times> 'd" where
  "replace_body R m r created_by d =
     (case pg_exec R (lock_statement R r) d of
        (Inl e, d1) \<Rightarrow> (Inl e, d1)
      | (Inr (Current current), d1) \<Rightarrow>
          (case run_statements (pg_exec R) (replace_statements R m r created_by current) d1 of
             (Inl e, d2) \<Rightarrow> (Inl e, d2)
           | (Inr answers, d2) \<Rightarrow> (Inr (replace_version current), d2))
      | (Inr _, d1) \<Rightarrow> (Inl (Py TypeError), d1))"

definition pg_replace ::
  "'d pg_repo \<Rightarrow> mint \<Rightarrow> replacement \<Rightarrow> pg_value \<Rightarrow> 'd \<Rightarrow> (exn + stored_document) \<times> 'd" where
  "pg_replace R m r created_by d =
     (if rp_chunks r = [] then (Inl (Py (ValueError (lit ''at least one chunk is required''))), d)
      else (case in_transaction R (replace_body R m r created_by) d of
          (Inl e, d') \<Rightarrow> (Inl e, d')
        | (Inr version, d') \<Rightarrow> (mk_stored_document (new_document m r version), d')))"

section \<open>Searching\<close>

definition row_ranked :: "'d pg_repo \<Rightarrow> chunk_row \<Rightarrow> exn + ranked_chunk" where
  "row_ranked R row =
     res_bind (parse_vector (pg_float R) (row_embedding row)) (\<lambda>v.
     res_bind (mk_metric_chunk ((row_chunk row)\<lparr>mc_embedding := v\<rparr>)) (\<lambda>c.
       Inr \<lparr>rk_chunk = c, rk_score = row_score row\<rparr>))"

definition search_statements :: "'d pg_repo \<Rightarrow> pystr \<times> pg_value list \<Rightarrow> (pystr \<times> pg_value list) list" where
  "search_statements R q =
     (if pg_approximate R then [(lit ''SET LOCAL hnsw.iterative_scan = 'strict_order'' @ [39], [])] else [])
     @ [(lit ''SET LOCAL statement_timeout = '5s'' @ [39], []), q]"

definition pg_search :: "'d pg_repo \<Rightarrow> pystr \<times> pg_value list \<Rightarrow> 'd \<Rightarrow> (exn + ranked_chunk list) \<times> 'd" where
  "pg_search R q d =
     (case in_transaction R (run_statements (pg_exec R) (search_statements R q)) d of
        (Inl e, d') \<Rightarrow> (Inl e, d')
      | (Inr answers, d') \<Rightarrow>
          (case last answers of
             Rows rows \<Rightarrow> (res_map (row_ranked R) rows, d')
           | _ \<Rightarrow> (Inl (Py TypeError), d')))"

definition lexical_sql :: "'d pg_repo \<Rightarrow> pystr" where
  "lexical_sql R = lit ''SELECT c.*, d.title AS document_title, ts_rank_cd(c.search_vector, websearch_to_tsquery('simple', %s)) AS score FROM ''
     @ chunks_table R @ lit '' c JOIN '' @ documents_table R
     @ lit '' d ON d.id = c.document_id WHERE c.tenant_id = %s AND d.status = 'ACTIVE' AND c.search_vector @@ websearch_to_tsquery('simple', %s) ORDER BY score DESC, c.ordinal ASC LIMIT %s''"

definition pg_lexical :: "'d pg_repo \<Rightarrow> uuid \<Rightarrow> pystr \<Rightarrow> int \<Rightarrow> 'd \<Rightarrow> (exn + ranked_chunk list) \<times> 'd" where
  "pg_lexical R t query n d =
     pg_search R (lexical_sql R, [V_Text query, V_Uuid t, V_Text query, V_Int n]) d"

definition distance_sql :: "nat \<Rightarrow> pystr" where
  "distance_sql dims = lit ''c.embedding::vector('' @ str_nat dims @ lit '') <=> %s::vector(''
     @ str_nat dims @ lit '')''"

definition vector_sql :: "'d pg_repo \<Rightarrow> nat \<Rightarrow> pystr" where
  "vector_sql R dims =
     (if pg_approximate R
      then lit ''SELECT c.*, d.title AS document_title, 1 - ('' @ distance_sql dims
        @ lit '') AS score FROM '' @ chunks_table R @ lit '' c JOIN '' @ documents_table R
        @ lit '' d ON d.id = c.document_id WHERE c.tenant_id = %s AND d.status = 'ACTIVE' AND c.embedding_profile = %s AND vector_dims(c.embedding) = ''
        @ str_nat dims @ lit '' ORDER BY '' @ distance_sql dims @ lit '', c.ordinal ASC LIMIT %s''
      else lit ''WITH candidates AS MATERIALIZED (SELECT c.*, d.title AS document_title FROM ''
        @ chunks_table R @ lit '' c JOIN '' @ documents_table R
        @ lit '' d ON d.id=c.document_id AND d.tenant_id=c.tenant_id WHERE c.tenant_id=%s AND d.status='ACTIVE' AND c.embedding_profile=%s AND vector_dims(c.embedding)=''
        @ str_nat dims @ lit '') SELECT c.*, 1-('' @ distance_sql dims
        @ lit '') AS score FROM candidates c ORDER BY '' @ distance_sql dims
        @ lit '', c.ordinal ASC LIMIT %s'')"

definition vector_parameters :: "'d pg_repo \<Rightarrow> uuid \<Rightarrow> pystr \<Rightarrow> int \<Rightarrow> pg_value list" where
  "vector_parameters R t literal n =
     (if pg_approximate R
      then [V_Text literal, V_Uuid t, V_Text (pg_profile R), V_Text literal, V_Int n]
      else [V_Uuid t, V_Text (pg_profile R), V_Text literal, V_Text literal, V_Int n])"

definition mixed_statement :: "'d pg_repo \<Rightarrow> uuid \<Rightarrow> pystr \<times> pg_value list" where
  "mixed_statement R t =
     (lit ''SELECT EXISTS (SELECT 1 FROM '' @ chunks_table R @ lit '' c JOIN '' @ documents_table R
        @ lit '' d ON d.id=c.document_id WHERE c.tenant_id=%s AND d.status='ACTIVE' AND c.embedding_profile<>%s)'',
      [V_Uuid t, V_Text (pg_profile R)])"

definition pg_vector :: "'d pg_repo \<Rightarrow> uuid \<Rightarrow> real list \<Rightarrow> int \<Rightarrow> 'd \<Rightarrow> (exn + ranked_chunk list) \<times> 'd" where
  "pg_vector R t v n d =
     (case in_transaction R (pg_exec R (mixed_statement R t)) d of
        (Inl e, d') \<Rightarrow> (Inl e, d')
      | (Inr (Flag True), d') \<Rightarrow> (Inl (Retrieval EmbeddingProfileError), d)
      | (Inr (Flag False), d') \<Rightarrow>
          if \<not> (16 \<le> length v \<and> length v \<le> 2048)
          then (Inl (Py (ValueError (lit ''invalid embedding dimension''))), d')
          else pg_search R (vector_sql R (length v),
            vector_parameters R t (vector_literal (pg_g10 R) v) n) d'
      | (Inr _, d') \<Rightarrow> (Inl (Py TypeError), d'))"

definition revision_statement :: "'d pg_repo \<Rightarrow> uuid \<Rightarrow> pystr \<times> pg_value list" where
  "revision_statement R t =
     (lit ''SELECT count(*) AS count, COALESCE(sum(version), 0) AS versions, COALESCE(max(updated_at)::text, '' @ [39, 39]
        @ lit '') AS updated FROM '' @ documents_table R
        @ lit '' WHERE tenant_id = %s AND status = 'ACTIVE'' @ [39], [V_Uuid t])"

definition pg_revision :: "'d pg_repo \<Rightarrow> uuid \<Rightarrow> 'd \<Rightarrow> exn + pystr" where
  "pg_revision R t d =
     (case fst (in_transaction R (pg_exec R (revision_statement R t)) d) of
        Inl e \<Rightarrow> Inl e
      | Inr (Summary n versions updated) \<Rightarrow>
          fingerprint (pg_digest R) (str_int n @ lit '':'' @ str_int versions @ lit '':'' @ updated)
      | Inr _ \<Rightarrow> Inl (Py TypeError))"

section \<open>Lemmas\<close>

lemma run_statements_Inr:
  "run_statements db qs d = (Inr answers, d') \<Longrightarrow> length answers = length qs"
  by (induction qs arbitrary: d answers) (auto split: prod.splits sum.splits)

lemma in_transaction_Inl: "in_transaction R body d = (Inl e, d') \<Longrightarrow> d' = d"
  by (auto simp: in_transaction_def split: sum.splits prod.splits)

lemma in_transaction_Inr:
  "in_transaction R body d = (Inr a, d') \<longleftrightarrow> (\<exists>u. pg_open R d = Inr u) \<and> body d = (Inr a, d')
     \<and> (\<exists>u. pg_commit R d' = Inr u)"
  by (auto simp: in_transaction_def split: sum.splits prod.splits)

lemma in_transaction_no_pg: "in_transaction R body d = (Inl e, d') \<Longrightarrow> e \<noteq> Pg p"
proof -
  have "as_store_error x \<noteq> Pg p" for x by (cases x) auto
  then show "in_transaction R body d = (Inl e, d') \<Longrightarrow> e \<noteq> Pg p"
    by (auto simp: in_transaction_def split: sum.splits prod.splits)
qed

text \<open>The items of a literal survive joining and splitting: they hold no comma and no bracket.\<close>

definition plain_number :: "pystr \<Rightarrow> bool" where
  "plain_number w \<longleftrightarrow> w \<noteq> [] \<and> 44 \<notin> set w \<and> (\<forall>c \<in> set w. \<not> is_bracket c)"

lemma split_on_join:
  "ws \<noteq> [] \<Longrightarrow> \<forall>w \<in> set ws. c \<notin> set w \<Longrightarrow> split_on c (join [c] ws) = ws"
proof (induction "[c]" ws rule: join.induct)
  case (2 x)
  then show ?case by (simp add: split_on_single)
next
  case (3 x y ys)
  then show ?case by (simp add: split_on_append)
qed simp

lemma strip_brackets_literal:
  assumes "\<forall>c \<in> set s. \<not> is_bracket c"
  shows "strip_brackets (91 # s @ [93]) = s"
proof -
  have none: "dropWhile is_bracket w = w" if "\<forall>c \<in> set w. \<not> is_bracket c" for w
    using that by (cases w) auto
  show ?thesis
  proof (cases s)
    case Nil
    then show ?thesis by (simp add: strip_brackets_def is_bracket_def)
  next
    case (Cons a b)
    with assms have "dropWhile is_bracket (91 # s @ [93]) = s @ [93]" by (simp add: is_bracket_def)
    moreover have "dropWhile is_bracket (rev (s @ [93])) = rev s"
      using none [of "rev s"] assms by (simp add: is_bracket_def)
    ultimately show ?thesis by (simp add: strip_brackets_def)
  qed
qed

lemma set_join: "set (join sep ws) \<subseteq> set sep \<union> (\<Union>w \<in> set ws. set w)"
  by (induction sep ws rule: join.induct) auto

section \<open>Properties\<close>

text \<open>
  A stored vector reads back: if every component prints as a number text without commas and
  brackets that reads as x, parsing the literal the repository writes gives the vector of the
  values read, component by component.
\<close>

theorem vector_literal_roundtrip:
  assumes "\<And>x. x \<in> set v \<Longrightarrow> plain_number (g10 x) \<and> num (g10 x) = Some (read x)"
  shows "parse_vector num (Inl (vector_literal g10 v)) = Inr (map read v)"
proof -
  let ?ws = "map g10 v"
  have plain: "\<forall>w \<in> set ?ws. plain_number w" using assms by auto
  have "\<forall>c \<in> set (join [44] ?ws). \<not> is_bracket c"
  proof
    fix c assume "c \<in> set (join [44] ?ws)"
    then have "c = 44 \<or> (\<exists>w \<in> set ?ws. c \<in> set w)" using set_join [of "[44]" ?ws] by auto
    with plain show "\<not> is_bracket c" by (auto simp: plain_number_def is_bracket_def)
  qed
  then have strip: "strip_brackets (vector_literal g10 v) = join [44] ?ws"
    using strip_brackets_literal by (simp add: vector_literal_def lit_def)
  have "filter (\<lambda>w. w \<noteq> []) (split_on 44 (join [44] ?ws)) = ?ws"
  proof (cases "v = []")
    case False
    then have "split_on 44 (join [44] ?ws) = ?ws"
      by (intro split_on_join) (use plain in \<open>auto simp: plain_number_def\<close>)
    with plain show ?thesis by (auto simp: plain_number_def filter_id_conv)
  qed simp
  moreover have "res_map (\<lambda>w. case num w of None \<Rightarrow> Inl (Py (ValueError w)) | Some x \<Rightarrow> Inr x) ?ws
      = Inr (map read v)"
    using assms by (induction v) auto
  ultimately show ?thesis by (simp add: parse_vector_def strip)
qed

text \<open>The statements of one replacement, run as the body of a transaction.\<close>

lemma replace_body_Inr:
  assumes "replace_body R m r created_by d = (Inr version, d1)"
  obtains current d0 answers where
    "pg_exec R (lock_statement R r) d = (Inr (Current current), d0)"
    "run_statements (pg_exec R) (supersede_statements R m current
        @ insert_document R m r created_by version
        # map (insert_chunk R m r version) (enumerate 0 (rp_chunks r))) d0 = (Inr answers, d1)"
    "version = replace_version current"
proof -
  obtain a d0 where a: "pg_exec R (lock_statement R r) d = (a, d0)" by fastforce
  with assms obtain current where c: "a = Inr (Current current)"
    by (auto simp: replace_body_def split: sum.splits pg_answer.splits)
  with a assms obtain answers where
    "run_statements (pg_exec R) (replace_statements R m r created_by current) d0 = (Inr answers, d1)"
    "version = replace_version current"
    by (auto simp: replace_body_def split: sum.splits prod.splits)
  with that a c show thesis unfolding replace_statements_def by blast
qed

lemma replace_version_pos:
  assumes "\<And>doc v. current = Some (doc, v) \<Longrightarrow> 1 \<le> v"
  shows "1 \<le> replace_version current"
  using assms by (cases current) (auto simp: replace_version_def)

lemma mk_new_document:
  assumes "1 \<le> version" "hex64 (rp_sha256 r)" "rp_chunks r \<noteq> []"
  shows "mk_stored_document (new_document m r version) = Inr (new_document m r version)"
    and "sd_version (new_document m r version) = version"
  using assms by (auto simp: mk_stored_document_def new_document_def Suc_le_eq)

text \<open>
  C29. A replacement is one transaction: it locks the tenant's active document of that title, then
  supersedes it and deletes its chunks where there is one, then inserts the new document with the
  next version and one row per chunk, all through statements with bound parameters; if anything
  fails the database is as before, and no exception of the driver reaches the caller.
\<close>

theorem replacement_is_one_transaction:
  assumes "pg_replace R m r created_by d = (x, d')" and "hex64 (rp_sha256 r)"
    and "\<And>doc v d1. pg_exec R (lock_statement R r) d = (Inr (Current (Some (doc, v))), d1) \<Longrightarrow> 1 \<le> v"
  shows "case x of
      Inl e \<Rightarrow> d' = d \<and> (\<forall>p. e \<noteq> Pg p)
    | Inr doc \<Rightarrow> \<exists>current d1 answers. pg_exec R (lock_statement R r) d = (Inr (Current current), d1)
        \<and> run_statements (pg_exec R) (supersede_statements R m current
            @ insert_document R m r created_by (sd_version doc)
            # map (insert_chunk R m r (sd_version doc)) (enumerate 0 (rp_chunks r))) d1 = (Inr answers, d')
        \<and> sd_version doc = replace_version current"
proof (cases "rp_chunks r = []")
  case True
  with assms(1) have "x = Inl (Py (ValueError (lit ''at least one chunk is required'')))" "d' = d"
    by (auto simp: pg_replace_def)
  then show ?thesis by simp
next
  case False
  obtain y d1 where run: "in_transaction R (replace_body R m r created_by) d = (y, d1)" by fastforce
  show ?thesis
  proof (cases y)
    case (Inl e)
    note bad = run [unfolded Inl]
    from assms(1) False bad have "x = Inl e" "d' = d1" by (simp_all add: pg_replace_def)
    with in_transaction_Inl [OF bad] in_transaction_no_pg [OF bad] show ?thesis by simp
  next
    case (Inr version)
    with run have "replace_body R m r created_by d = (Inr version, d1)" by (simp add: in_transaction_Inr)
    then obtain current d0 answers where
      lock: "pg_exec R (lock_statement R r) d = (Inr (Current current), d0)" and
      s: "run_statements (pg_exec R) (supersede_statements R m current
          @ insert_document R m r created_by version
          # map (insert_chunk R m r version) (enumerate 0 (rp_chunks r))) d0 = (Inr answers, d1)"
        "version = replace_version current"
      by (rule replace_body_Inr)
    from assms(3) lock have "1 \<le> version" unfolding s(2) by (intro replace_version_pos) blast
    note new = mk_new_document [OF this assms(2) False, of m]
    from assms(1) False run Inr new(1) have x: "x = Inr (new_document m r version)" "d' = d1"
      by (simp_all add: pg_replace_def)
    show ?thesis unfolding x sum.case new(2) using lock s by blast
  qed
qed

section \<open>Witnesses\<close>

text \<open>A database that holds no document, logs what it is sent and fails on chunk rows of tenant 9.\<close>

definition logging_database :: "(pystr \<times> pg_value list) list database_run" where
  "logging_database q d =
     (if snd q = [] then (Inr Done, d @ [q])
      else if starts_with (lit ''SELECT id'') (fst q) then (Inr (Current None), d @ [q])
      else if snd q ! 1 = V_Uuid 9 \<and> length (snd q) = 12 then (Inl (Pg PgOther), d @ [q])
      else (Inr Done, d @ [q]))"

definition sample_pg :: "(pystr \<times> pg_value list) list pg_repo" where
  "sample_pg = \<lparr>pg_open = (\<lambda>d. Inr ()), pg_exec = logging_database, pg_commit = (\<lambda>d. Inr ()), pg_schema = lit ''copilot'',
     pg_profile = lit ''hashing:64'', pg_approximate = False, pg_g10 = (\<lambda>x. lit ''0.25''),
     pg_float = (\<lambda>s. Some (1 / 4)), pg_digest = (\<lambda>b. replicate 64 48)\<rparr>"

lemma sample_pg_replace:
  "(case pg_replace sample_pg sample_mint sample_replacement (V_Uuid 1) [] of
      (Inr doc, d) \<Rightarrow> sd_version doc = 1 \<and> length d = 3 | _ \<Rightarrow> False)"
  "pg_replace sample_pg sample_mint (sample_replacement\<lparr>rp_tenant := 9\<rparr>) (V_Uuid 1) []
     = (Inl (Retrieval RetrievalStoreError), [])"
  by code_simp+

theorem replacement_is_one_transaction_witness:
  "\<exists>doc d d1 answers. pg_replace sample_pg sample_mint sample_replacement (V_Uuid 1) [] = (Inr doc, d)
     \<and> pg_exec sample_pg (lock_statement sample_pg sample_replacement) [] = (Inr (Current None), d1)
     \<and> run_statements (pg_exec sample_pg)
         (insert_document sample_pg sample_mint sample_replacement (V_Uuid 1) 1
          # map (insert_chunk sample_pg sample_mint sample_replacement 1)
              (enumerate 0 (rp_chunks sample_replacement))) d1 = (Inr answers, d)"
proof -
  obtain doc d where run: "pg_replace sample_pg sample_mint sample_replacement (V_Uuid 1) [] = (Inr doc, d)"
    "sd_version doc = 1"
    using sample_pg_replace(1) by (auto split: prod.splits sum.splits)
  have none: "pg_exec sample_pg (lock_statement sample_pg sample_replacement) []
      = (Inr (Current None), [lock_statement sample_pg sample_replacement])"
    by code_simp
  have hex: "hex64 (rp_sha256 sample_replacement)" by code_simp
  from replacement_is_one_transaction [OF run(1) hex] none run(2)
  obtain current d1 answers where
    "pg_exec sample_pg (lock_statement sample_pg sample_replacement) [] = (Inr (Current current), d1)"
    "run_statements (pg_exec sample_pg) (supersede_statements sample_pg sample_mint current
        @ insert_document sample_pg sample_mint sample_replacement (V_Uuid 1) 1
        # map (insert_chunk sample_pg sample_mint sample_replacement 1)
            (enumerate 0 (rp_chunks sample_replacement))) d1 = (Inr answers, d)"
    by auto
  with none run(1) show ?thesis by (auto simp: supersede_statements_def)
qed

theorem vector_literal_roundtrip_witness:
  "parse_vector (pg_float sample_pg) (Inl (vector_literal (pg_g10 sample_pg) [1 / 4, 1 / 4]))
     = Inr [1 / 4, 1 / 4]"
proof -
  have plain: "plain_number (lit ''0.25'')" by code_simp
  have "parse_vector (pg_float sample_pg) (Inl (vector_literal (pg_g10 sample_pg) [1 / 4, 1 / 4]))
      = Inr (map (\<lambda>x. 1 / 4) [1 / 4, 1 / 4 :: real])"
    by (rule vector_literal_roundtrip) (use plain in \<open>simp add: sample_pg_def\<close>)
  then show ?thesis by simp
qed

end
