(* ===== verification/Telemetry.thy ===== *)
theory Telemetry
  imports Observability
begin

text \<open>
  The rest of \<open>observability.py\<close> and its uses: the Prometheus counters and histograms by their
  labels, the HTTP middleware, the span of a node with its parent, and the one-time set-up of the
  tracer. Exporting is the libraries' part. The main result is that the route label never shows
  an identifier.
\<close>

section \<open>Metrics\<close>

text \<open>A counter holds a number, a histogram its observations, for each tuple of labels.\<close>

type_synonym labels = "pystr list"

record telemetry =
  tm_requests :: "(labels \<times> nat) list"
  tm_durations :: "(labels \<times> real list) list"
  tm_node_durations :: "(labels \<times> real list) list"
  tm_node_errors :: "(labels \<times> nat) list"
  tm_tokens :: "(labels \<times> int) list"
  tm_rejections :: "(labels \<times> nat) list"

definition counted :: "labels \<Rightarrow> (labels \<times> 'n::zero) list \<Rightarrow> 'n" where
  "counted k m = (case map_of m k of None \<Rightarrow> 0 | Some n \<Rightarrow> n)"

definition count_by :: "labels \<Rightarrow> 'n \<Rightarrow> (labels \<times> 'n::{zero, plus}) list \<Rightarrow> (labels \<times> 'n) list" where
  "count_by k n m = AList.update k (counted k m + n) m"

definition observed :: "labels \<Rightarrow> real \<Rightarrow> (labels \<times> real list) list \<Rightarrow> (labels \<times> real list) list" where
  "observed k x m = AList.update k ((case map_of m k of None \<Rightarrow> [] | Some xs \<Rightarrow> xs) @ [x]) m"

section \<open>The HTTP middleware\<close>

record http_request =
  hq_route :: "pystr option"   \<comment> \<open>the path template of the matched route, when one matched\<close>
  hq_path :: pystr
  hq_method :: pystr

definition route_label :: "http_request \<Rightarrow> pystr" where
  "route_label r = (case hq_route r of
     Some t \<Rightarrow> if t \<noteq> [] then t else safe_route (hq_path r)
   | None \<Rightarrow> safe_route (hq_path r))"

text \<open>\<open>clock\<close> holds the readings before and after the call; \<open>status\<close> is 500 when it raises.\<close>

definition observe_http ::
  "unidata \<Rightarrow> ('r \<Rightarrow> int) \<Rightarrow> http_request \<Rightarrow> exn + 'r \<Rightarrow> real \<times> real \<Rightarrow> telemetry
     \<Rightarrow> (exn + 'r) \<times> telemetry" where
  "observe_http U status_code r outcome clock m =
     (let status = (case outcome of Inl _ \<Rightarrow> 500 | Inr resp \<Rightarrow> status_code resp);
          route = route_label r; verb = u_upper U (hq_method r) in
      (outcome, m\<lparr>tm_requests := count_by [verb, route, str_int status] 1 (tm_requests m),
         tm_durations := observed [verb, route] (max 0 (snd clock - fst clock)) (tm_durations m)\<rparr>))"

text \<open>\<open>metrics_middleware\<close> and the \<open>/metrics\<close> route of \<open>main.py\<close>.\<close>

definition metrics_middleware ::
  "bool \<Rightarrow> unidata \<Rightarrow> ('r \<Rightarrow> int) \<Rightarrow> http_request \<Rightarrow> exn + 'r \<Rightarrow> real \<times> real \<Rightarrow> telemetry
     \<Rightarrow> (exn + 'r) \<times> telemetry" where
  "metrics_middleware enabled U status_code r outcome clock m =
     (if \<not> enabled then (outcome, m) else observe_http U status_code r outcome clock m)"

datatype metrics_reply = Not_Found | Exposition telemetry

definition metrics_page :: "bool \<Rightarrow> telemetry \<Rightarrow> metrics_reply" where
  "metrics_page enabled m = (if \<not> enabled then Not_Found else Exposition m)"

section \<open>Model tokens, rejections and nodes\<close>

text \<open>A counter refuses a negative amount.\<close>

definition add_tokens :: "labels \<Rightarrow> int option \<Rightarrow> telemetry \<Rightarrow> (exn + unit) \<times> telemetry" where
  "add_tokens k amount m = (case amount of
     None \<Rightarrow> (Inr (), m)
   | Some n \<Rightarrow> if n < 0 then (Inl (Py (ValueError (lit ''Counters can only be incremented by non-negative amounts.''))), m)
       else (Inr (), m\<lparr>tm_tokens := count_by k n (tm_tokens m)\<rparr>))"

definition record_model_tokens ::
  "pystr \<Rightarrow> pystr \<Rightarrow> int option \<Rightarrow> int option \<Rightarrow> telemetry \<Rightarrow> (exn + unit) \<times> telemetry" where
  "record_model_tokens provider model input_tokens output_tokens m =
     (case add_tokens [provider, model, lit ''input''] input_tokens m of
        (Inl e, m') \<Rightarrow> (Inl e, m')
      | (Inr _, m') \<Rightarrow> add_tokens [provider, model, lit ''output''] output_tokens m')"

definition count_rejection :: "pystr \<Rightarrow> telemetry \<Rightarrow> telemetry" where
  "count_rejection reason m = m\<lparr>tm_rejections := count_by [reason] 1 (tm_rejections m)\<rparr>"

text \<open>What a node's wrapper measures after a success, and after a failure with a code.\<close>

definition node_succeeded :: "pystr \<Rightarrow> real \<Rightarrow> telemetry \<Rightarrow> telemetry" where
  "node_succeeded node seconds m = m\<lparr>tm_node_durations :=
     observed [node, lit ''succeeded''] (max 0 seconds) (tm_node_durations m)\<rparr>"

definition node_failed :: "pystr \<Rightarrow> pystr \<Rightarrow> real \<Rightarrow> telemetry \<Rightarrow> telemetry" where
  "node_failed node code seconds m = m\<lparr>tm_node_durations :=
       observed [node, lit ''failed''] (max 0 seconds) (tm_node_durations m),
     tm_node_errors := count_by [node, code] 1 (tm_node_errors m)\<rparr>"

section \<open>Spans\<close>

record span_event =
  se_error :: exn
  se_attributes :: "(pystr \<times> bool) list"

record node_span =
  ns_parent_trace :: int
  ns_parent_span :: int
  ns_name :: pystr
  ns_attributes :: "(pystr \<times> pystr) list"
  ns_status :: "pystr option"
  ns_events :: "span_event list"

text \<open>\<open>random\<close> is the reading of \<open>secrets.randbits(64)\<close>; \<open>int(s, 16)\<close> raises a \<open>ValueError\<close>.\<close>

definition agent_node_span ::
  "unidata \<Rightarrow> (nat list \<Rightarrow> pystr) \<Rightarrow> int \<Rightarrow> pystr \<Rightarrow> pystr \<Rightarrow> exn + node_span" where
  "agent_node_span U sha random node trace =
     res_bind (normalize_trace_id U sha trace) (\<lambda>t. case int16 U t of
       None \<Rightarrow> Inl (Py (ValueError t))
     | Some n \<Rightarrow> Inr \<lparr>ns_parent_trace = n, ns_parent_span = max 1 random,
         ns_name = lit ''agent.node.'' @ node, ns_attributes = [(lit ''agent.node'', node)],
         ns_status = None, ns_events = []\<rparr>)"

definition mark_span_error :: "exn \<Rightarrow> pystr \<Rightarrow> node_span \<Rightarrow> node_span" where
  "mark_span_error e code s = s\<lparr>ns_attributes := AList.update (lit ''error.type'') code (ns_attributes s),
     ns_status := Some code,
     ns_events := ns_events s @ [\<lparr>se_error = e, se_attributes = [(lit ''exception.escaped'', True)]\<rparr>]\<rparr>"

section \<open>Set-up\<close>

record service_settings =
  sv_name :: pystr
  sv_environment :: pystr
  sv_version :: pystr

record tracer_provider =
  tp_resource :: "(pystr \<times> pystr) list"
  tp_exporter :: "pystr option"

text \<open>The endpoint setting: a blank text means none.\<close>

definition otlp_endpoint :: "pystr option \<Rightarrow> pystr option" where
  "otlp_endpoint v = (case v of None \<Rightarrow> None | Some s \<Rightarrow> if strip s = [] then None else Some s)"

text \<open>The global flag and the provider installed so far.\<close>

definition configure_observability ::
  "service_settings \<Rightarrow> bool \<Rightarrow> pystr option \<Rightarrow> bool \<times> tracer_provider option \<Rightarrow> bool \<times> tracer_provider option" where
  "configure_observability c tracing endpoint state =
     (if fst state \<or> \<not> tracing then state
      else (True, Some \<lparr>tp_resource = [(lit ''service.name'', sv_name c), (lit ''service.version'', sv_version c),
           (lit ''deployment.environment.name'', sv_environment c)],
         tp_exporter = map_option (\<lambda>u. rstrip_char 47 u @ lit ''/v1/traces'') endpoint\<rparr>))"

section \<open>Lemmas\<close>

text \<open>A match needs a run of 36 characters of its alphabet.\<close>

definition uuid_head :: "pystr \<Rightarrow> bool" where
  "uuid_head s \<longleftrightarrow> 36 \<le> length s \<and> list_all any_hex (take 8 s) \<and> s ! 8 = 45
     \<and> list_all (\<lambda>c. any_hex c \<or> c = 45) (take 27 (drop 9 s))"

lemma takeWhile_run: "n \<le> length (takeWhile P (take m xs)) \<longleftrightarrow> n \<le> m \<and> n \<le> length xs \<and> list_all P (take n xs)"
proof (induction xs arbitrary: n m)
  case (Cons x xs)
  then show ?case by (cases n; cases m) auto
qed auto

lemma uuid_match_iff: "uuid_match s \<noteq> None \<longleftrightarrow> uuid_head s"
  using takeWhile_run [of 27 "\<lambda>c. any_hex c \<or> c = 45" 36 "drop 9 s"]
  by (auto simp: uuid_match_def uuid_head_def Let_def)

lemma uuid_head_take: "36 \<le> n \<Longrightarrow> uuid_head (take n s) \<longleftrightarrow> 36 \<le> length s \<and> uuid_head s"
  by (auto simp: uuid_head_def drop_take min_def)

lemma uuid_head_cong: "take 36 s = take 36 t \<Longrightarrow> uuid_head s \<longleftrightarrow> uuid_head t"
proof -
  assume t: "take 36 s = take 36 t"
  have h: "uuid_head x \<longleftrightarrow> uuid_head (take 36 x)" for x
    using uuid_head_take [of 36 x] by (auto simp: uuid_head_def)
  from h [of s] h [of t] t show ?thesis by simp
qed

lemma uuid_head_no_brace: "uuid_head s \<Longrightarrow> c \<in> set (take 36 s) \<Longrightarrow> any_hex c \<or> c = 45"
proof -
  assume h: "uuid_head s" and c: "c \<in> set (take 36 s)"
  have "take 36 s = take 8 s @ take 1 (drop 8 s) @ take 27 (drop 9 s)"
    using take_add [of 8 28 s] take_add [of 1 27 "drop 8 s"] by simp
  moreover have "take 1 (drop 8 s) = [s ! 8]" using h by (simp add: uuid_head_def take_Suc_conv_app_nth)
  ultimately show ?thesis using h c by (auto simp: uuid_head_def list_all_iff)
qed

text \<open>As long as no replacement is written, the text is copied.\<close>

lemma replace_copies: "123 \<notin> set (take k (replace_uuids s)) \<Longrightarrow> take k (replace_uuids s) = take k s"
proof (induction s arbitrary: k rule: replace_uuids.induct)
  case (2 c cs)
  show ?case
  proof (cases "uuid_match (c # cs)")
    case None
    with 2 show ?thesis by (cases k) auto
  next
    case (Some n)
    with 2(3) have "k = 0" by (cases k) (auto simp: lit_def)
    then show ?thesis by simp
  qed
qed simp

lemma brace_not_hex: "\<not> any_hex 123" "\<not> any_hex 125" "\<not> any_hex 105"
  by (simp_all add: any_hex_def is_hex_def ascii_digit_def)

lemma uuid_head_hex: "uuid_head (c # s) \<Longrightarrow> any_hex c" "uuid_head (x # c # s) \<Longrightarrow> any_hex c"
  by (auto simp: uuid_head_def take_Cons')

lemma label_has_no_head:
  assumes "i < 4"
  shows "\<not> uuid_head (drop i (lit ''{id}'' @ s))"
proof
  assume h: "uuid_head (drop i (lit ''{id}'' @ s))"
  have l: "lit ''{id}'' = [123, 105, 100, 125]" by (simp add: lit_def)
  from assms have "i = 0 \<or> i = 1 \<or> i = 2 \<or> i = 3" by linarith
  with h brace_not_hex show False
    unfolding l by (auto dest: uuid_head_hex simp: drop_Cons')
qed

lemma unmatched_has_no_head:
  assumes "uuid_match (c # cs) = None"
  shows "\<not> uuid_head (replace_uuids (c # cs))"
proof
  assume h: "uuid_head (replace_uuids (c # cs))"
  then have "123 \<notin> set (take 36 (replace_uuids (c # cs)))"
    using uuid_head_no_brace brace_not_hex by force
  then have "take 36 (replace_uuids (c # cs)) = take 36 (c # cs)" by (rule replace_copies)
  with h have "uuid_head (c # cs)" using uuid_head_cong by blast
  with assms show False by (simp add: uuid_match_iff [symmetric])
qed

lemma replaced_has_no_head: "\<not> uuid_head (drop i (replace_uuids s))"
proof (induction s arbitrary: i rule: replace_uuids.induct)
  case 1
  then show ?case by (simp add: uuid_head_def)
next
  case (2 c cs)
  show ?case
  proof (cases "uuid_match (c # cs)")
    case None
    show ?thesis
    proof (cases i)
      case 0
      with unmatched_has_no_head [OF None] show ?thesis by simp
    next
      case (Suc j)
      with None 2(1) [OF None] show ?thesis by simp
    qed
  next
    case (Some n)
    then have e: "replace_uuids (c # cs) = lit ''{id}'' @ replace_uuids (drop n (c # cs))" by simp
    show ?thesis
    proof (cases "i < 4")
      case True
      then show ?thesis unfolding e by (rule label_has_no_head)
    next
      case False
      then have "drop i (replace_uuids (c # cs)) = drop (i - 4) (replace_uuids (drop n (c # cs)))"
        unfolding e drop_append by (simp add: numeral_eq_Suc)
      with 2(2) [OF Some, of "i - 4"] show ?thesis by metis
    qed
  qed
qed

text \<open>
  C36. The route label of the HTTP metrics shows no identifier: when no route matched, the path
  written as a label contains, at no position, anything the identifier pattern matches, whatever
  the path is, and has at most 160 characters.
\<close>

theorem route_labels_hide_identifiers:
  assumes "hq_route r = None"
  shows "length (route_label r) \<le> 160 \<and> uuid_match (drop i (route_label r)) = None"
proof -
  have "\<not> uuid_head (drop i (take 160 (replace_uuids (hq_path r))))"
  proof
    assume h: "uuid_head (drop i (take 160 (replace_uuids (hq_path r))))"
    then have "uuid_head (take (160 - i) (drop i (replace_uuids (hq_path r))))" by (simp add: drop_take)
    moreover from this have "36 \<le> 160 - i" by (simp add: uuid_head_def)
    ultimately have "uuid_head (drop i (replace_uuids (hq_path r)))" using uuid_head_take by blast
    with replaced_has_no_head show False by blast
  qed
  then have "uuid_match (drop i (take 160 (replace_uuids (hq_path r)))) = None"
    using uuid_match_iff by blast
  with assms show ?thesis by (simp add: route_label_def safe_route_def)
qed

definition unmatched_request :: http_request where
  "unmatched_request = \<lparr>hq_route = None, hq_path = lit ''/runs/11111111-2222-4333-8444-555555555555/resume'',
     hq_method = lit ''post''\<rparr>"

theorem route_labels_hide_identifiers_witness:
  "route_label unmatched_request = lit ''/runs/{id}/resume'' \<and> uuid_match (drop 6 (lit ''/runs/{id}/resume'')) = None"
proof -
  have r: "route_label unmatched_request = lit ''/runs/{id}/resume''" by code_simp
  have "hq_route unmatched_request = None" by (simp add: unmatched_request_def)
  from route_labels_hide_identifiers [OF this, of 6] r show ?thesis by simp
qed

text \<open>Set-up happens once: a later call changes nothing, whatever the settings.\<close>

theorem observability_is_configured_once:
  "configure_observability c' tr' u' (configure_observability c True u s)
     = configure_observability c True u s"
  by (simp add: configure_observability_def)

end
