(* ===== verification/Production_Retrieval.thy ===== *)
theory Production_Retrieval
  imports Configuration
begin

text \<open>
  The retrieval service of production, \<open>create_production_retrieval_service\<close> of
  \<open>retrieval/factory.py\<close>: the knowledge base in the platform's PostgreSQL, with the embedding profile
  of the configured provider written to every chunk and asked for in every vector search. What
  \<open>psycopg\<close> does is an argument: one connection and one statement over it.
\<close>

section \<open>The knowledge database\<close>

record knowledge_database =
  kd_host :: pystr
  kd_port :: int
  kd_database :: pystr
  kd_username :: pystr
  kd_password :: pystr
  kd_schema :: pystr
  kd_connect_timeout :: int

text \<open>The configuration the factory makes of the platform's settings: schema and timeout are defaults.\<close>

definition platform_knowledge :: "platform_database \<Rightarrow> exn + knowledge_database" where
  "platform_knowledge d =
     res_bind (mk_pg_config (lit ''copilot'')) (\<lambda>schema.
     Inr \<lparr>kd_host = pd_host d, kd_port = pd_port d, kd_database = pd_name d,
       kd_username = pd_user d, kd_password = pd_password d, kd_schema = schema, kd_connect_timeout = 3\<rparr>)"

definition knowledge_parameters :: "knowledge_database \<Rightarrow> (pystr \<times> param) list" where
  "knowledge_parameters k =
     [(lit ''host'', PStr (kd_host k)), (lit ''port'', PInt (kd_port k)),
      (lit ''dbname'', PStr (kd_database k)), (lit ''user'', PStr (kd_username k)),
      (lit ''password'', PStr (kd_password k)), (lit ''connect_timeout'', PInt (kd_connect_timeout k))]"

text \<open>The driver: \<open>psycopg.connect\<close>, one statement, the commit, the number texts, and the digest.\<close>

record 'd knowledge_driver =
  dr_connect :: "(pystr \<times> param) list \<Rightarrow> 'd \<Rightarrow> exn + unit"
  dr_exec :: "'d database_run"
  dr_commit :: "'d \<Rightarrow> exn + unit"
  dr_g10 :: "real \<Rightarrow> pystr"
  dr_float :: "pystr \<Rightarrow> real option"

text \<open>The constructor of the repository: the search mode is one of two.\<close>

definition mk_pg_repo ::
  "'d knowledge_driver \<Rightarrow> (nat list \<Rightarrow> pystr) \<Rightarrow> knowledge_database \<Rightarrow> pystr \<Rightarrow> bool \<Rightarrow> 'd pg_repo" where
  "mk_pg_repo D sha k profile approximate =
     \<lparr>pg_open = dr_connect D (knowledge_parameters k), pg_exec = dr_exec D, pg_commit = dr_commit D, pg_schema = kd_schema k,
      pg_profile = profile, pg_approximate = approximate, pg_g10 = dr_g10 D, pg_float = dr_float D,
      pg_digest = sha\<rparr>"

text \<open>As the service uses it: documents are created by the user of the request.\<close>

definition pg_repository :: "uuid \<Rightarrow> 'd pg_repo \<Rightarrow> 'd metric_repo" where
  "pg_repository user R = \<lparr>repo_replace = (\<lambda>m r. pg_replace R m r (V_Uuid user)), repo_lexical = pg_lexical R,
     repo_vector = pg_vector R, repo_revision = pg_revision R\<rparr>"

section \<open>The factory\<close>

text \<open>\<open>getattr(provider, "profile", f"hashing:{dimensions}")\<close>: only the HTTP provider has one.\<close>

definition production_profile :: "(nat list \<Rightarrow> pystr) \<Rightarrow> retrieval_settings \<Rightarrow> exn + pystr" where
  "production_profile sha c =
     (case se_embedding c of
        Hashing \<Rightarrow> Inr (lit ''hashing:'' @ str_int (se_dimensions c))
      | Http_Embedding \<Rightarrow> embedding_profile sha (se_embedding_url c)
          (mk_http_embedding (se_embedding_url c) (se_embedding_model c) (nat (se_dimensions c))
             (se_embedding_key c) (se_timeout c) (nat (se_attempts c))))"

definition create_production ::
  "field_readers \<Rightarrow> environment \<Rightarrow> retrieval_env \<Rightarrow> 'd knowledge_driver \<Rightarrow> uuid
     \<Rightarrow> exn + ('d, provider_state) retrieval_service" where
  "create_production R env E D user =
     res_bind (load_platform R env) (\<lambda>database.
     res_bind (load_retrieval R env) (\<lambda>(settings, approximate).
     res_bind (production_profile (re_sha E) settings) (\<lambda>profile.
     res_bind (platform_knowledge database) (\<lambda>k.
     create_metric_retrieval E settings
       (pg_repository user (mk_pg_repo D (re_sha E) k profile approximate))))))"

section \<open>Properties\<close>

lemma copilot_schema [simp]: "mk_pg_config (lit ''copilot'') = Inr (lit ''copilot'')"
  by code_simp

text \<open>No option and no statement timeout is sent: the transactions set their own.\<close>

lemma platform_knowledge_parameters:
  "\<exists>k. platform_knowledge d = Inr k \<and> map_of (knowledge_parameters k) (lit ''options'') = None
     \<and> map_of (knowledge_parameters k) (lit ''connect_timeout'') = Some (PInt 3)"
proof -
  have keys: "map fst (knowledge_parameters k) = map lit [''host'', ''port'', ''dbname'', ''user'', ''password'',
      ''connect_timeout'']" for k
    by (simp add: knowledge_parameters_def)
  have "lit ''options'' \<notin> fst ` set (knowledge_parameters k)" for k
    using arg_cong [OF keys, of set k] by (simp add: lit_def)
  then have none: "map_of (knowledge_parameters k) (lit ''options'') = None" for k
    by (simp add: map_of_eq_None_iff)
  have "map_of (knowledge_parameters k) (lit ''connect_timeout'') = Some (PInt (kd_connect_timeout k))" for k
    by (simp add: knowledge_parameters_def lit_def)
  with none show ?thesis by (simp add: platform_knowledge_def)
qed

lemma str_nat_no_colon: "58 \<notin> set (str_nat n)"
  using str_nat_digits [of 58 n] by (auto simp: ascii_digit_def)

lemma split_at_unique:
  assumes "a @ x # b = a' @ x # b'" "x \<notin> set a" "x \<notin> set a'"
  shows "a = a' \<and> b = b'"
  using assms by (induction a arbitrary: a') (auto simp: Cons_eq_append_conv)

lemma profile_dimensions_last:
  assumes "m @ 58 # str_nat d = m' @ 58 # str_nat d'"
  shows "m = m' \<and> d = d'"
proof -
  have "rev (str_nat d) @ 58 # rev m = rev (str_nat d') @ 58 # rev m'"
    using arg_cong [OF assms, of rev] by simp
  from split_at_unique [OF this] show ?thesis by (simp add: str_nat_no_colon)
qed

lemma http_profile:
  assumes "embedding_profile sha url (mk_http_embedding url m n key timeout attempts) = Inr p"
  obtains b where "utf8_encode (rstrip_char 47 url) = Some b"
    "p = lit ''http:'' @ take 12 (sha b) @ 58 # m @ 58 # str_nat n"
  using assms by (auto simp: embedding_profile_def mk_http_embedding_def lit_def split: option.splits)

lemma hashing_is_not_http: "lit ''hashing:'' @ x \<noteq> lit ''http:'' @ y"
  by (simp add: lit_def)

text \<open>
  A profile identifies what produced the vectors. Two configurations with the same profile use the
  same kind of provider, model and dimensions, and addresses whose digests begin alike; so vectors
  of different models are never compared, whatever colons a model's name holds.
\<close>

lemma profiles_of_one_kind:
  assumes "embedding_profile sha url (mk_http_embedding url m n key timeout attempts) = Inr p"
    and "embedding_profile sha url' (mk_http_embedding url' m' n' key' timeout' attempts') = Inr p"
    and digest: "\<And>b. length (sha b) = 64"
  shows "m = m' \<and> n = n' \<and> (\<exists>b b'. utf8_encode (rstrip_char 47 url) = Some b
     \<and> utf8_encode (rstrip_char 47 url') = Some b' \<and> take 12 (sha b) = take 12 (sha b'))"
proof -
  obtain b b' where bs: "utf8_encode (rstrip_char 47 url) = Some b" "utf8_encode (rstrip_char 47 url') = Some b'"
    and "take 12 (sha b) @ 58 # m @ 58 # str_nat n = take 12 (sha b') @ 58 # m' @ 58 # str_nat n'"
    using assms(1,2) by (elim http_profile) simp
  then have same: "take 12 (sha b) = take 12 (sha b')" "m @ 58 # str_nat n = m' @ 58 # str_nat n'"
    by (simp_all add: append_eq_append_conv digest)
  with bs show ?thesis using profile_dimensions_last [OF same(2)] by simp
qed

theorem profiles_identify_the_model:
  assumes p: "production_profile sha c = Inr p" "production_profile sha c' = Inr p"
    and digest: "\<And>b. length (sha b) = 64"
    and bounds: "settings_bounds c" "settings_bounds c'"
  shows "se_embedding c = se_embedding c' \<and> se_dimensions c = se_dimensions c'
    \<and> (se_embedding c = Http_Embedding \<longrightarrow> se_embedding_model c = se_embedding_model c'
         \<and> (\<exists>b b'. utf8_encode (rstrip_char 47 (se_embedding_url c)) = Some b
              \<and> utf8_encode (rstrip_char 47 (se_embedding_url c')) = Some b'
              \<and> take 12 (sha b) = take 12 (sha b')))"
proof -
  have nonneg: "0 \<le> se_dimensions c" "0 \<le> se_dimensions c'"
    using bounds by (simp_all add: settings_bounds_def)
  have texts: "str_int (se_dimensions c) = str_nat (nat (se_dimensions c))"
      "str_int (se_dimensions c') = str_nat (nat (se_dimensions c'))"
    using nonneg by (simp_all add: str_int_def)
  have apart: "production_profile sha x = Inr p \<Longrightarrow> se_embedding x = Hashing
      \<Longrightarrow> production_profile sha y = Inr p \<Longrightarrow> se_embedding y \<noteq> Http_Embedding" for x y
    using hashing_is_not_http by (auto simp: production_profile_def elim!: http_profile)
  show ?thesis
  proof (cases "se_embedding c")
    case Hashing
    with apart [OF p(1) _ p(2)] have "se_embedding c' = Hashing" by (cases "se_embedding c'") auto
    with Hashing p texts nonneg show ?thesis by (auto simp: production_profile_def eq_nat_nat_iff)
  next
    case Http_Embedding
    with apart [OF p(2) _ p(1)] have "se_embedding c' = Http_Embedding" by (cases "se_embedding c'") auto
    with Http_Embedding p have made: "embedding_profile sha (se_embedding_url x)
        (mk_http_embedding (se_embedding_url x) (se_embedding_model x) (nat (se_dimensions x))
           (se_embedding_key x) (se_timeout x) (nat (se_attempts x))) = Inr p" if "x \<in> {c, c'}" for x
      using that by (auto simp: production_profile_def)
    from profiles_of_one_kind [OF made made digest, of c c'] nonneg
      and Http_Embedding \<open>se_embedding c' = Http_Embedding\<close>
    show ?thesis by (simp add: eq_nat_nat_iff)
  qed
qed

text \<open>The profile in effect is the one every vector search of the service asks for.\<close>

theorem production_searches_ask_for_the_profile:
  assumes "create_production R env E D user = Inr S"
  shows "\<exists>settings approximate k p. load_retrieval R env = Inr (settings, approximate)
    \<and> production_profile (re_sha E) settings = Inr p
    \<and> rs_repo S = pg_repository user (mk_pg_repo D (re_sha E) k p approximate)
    \<and> V_Text p \<in> set (vector_parameters (mk_pg_repo D (re_sha E) k p approximate) t literal n)
    \<and> V_Text p \<in> set (snd (mixed_statement (mk_pg_repo D (re_sha E) k p approximate) t))"
  using assms
  by (fastforce simp: create_production_def create_metric_retrieval_def mk_retrieval_def create_retrieval_def vector_parameters_def
      mixed_statement_def mk_pg_repo_def split: if_splits prod.splits)

end
