(* ===== verification/Application.thy ===== *)
theory Application
  imports Service_Api Production_Retrieval
begin

text \<open>
  What the running application holds for its routes, \<open>application.state\<close> of \<open>main.py\<close>: the services
  the lifespan assigns, against what the routes ask for.
\<close>

record ('w, 'r, 'g) app_state =
  ap_workflow :: "'w option"
  ap_retrieval :: "'r option"
  ap_graph :: "'g option"

definition empty_app :: "('w, 'r, 'g) app_state" where
  "empty_app = \<lparr>ap_workflow = None, ap_retrieval = None, ap_graph = None\<rparr>"

text \<open>
  The assignments of \<open>lifespan\<close>, each right after the call that makes the service. They are not undone
  when the application stops.
\<close>

definition assigned_state ::
  "lifespan_calls \<Rightarrow> 'w \<Rightarrow> 'r \<Rightarrow> 'g \<Rightarrow> ('w, 'r, 'g) app_state \<Rightarrow> ('w, 'r, 'g) app_state" where
  "assigned_state c w r g a =
     (if lc_workflow c \<noteq> Inr () then a
      else let a = a\<lparr>ap_workflow := Some w\<rparr> in
        if lc_retrieval c \<noteq> Inr () then a
        else let a = a\<lparr>ap_retrieval := Some r\<rparr> in
          (case lc_graph c of
             Inl e \<Rightarrow> a
           | Inr s \<Rightarrow>
               if gt_enabled s \<and> lc_store c = Inr () \<and> lc_setup c = Inr () \<and> lc_client c = Inr ()
               then a\<lparr>ap_graph := Some g\<rparr> else a))"

text \<open>
  In an application that has served, the routes of runs and of the knowledge base never answer 503, and
  those of the graph answer it exactly when the graph is not enabled.
\<close>

theorem served_routes_find_their_services:
  assumes "lifespan c = (es, outcome)" and "Served \<in> set es"
  shows "available what (ap_workflow (assigned_state c w r g empty_app)) = Inr w
    \<and> available what (ap_retrieval (assigned_state c w r g empty_app)) = Inr r
    \<and> (\<exists>s. lc_graph c = Inr s \<and> available what (ap_graph (assigned_state c w r g empty_app))
         = (if gt_enabled s then Inr g else Inl (Http_Exception 503 (lit what))))"
proof -
  from assms obtain s where up: "lc_workflow c = Inr ()" "lc_retrieval c = Inr ()" "lc_graph c = Inr s"
    and served: "Served \<in> set (fst (closing c (serving c s)))"
    by (auto simp: lifespan_def Let_def split: sum.splits)
  from served have "Served \<in> set (fst (serving c s))"
    by (auto simp: closing_def doing_def Let_def split: sum.splits prod.splits if_splits)
  then have "gt_enabled s \<Longrightarrow> lc_store c = Inr () \<and> lc_setup c = Inr () \<and> lc_client c = Inr ()"
    by (auto simp: serving_def doing_def Let_def split: sum.splits prod.splits if_splits)
  with up show ?thesis
    by (auto simp: assigned_state_def available_def empty_app_def Let_def)
qed

text \<open>Without its store an application holds no graph service.\<close>

lemma no_graph_without_store:
  "lc_store c = Inl e \<Longrightarrow> ap_graph (assigned_state c w r g empty_app) = None"
  by (auto simp: assigned_state_def empty_app_def Let_def split: sum.splits)

end
