(* ===== verification/Smoke_Test.thy ===== *)
theory Smoke_Test
  imports Errors PyJson "HOL-Library.Sublist"
begin

text \<open>
  The full-stack smoke test of \<open>evaluation/upgrade_smoke.py\<close>: the requests it sends, in their
  order, the checks on the answers and the report. The HTTP client is an argument: what it answers
  to one request, and its next state. A \<open>json()\<close> of an answer may raise.
\<close>

section \<open>Requests and answers\<close>

datatype http_verb = GET | POST

record smoke_call =
  sk_verb :: http_verb
  sk_url :: pystr
  sk_headers :: "(pystr \<times> pystr) list"
  sk_json :: "json option"

record smoke_reply =
  sr_status :: int
  sr_json :: "exn + json"

type_synonym 'c smoke_client = "smoke_call \<Rightarrow> 'c \<Rightarrow> (exn + smoke_reply) \<times> 'c"

text \<open>How an operator's command ends: an exception, \<open>RuntimeError\<close>, \<open>parser.error\<close>, \<open>SystemExit\<close>.\<close>

datatype tool_error = Raised exn | Runtime_Error pystr | Usage_Error pystr | Exit_With pystr

definition tool_bind ::
  "('s \<Rightarrow> (tool_error + 'a) \<times> 's) \<Rightarrow> ('a \<Rightarrow> 's \<Rightarrow> (tool_error + 'b) \<times> 's) \<Rightarrow> 's \<Rightarrow> (tool_error + 'b) \<times> 's" where
  "tool_bind m f s = (case m s of (Inl e, s') \<Rightarrow> (Inl e, s') | (Inr x, s') \<Rightarrow> f x s')"

definition tool_lift :: "tool_error + 'a \<Rightarrow> 's \<Rightarrow> (tool_error + 'a) \<times> 's" where
  "tool_lift r s = (r, s)"

definition raising :: "exn + 'a \<Rightarrow> tool_error + 'a" where
  "raising r = (case r of Inl e \<Rightarrow> Inl (Raised e) | Inr x \<Rightarrow> Inr x)"

section \<open>Reading the answers\<close>

text \<open>\<open>j[k]\<close> for a text key, \<open>j.get(k)\<close>, the truth of a value, \<open>len\<close> and iteration.\<close>

definition subscript :: "json \<Rightarrow> string \<Rightarrow> tool_error + json" where
  "subscript j k = (case j of
     JObj kvs \<Rightarrow> (case map_of kvs (lit k) of None \<Rightarrow> Inl (Raised (Py KeyError)) | Some v \<Rightarrow> Inr v)
   | _ \<Rightarrow> Inl (Raised (Py TypeError)))"

definition get_member :: "json \<Rightarrow> string \<Rightarrow> json \<Rightarrow> tool_error + json" where
  "get_member j k d = (case j of
     JObj kvs \<Rightarrow> Inr (case map_of kvs (lit k) of None \<Rightarrow> d | Some v \<Rightarrow> v)
   | _ \<Rightarrow> Inl (Raised (Py (OtherError (lit ''AttributeError'')))))"

fun truthy :: "json \<Rightarrow> bool" where
  "truthy JNull = False"
| "truthy (JBool b) = b"
| "truthy (JInt i) = (i \<noteq> 0)"
| "truthy (JFloat x) = (x \<noteq> 0)"
| "truthy (JStr s) = (s \<noteq> [])"
| "truthy (JList xs) = (xs \<noteq> [])"
| "truthy (JObj kvs) = (kvs \<noteq> [])"

fun iterated :: "json \<Rightarrow> tool_error + json list" where
  "iterated (JList xs) = Inr xs"
| "iterated (JStr s) = Inr (map (\<lambda>c. JStr [c]) s)"
| "iterated (JObj kvs) = Inr (map (JStr \<circ> fst) kvs)"
| "iterated _ = Inl (Raised (Py TypeError))"

text \<open>\<open>all(t["annotations"]["readOnlyHint"] for t in tools)\<close> stops at the first that is not.\<close>

fun all_read_only :: "json list \<Rightarrow> tool_error + bool" where
  "all_read_only [] = Inr True"
| "all_read_only (t # ts) = res_bind (subscript t ''annotations'') (\<lambda>a.
     res_bind (subscript a ''readOnlyHint'') (\<lambda>h. if truthy h then all_read_only ts else Inr False))"

definition expect_tools :: "json \<Rightarrow> tool_error + nat" where
  "expect_tools answer = res_bind (subscript answer ''result'') (\<lambda>r.
     res_bind (subscript r ''tools'') (\<lambda>tools. res_bind (iterated tools) (\<lambda>ts.
       let unexpected = Inl (Runtime_Error (lit ''MCP tool inventory is not the expected read-only set'')) in
       if length ts \<noteq> 5 then unexpected
       else res_bind (all_read_only ts) (\<lambda>ok. if ok then Inr (length ts) else unexpected))))"

definition expect_catalog :: "json \<Rightarrow> tool_error + unit" where
  "expect_catalog answer =
     (let failed = Inl (Runtime_Error (lit ''MCP catalog tool failed'')) in
      res_bind (get_member answer ''error'' JNull) (\<lambda>e.
        if truthy e then failed
        else res_bind (get_member answer ''result'' (JObj [])) (\<lambda>r.
          res_bind (get_member r ''isError'' JNull) (\<lambda>b. if truthy b then failed else Inr ()))))"

text \<open>\<open>"Bearer " + login["access_token"]\<close>\<close>

definition bearer_header :: "json \<Rightarrow> tool_error + pystr" where
  "bearer_header login = res_bind (subscript login ''access_token'') (\<lambda>t. case t of
     JStr s \<Rightarrow> Inr (lit ''Bearer '' @ s) | _ \<Rightarrow> Inl (Raised (Py TypeError)))"

section \<open>The run\<close>

type_synonym smoke_check = "pystr \<times> int"

definition status_mismatch :: "pystr \<Rightarrow> int \<Rightarrow> int \<Rightarrow> pystr" where
  "status_mismatch name expected got = name @ lit '': expected HTTP '' @ str_int expected
     @ lit '', got '' @ str_int got"

definition send_checked ::
  "'c smoke_client \<Rightarrow> pystr \<Rightarrow> int \<Rightarrow> smoke_call \<Rightarrow> 'c \<times> smoke_check list
     \<Rightarrow> (tool_error + smoke_reply) \<times> 'c \<times> smoke_check list" where
  "send_checked C name expected k s = (case C k (fst s) of
     (Inl e, c) \<Rightarrow> (Inl (Raised e), c, snd s)
   | (Inr r, c) \<Rightarrow>
       if sr_status r \<noteq> expected
       then (Inl (Runtime_Error (status_mismatch name expected (sr_status r))), c, snd s)
       else (Inr r, c, snd s @ [(name, sr_status r)]))"

definition get_call :: "pystr \<Rightarrow> smoke_call" where
  "get_call url = \<lparr>sk_verb = GET, sk_url = url, sk_headers = [], sk_json = None\<rparr>"

definition post_call :: "pystr \<Rightarrow> (pystr \<times> pystr) list \<Rightarrow> json \<Rightarrow> smoke_call" where
  "post_call url headers body = \<lparr>sk_verb = POST, sk_url = url, sk_headers = headers, sk_json = Some body\<rparr>"

text \<open>\<open>dotenv_values\<close>: a variable may be missing, declared without a value, or set.\<close>

type_synonym env_file = "pystr \<Rightarrow> pystr option option"

definition env_value :: "env_file \<Rightarrow> string \<Rightarrow> string \<Rightarrow> json" where
  "env_value config name d = (case config (lit name) of
     None \<Rightarrow> JStr (lit d) | Some None \<Rightarrow> JNull | Some (Some v) \<Rightarrow> JStr v)"

definition login_body :: "env_file \<Rightarrow> json" where
  "login_body config = JObj [
     (lit ''tenant_slug'', env_value config ''PLATFORM_BOOTSTRAP_TENANT_SLUG'' ''northwind''),
     (lit ''email'', env_value config ''PLATFORM_BOOTSTRAP_ADMIN_EMAIL'' ''admin@northwind.local''),
     (lit ''password'', env_value config ''PLATFORM_BOOTSTRAP_PASSWORD'' ''change-me-demo'')]"

definition graph_body :: json where
  "graph_body = JObj [(lit ''query'', JStr []), (lit ''depth'', JInt 0), (lit ''limit'', JInt 10)]"

definition knowledge_body :: json where
  "knowledge_body = JObj [(lit ''query'', JStr (lit ''Revenue'')), (lit ''mode'', JStr (lit ''lexical'')),
     (lit ''limit'', JInt 3)]"

definition mcp_body :: "string \<Rightarrow> json \<Rightarrow> int \<Rightarrow> json" where
  "mcp_body meth params i = JObj [(lit ''jsonrpc'', JStr (lit ''2.0'')), (lit ''id'', JInt i),
     (lit ''method'', JStr (lit meth)), (lit ''params'', params)]"

definition initialize_params :: json where
  "initialize_params = JObj [(lit ''protocolVersion'', JStr (lit ''2025-11-25'')),
     (lit ''capabilities'', JObj []),
     (lit ''clientInfo'', JObj [(lit ''name'', JStr (lit ''upgrade-smoke'')), (lit ''version'', JStr (lit ''1''))])]"

definition catalog_params :: json where
  "catalog_params = JObj [(lit ''name'', JStr (lit ''search_catalog'')),
     (lit ''arguments'', JObj [(lit ''query'', JStr [])])]"

definition capabilities_params :: json where
  "capabilities_params = JObj [(lit ''uri'', JStr (lit ''copilot://capabilities''))]"

definition mcp_check ::
  "'c smoke_client \<Rightarrow> pystr \<Rightarrow> (pystr \<times> pystr) list \<Rightarrow> string \<Rightarrow> json \<Rightarrow> int \<Rightarrow> 'c \<times> smoke_check list
     \<Rightarrow> (tool_error + smoke_reply) \<times> 'c \<times> smoke_check list" where
  "mcp_check C base headers meth params i =
     send_checked C (lit ''mcp_'' @ lit meth) 200 (post_call (base @ lit ''/api/mcp'') headers (mcp_body meth params i))"

record smoke_report =
  sx_mode :: pystr
  sx_model_calls :: int
  sx_checks :: "smoke_check list"
  sx_tool_count :: nat

text \<open>The part after the login, with the headers it gave.\<close>

definition smoke_signed_in ::
  "'c smoke_client \<Rightarrow> pystr \<Rightarrow> pystr \<Rightarrow> 'c \<times> smoke_check list \<Rightarrow> (tool_error + nat) \<times> 'c \<times> smoke_check list" where
  "smoke_signed_in C base bearer =
     (let headers = [(lit ''Authorization'', bearer)];
          mcp_headers = headers @ [(lit ''Accept'', lit ''application/json, text/event-stream'')] in
      tool_bind (send_checked C (lit ''graph_search'') 200 (post_call (base @ lit ''/api/graph/search'') headers graph_body)) (\<lambda>_.
      tool_bind (send_checked C (lit ''knowledge_lexical_search'') 200
        (post_call (base @ lit ''/api/knowledge/search'') headers knowledge_body)) (\<lambda>_.
      tool_bind (mcp_check C base mcp_headers ''initialize'' initialize_params 1) (\<lambda>_.
      tool_bind (mcp_check C base mcp_headers ''tools/list'' (JObj []) 2) (\<lambda>listed.
      tool_bind (tool_lift (res_bind (raising (sr_json listed)) expect_tools)) (\<lambda>n.
      tool_bind (mcp_check C base mcp_headers ''tools/call'' catalog_params 3) (\<lambda>called.
      tool_bind (tool_lift (res_bind (raising (sr_json called)) expect_catalog)) (\<lambda>_.
      tool_bind (mcp_check C base mcp_headers ''resources/read'' capabilities_params 4) (\<lambda>_.
      tool_lift (Inr n))))))))))"

definition smoke_checks ::
  "'c smoke_client \<Rightarrow> pystr \<Rightarrow> pystr \<Rightarrow> env_file \<Rightarrow> 'c \<times> smoke_check list \<Rightarrow> (tool_error + nat) \<times> 'c \<times> smoke_check list" where
  "smoke_checks C base web config =
     tool_bind (send_checked C (lit ''platform_health'') 200 (get_call (base @ lit ''/health''))) (\<lambda>_.
     tool_bind (send_checked C (lit ''web_health'') 200 (get_call (web @ lit ''/health''))) (\<lambda>_.
     tool_bind (send_checked C (lit ''anonymous_graph_denied'') 401
       (post_call (base @ lit ''/api/graph/search'') [] (JObj []))) (\<lambda>_.
     tool_bind (send_checked C (lit ''admin_login'') 200
       (post_call (base @ lit ''/api/auth/login'') [] (login_body config))) (\<lambda>login.
     tool_bind (tool_lift (res_bind (raising (sr_json login)) bearer_header)) (\<lambda>bearer.
     smoke_signed_in C base bearer)))))"

definition smoke ::
  "'c smoke_client \<Rightarrow> pystr \<Rightarrow> pystr \<Rightarrow> env_file \<Rightarrow> 'c \<Rightarrow> (tool_error + smoke_report) \<times> 'c" where
  "smoke C base web config c = (case smoke_checks C base web config (c, []) of
     (Inl e, c', _) \<Rightarrow> (Inl e, c')
   | (Inr n, c', checks) \<Rightarrow> (Inr \<lparr>sx_mode = lit ''read_only_full_stack_smoke'', sx_model_calls = 0,
       sx_checks = checks, sx_tool_count = n\<rparr>, c'))"

section \<open>What a report stands for\<close>

text \<open>A part of the run that, when it returns, has added exactly these checks.\<close>

definition passes :: "('c \<times> smoke_check list \<Rightarrow> (tool_error + 'a) \<times> 'c \<times> smoke_check list) \<Rightarrow> smoke_check list \<Rightarrow> bool" where
  "passes m cs \<longleftrightarrow> (\<forall>s x s'. m s = (Inr x, s') \<longrightarrow> snd s' = snd s @ cs)"

lemma passes_lift: "passes (tool_lift r) []"
  by (simp add: passes_def tool_lift_def)

lemma passes_send: "passes (send_checked C name expected k) [(name, expected)]"
  by (auto simp: passes_def send_checked_def split: prod.splits sum.splits if_splits)

lemma passes_mcp: "passes (mcp_check C base h meth params i) [(lit ''mcp_'' @ lit meth, 200)]"
  unfolding mcp_check_def by (rule passes_send)

lemma passes_bind:
  assumes "passes m cs" and "\<And>x. passes (f x) ds"
  shows "passes (tool_bind m f) (cs @ ds)"
  using assms unfolding passes_def tool_bind_def by (fastforce split: prod.splits sum.splits)

text \<open>The texts of the requests with their bodies: the credentials are in the login's only.\<close>

definition call_text :: "smoke_call \<Rightarrow> http_verb \<times> pystr \<times> json option" where
  "call_text k = (sk_verb k, sk_url k, sk_json k)"

definition planned_calls :: "pystr \<Rightarrow> pystr \<Rightarrow> env_file \<Rightarrow> (http_verb \<times> pystr \<times> json option) list" where
  "planned_calls base web config =
     [(GET, base @ lit ''/health'', None), (GET, web @ lit ''/health'', None),
      (POST, base @ lit ''/api/graph/search'', Some (JObj [])),
      (POST, base @ lit ''/api/auth/login'', Some (login_body config)),
      (POST, base @ lit ''/api/graph/search'', Some graph_body),
      (POST, base @ lit ''/api/knowledge/search'', Some knowledge_body),
      (POST, base @ lit ''/api/mcp'', Some (mcp_body ''initialize'' initialize_params 1)),
      (POST, base @ lit ''/api/mcp'', Some (mcp_body ''tools/list'' (JObj []) 2)),
      (POST, base @ lit ''/api/mcp'', Some (mcp_body ''tools/call'' catalog_params 3)),
      (POST, base @ lit ''/api/mcp'', Some (mcp_body ''resources/read'' capabilities_params 4))]"

text \<open>A client that keeps what it was asked to send.\<close>

definition recording :: "'c smoke_client \<Rightarrow> ('c \<times> smoke_call list) smoke_client" where
  "recording C k s = (case C k (fst s) of (r, c) \<Rightarrow> (r, c, snd s @ [k]))"

definition sends ::
  "(('c \<times> smoke_call list) \<times> smoke_check list \<Rightarrow> (tool_error + 'a) \<times> ('c \<times> smoke_call list) \<times> smoke_check list)
     \<Rightarrow> (http_verb \<times> pystr \<times> json option) list \<Rightarrow> bool" where
  "sends m ps \<longleftrightarrow> (\<forall>s x s'. m s = (x, s') \<longrightarrow>
     (\<exists>qs. map call_text (snd (fst s')) = map call_text (snd (fst s)) @ qs \<and> prefix qs ps \<and> (\<not> isl x \<longrightarrow> qs = ps)))"

lemma sends_lift: "sends (tool_lift r) []"
  by (simp add: sends_def tool_lift_def)

lemma sends_send: "sends (send_checked (recording C) name expected k) [call_text k]"
  by (auto simp: sends_def send_checked_def recording_def split: prod.splits sum.splits if_splits)

lemma sends_mcp: "sends (mcp_check (recording C) base h meth params i)
    [(POST, base @ lit ''/api/mcp'', Some (mcp_body meth params i))]"
  using sends_send [of C "lit ''mcp_'' @ lit meth" 200 "post_call (base @ lit ''/api/mcp'') h (mcp_body meth params i)"]
  by (simp add: mcp_check_def call_text_def post_call_def)

lemma sends_bind:
  assumes "sends m ps" and "\<And>x. sends (f x) qs"
  shows "sends (tool_bind m f) (ps @ qs)"
  unfolding sends_def
proof (intro allI impI)
  fix s x s'
  assume run: "tool_bind m f s = (x, s')"
  obtain y s1 where m: "m s = (y, s1)" by (cases "m s")
  from assms(1) m obtain us where us: "map call_text (snd (fst s1)) = map call_text (snd (fst s)) @ us"
    "prefix us ps" "\<not> isl y \<longrightarrow> us = ps" unfolding sends_def by blast
  show "\<exists>vs. map call_text (snd (fst s')) = map call_text (snd (fst s)) @ vs \<and> prefix vs (ps @ qs)
      \<and> (\<not> isl x \<longrightarrow> vs = ps @ qs)"
  proof (cases y)
    case (Inl e)
    with run m us show ?thesis by (auto simp: tool_bind_def)
  next
    case (Inr z)
    with run m have "f z s1 = (x, s')" by (simp add: tool_bind_def)
    with assms(2) obtain vs where "map call_text (snd (fst s')) = map call_text (snd (fst s1)) @ vs"
      "prefix vs qs" "\<not> isl x \<longrightarrow> vs = qs" unfolding sends_def by blast
    with us Inr show ?thesis by (intro exI [of _ "us @ vs"]) auto
  qed
qed

lemma expect_tools_five: "expect_tools j = Inr n \<Longrightarrow> n = 5"
  by (auto simp: expect_tools_def Let_def split: if_splits)

lemmas passes_steps =
  passes_bind [OF passes_send, unfolded append_Cons append_Nil]
  passes_bind [OF passes_mcp, unfolded append_Cons append_Nil]
  passes_bind [OF passes_lift, unfolded append_Nil]
  passes_lift

lemma signed_in_passes: "passes (smoke_signed_in C base bearer)
    [(lit ''graph_search'', 200), (lit ''knowledge_lexical_search'', 200), (lit ''mcp_'' @ lit ''initialize'', 200),
     (lit ''mcp_'' @ lit ''tools/list'', 200), (lit ''mcp_'' @ lit ''tools/call'', 200),
     (lit ''mcp_'' @ lit ''resources/read'', 200)]"
  unfolding smoke_signed_in_def Let_def by (rule passes_steps)+

lemma smoke_checks_passes: "passes (smoke_checks C base web config)
    [(lit ''platform_health'', 200), (lit ''web_health'', 200), (lit ''anonymous_graph_denied'', 401),
     (lit ''admin_login'', 200), (lit ''graph_search'', 200), (lit ''knowledge_lexical_search'', 200),
     (lit ''mcp_'' @ lit ''initialize'', 200), (lit ''mcp_'' @ lit ''tools/list'', 200),
     (lit ''mcp_'' @ lit ''tools/call'', 200), (lit ''mcp_'' @ lit ''resources/read'', 200)]"
  unfolding smoke_checks_def by (rule passes_steps signed_in_passes)+

lemma tool_bind_Inr:
  assumes "tool_bind m f s = (Inr y, s')"
  obtains x s1 where "m s = (Inr x, s1)" "f x s1 = (Inr y, s')"
  using assms by (auto simp: tool_bind_def split: prod.splits sum.splits)

lemma tool_lift_Inr: "tool_lift r s = (Inr y, s') \<longleftrightarrow> r = Inr y \<and> s' = s"
  by (auto simp: tool_lift_def)

lemma smoke_checks_five: "smoke_checks C base web config s = (Inr n, s') \<Longrightarrow> n = 5"
  unfolding smoke_checks_def smoke_signed_in_def Let_def
  by (elim tool_bind_Inr) (auto simp: tool_lift_Inr dest: expect_tools_five)

text \<open>
  The report vouches for the whole stack: \<open>smoke\<close> returns only when all ten checks answered as
  expected, the anonymous search among them with 401, and the MCP server listed five tools, all
  marked read-only.
\<close>

theorem smoke_reports_ten_checks:
  assumes "smoke C base web config c = (Inr r, c')"
  shows "map (\<lambda>(name, status). status) (sx_checks r) = [200, 200, 401, 200, 200, 200, 200, 200, 200, 200]
    \<and> (lit ''anonymous_graph_denied'', 401) \<in> set (sx_checks r) \<and> sx_tool_count r = 5"
proof -
  from assms obtain n s' where run: "smoke_checks C base web config (c, []) = (Inr n, s')"
    and r: "sx_checks r = snd s'" "sx_tool_count r = n"
    by (auto simp: smoke_def split: prod.splits sum.splits)
  from smoke_checks_passes [of C base web config] run have "snd s' = []
    @ [(lit ''platform_health'', 200), (lit ''web_health'', 200), (lit ''anonymous_graph_denied'', 401),
     (lit ''admin_login'', 200), (lit ''graph_search'', 200), (lit ''knowledge_lexical_search'', 200),
     (lit ''mcp_'' @ lit ''initialize'', 200), (lit ''mcp_'' @ lit ''tools/list'', 200),
     (lit ''mcp_'' @ lit ''tools/call'', 200), (lit ''mcp_'' @ lit ''resources/read'', 200)]"
    unfolding passes_def by (metis snd_conv)
  with smoke_checks_five [OF run] show ?thesis by (simp add: r)
qed

lemmas sends_steps =
  sends_bind [OF sends_send, unfolded append_Cons append_Nil]
  sends_bind [OF sends_mcp, unfolded append_Cons append_Nil]
  sends_bind [OF sends_lift, unfolded append_Nil]
  sends_lift

lemma signed_in_sends: "sends (smoke_signed_in (recording C) base bearer) (drop 4 (planned_calls base web config))"
proof -
  have "sends (smoke_signed_in (recording C) base bearer)
    [call_text (post_call (base @ lit ''/api/graph/search'') [(lit ''Authorization'', bearer)] graph_body),
     call_text (post_call (base @ lit ''/api/knowledge/search'') [(lit ''Authorization'', bearer)] knowledge_body),
     (POST, base @ lit ''/api/mcp'', Some (mcp_body ''initialize'' initialize_params 1)),
     (POST, base @ lit ''/api/mcp'', Some (mcp_body ''tools/list'' (JObj []) 2)),
     (POST, base @ lit ''/api/mcp'', Some (mcp_body ''tools/call'' catalog_params 3)),
     (POST, base @ lit ''/api/mcp'', Some (mcp_body ''resources/read'' capabilities_params 4))]"
    unfolding smoke_signed_in_def Let_def by (rule sends_steps)+
  then show ?thesis by (simp add: call_text_def post_call_def planned_calls_def)
qed

lemma smoke_checks_sends: "sends (smoke_checks (recording C) base web config) (planned_calls base web config)"
proof -
  have "sends (smoke_checks (recording C) base web config)
    (call_text (get_call (base @ lit ''/health'')) # call_text (get_call (web @ lit ''/health''))
     # call_text (post_call (base @ lit ''/api/graph/search'') [] (JObj []))
     # call_text (post_call (base @ lit ''/api/auth/login'') [] (login_body config))
     # drop 4 (planned_calls base web config))"
    unfolding smoke_checks_def by (rule sends_steps signed_in_sends)+
  then show ?thesis by (simp add: call_text_def post_call_def get_call_def planned_calls_def)
qed

text \<open>
  The smoke test reads: whatever the stack answers, what it sends is a prefix of one fixed list of
  ten requests, in that order, all of it when a report is returned. The bootstrap credentials are
  in the body of the login request only, the token of the answer in no body and no URL.
\<close>

theorem smoke_sends_the_plan:
  assumes "smoke (recording C) base web config (c, []) = (x, c', calls)"
  shows "prefix (map call_text calls) (planned_calls base web config)
    \<and> (\<not> isl x \<longrightarrow> map call_text calls = planned_calls base web config)"
proof -
  obtain y s' where run: "smoke_checks (recording C) base web config ((c, []), []) = (y, s')"
    by (cases "smoke_checks (recording C) base web config ((c, []), [])")
  with assms have "snd (fst s') = calls" "isl y \<longleftrightarrow> isl x"
    by (auto simp: smoke_def split: prod.splits sum.splits)
  with smoke_checks_sends [of C base web config] run show ?thesis
    unfolding sends_def by fastforce
qed

end
