(* ===== verification/Retrieval_Evaluation.thy ===== *)
theory Retrieval_Evaluation
  imports Metric_Retrieval
begin

text \<open>
  The two retrieval evaluations: gold cases and mode reports (\<open>retrieval/evaluation.py\<close>) and the
  four-way benchmark with latencies, usage and failures (\<open>retrieval/benchmark.py\<close>). Reading a case
  from a line of JSON is the argument \<open>read\<close>; the clocks are arguments.
\<close>

section \<open>Cases\<close>

record gold_case =
  gc_id :: pystr
  gc_question :: pystr
  gc_relevant :: "pystr list"
  gc_answerable :: bool

definition mk_gold_case :: "gold_case \<Rightarrow> exn + gold_case" where
  "mk_gold_case c =
     (if 1 \<le> length (gc_id c) \<and> length (gc_id c) \<le> 80
         \<and> 1 \<le> length (gc_question c) \<and> length (gc_question c) \<le> 4000
      then Inr c else Inl (validation_error ''RAGGoldCase''))"

definition load_cases :: "(pystr \<Rightarrow> exn + gold_case) \<Rightarrow> pystr \<Rightarrow> exn + gold_case list" where
  "load_cases read txt = res_map (\<lambda>line. res_bind (read line) mk_gold_case)
     (filter (\<lambda>line. strip line \<noteq> []) (splitlines txt))"

section \<open>Ratios\<close>

text \<open>\<open>round(x, 4)\<close>: to the nearest, ties to even.\<close>

definition round_half_even :: "real \<Rightarrow> int" where
  "round_half_even y =
     (let f = \<lfloor>y\<rfloor>; d = y - of_int f in
      if d < 1 / 2 \<or> d = 1 / 2 \<and> even f then f else f + 1)"

definition round4 :: "real \<Rightarrow> real" where
  "round4 x = of_int (round_half_even (x * 10000)) / 10000"

definition ratio :: "real \<Rightarrow> nat \<Rightarrow> real" where
  "ratio a n = (if n \<noteq> 0 then round4 (a / real n) else 1)"

section \<open>One mode\<close>

record case_counts =
  cc_recalled :: nat
  cc_reciprocal :: real
  cc_citation_hits :: nat
  cc_refusals :: nat

record mode_report =
  mr_mode :: retrieval_mode
  mr_total :: nat
  mr_answerable :: nat
  mr_refusal :: nat
  mr_recall :: real
  mr_mrr :: real
  mr_citation_hit_rate :: real
  mr_refusal_accuracy :: real

text \<open>\<open>next((rank for rank, section in enumerate(returned, start=1) if section in relevant), None)\<close>\<close>

definition first_rank :: "pystr list \<Rightarrow> pystr list \<Rightarrow> nat option" where
  "first_rank relevant returned =
     map_option fst (List.find (\<lambda>(i, s). s \<in> set relevant) (enumerate 1 returned))"

definition count_case :: "gold_case \<Rightarrow> retrieval_result \<Rightarrow> case_counts \<Rightarrow> case_counts" where
  "count_case g r k =
     (if gc_answerable g
      then (case first_rank (gc_relevant g) (map ci_key (rr_citations r)) of
          None \<Rightarrow> k
        | Some i \<Rightarrow> k\<lparr>cc_recalled := cc_recalled k + 1, cc_citation_hits := cc_citation_hits k + 1,
            cc_reciprocal := cc_reciprocal k + 1 / real i\<rparr>)
      else if \<not> rr_should_answer r then k\<lparr>cc_refusals := cc_refusals k + 1\<rparr> else k)"

fun count_cases ::
  "('s, 'h) retrieval_service \<Rightarrow> uuid \<Rightarrow> retrieval_mode \<Rightarrow> (gold_case \<times> real \<times> real) list \<Rightarrow> case_counts
     \<Rightarrow> ('s, 'h) retrieval_state \<Rightarrow> (exn + case_counts) \<times> ('s, 'h) retrieval_state" where
  "count_cases S t mode [] k st = (Inr k, st)"
| "count_cases S t mode ((g, clock) # gs) k st =
     (case retrieve S clock t (gc_question g) mode (Some 5) st of
        (Inl e, st') \<Rightarrow> (Inl e, st')
      | (Inr r, st') \<Rightarrow> count_cases S t mode gs (count_case g r k) st')"

definition no_counts :: case_counts where
  "no_counts = \<lparr>cc_recalled = 0, cc_reciprocal = 0, cc_citation_hits = 0, cc_refusals = 0\<rparr>"

definition report_of :: "retrieval_mode \<Rightarrow> gold_case list \<Rightarrow> case_counts \<Rightarrow> mode_report" where
  "report_of mode gs k =
     (let a = count_if gc_answerable gs; n = count_if (\<lambda>g. \<not> gc_answerable g) gs in
      \<lparr>mr_mode = mode, mr_total = length gs, mr_answerable = a, mr_refusal = n,
       mr_recall = ratio (real (cc_recalled k)) a, mr_mrr = ratio (cc_reciprocal k) a,
       mr_citation_hit_rate = ratio (real (cc_citation_hits k)) a,
       mr_refusal_accuracy = ratio (real (cc_refusals k)) n\<rparr>)"

definition evaluate_mode ::
  "('s, 'h) retrieval_service \<Rightarrow> uuid \<Rightarrow> (gold_case \<times> real \<times> real) list \<Rightarrow> retrieval_mode
     \<Rightarrow> ('s, 'h) retrieval_state \<Rightarrow> (exn + mode_report) \<times> ('s, 'h) retrieval_state" where
  "evaluate_mode S t gs mode st =
     (case count_cases S t mode gs no_counts st of
        (Inl e, st') \<Rightarrow> (Inl e, st')
      | (Inr k, st') \<Rightarrow> (Inr (report_of mode (map fst gs) k), st'))"

fun evaluate_modes ::
  "('s, 'h) retrieval_service \<Rightarrow> uuid \<Rightarrow> (gold_case \<times> real \<times> real) list \<Rightarrow> retrieval_mode list
     \<Rightarrow> ('s, 'h) retrieval_state \<Rightarrow> (exn + mode_report list) \<times> ('s, 'h) retrieval_state" where
  "evaluate_modes S t gs [] st = (Inr [], st)"
| "evaluate_modes S t gs (m # ms) st =
     (case evaluate_mode S t gs m st of
        (Inl e, st') \<Rightarrow> (Inl e, st')
      | (Inr r, st') \<Rightarrow>
          (case evaluate_modes S t gs ms st' of
             (Inl e, st'') \<Rightarrow> (Inl e, st'')
           | (Inr rs, st'') \<Rightarrow> (Inr (r # rs), st'')))"

section \<open>The benchmark\<close>

datatype benchmark_failure =
    Missed pystr "pystr list" | False_Refusal pystr "pystr list" | Unsupported_Answered pystr

record benchmark_counts =
  bc_recalls :: "real list"
  bc_ranks :: "real list"
  bc_refusals :: nat
  bc_failures :: "benchmark_failure list"

definition benchmark_case :: "gold_case \<Rightarrow> retrieval_result \<Rightarrow> benchmark_counts \<Rightarrow> benchmark_counts" where
  "benchmark_case g r k =
     (let returned = fromkeys (map ci_key (rr_citations r)); relevant = set (gc_relevant g);
          rank = first_rank (gc_relevant g) returned in
      if gc_answerable g
      then k\<lparr>bc_recalls := bc_recalls k @ [if relevant = {} then 0
               else real (card (relevant \<inter> set returned)) / real (card relevant)],
             bc_ranks := bc_ranks k @ [case rank of None \<Rightarrow> 0 | Some i \<Rightarrow> 1 / real i],
             bc_failures := bc_failures k @
               (case rank of None \<Rightarrow> [Missed (gc_id g) returned]
                | Some i \<Rightarrow> if rr_should_answer r then [] else [False_Refusal (gc_id g) returned])\<rparr>
      else if \<not> rr_should_answer r then k\<lparr>bc_refusals := bc_refusals k + 1\<rparr>
      else k\<lparr>bc_failures := bc_failures k @ [Unsupported_Answered (gc_id g)]\<rparr>)"

fun benchmark_cases ::
  "('s, 'h) retrieval_service \<Rightarrow> uuid \<Rightarrow> retrieval_mode \<Rightarrow> (gold_case \<times> real \<times> real) list \<Rightarrow> benchmark_counts
     \<Rightarrow> ('s, 'h) retrieval_state \<Rightarrow> (exn + benchmark_counts) \<times> ('s, 'h) retrieval_state" where
  "benchmark_cases S t mode [] k st = (Inr k, st)"
| "benchmark_cases S t mode ((g, clock) # gs) k st =
     (case retrieve S clock t (gc_question g) mode (Some 5) st of
        (Inl e, st') \<Rightarrow> (Inl e, st')
      | (Inr r, st') \<Rightarrow> benchmark_cases S t mode gs (benchmark_case g r k) st')"

definition mean :: "real list \<Rightarrow> real" where
  "mean xs = (if xs = [] then 0 else sum_list xs / real (length xs))"

text \<open>\<open>sorted(xs)[max(0, ceil(len(xs) * 0.95) - 1)]\<close>, or 0 without measurements.\<close>

definition p95 :: "real list \<Rightarrow> real" where
  "p95 xs = (if xs = [] then 0 else sort xs ! nat (max 0 (\<lceil>real (length xs) * (95 / 100)\<rceil> - 1)))"

text \<open>\<open>usage_snapshot\<close>: tokens only where the provider counts them and all answers named them.\<close>

record usage =
  us_tokens :: "int option"
  us_requests :: nat
  us_reranker :: nat

definition usage_snapshot :: "retrieval_settings \<Rightarrow> provider_state \<Rightarrow> usage" where
  "usage_snapshot c h =
     \<lparr>us_tokens = (if se_embedding c = Http_Embedding \<and> ps_usage_known h
        then Some (ps_input_tokens h) else None),
      us_requests = (if se_embedding c = Http_Embedding then ps_requests h else 0),
      us_reranker = (if se_reranker c = Http_Reranker then ps_rerank_requests h else 0)\<rparr>"

definition estimated_cost :: "real option \<Rightarrow> real option \<Rightarrow> int option \<Rightarrow> int \<Rightarrow> real option" where
  "estimated_cost per_million per_thousand tokens reranks =
     (case (tokens, per_million) of
        (Some n, Some p) \<Rightarrow>
          if reranks = 0 \<or> per_thousand \<noteq> None
          then Some (of_int n * p / 1000000
            + of_int reranks * (case per_thousand of None \<Rightarrow> 0 | Some x \<Rightarrow> x) / 1000)
          else None
      | _ \<Rightarrow> None)"

record benchmark_report =
  br_mode :: retrieval_mode
  br_tokens :: "int option"
  br_requests :: int
  br_reranker :: int
  br_cost :: "real option"
  br_cases :: nat
  br_recall :: real
  br_mrr :: real
  br_refusal_accuracy :: "real option"
  br_mean_latency :: real
  br_p95_latency :: real
  br_failures :: "benchmark_failure list"

definition benchmark_mode ::
  "('s, provider_state) retrieval_service \<Rightarrow> retrieval_settings \<Rightarrow> real option \<Rightarrow> real option \<Rightarrow> uuid
     \<Rightarrow> (gold_case \<times> real \<times> real) list \<Rightarrow> real list \<Rightarrow> retrieval_mode
     \<Rightarrow> ('s, provider_state) retrieval_state
     \<Rightarrow> (exn + benchmark_report) \<times> ('s, provider_state) retrieval_state" where
  "benchmark_mode S c per_million per_thousand t gs latencies mode st =
     (case benchmark_cases S t mode gs \<lparr>bc_recalls = [], bc_ranks = [], bc_refusals = 0, bc_failures = []\<rparr> st of
        (Inl e, st') \<Rightarrow> (Inl e, st')
      | (Inr k, st') \<Rightarrow>
          (let before = usage_snapshot c (rt_provider st); after = usage_snapshot c (rt_provider st');
               tokens = (case (us_tokens after, us_tokens before) of
                   (Some a, Some b) \<Rightarrow> Some (a - b) | _ \<Rightarrow> None);
               reranks = int (us_reranker after) - int (us_reranker before);
               refusals = count_if (\<lambda>g. \<not> gc_answerable g) (map fst gs) in
           (Inr \<lparr>br_mode = mode, br_tokens = tokens,
              br_requests = int (us_requests after) - int (us_requests before), br_reranker = reranks,
              br_cost = estimated_cost per_million per_thousand tokens reranks, br_cases = length gs,
              br_recall = mean (bc_recalls k), br_mrr = mean (bc_ranks k),
              br_refusal_accuracy = (if refusals = 0 then None
                else Some (real (bc_refusals k) / real refusals)),
              br_mean_latency = mean latencies, br_p95_latency = p95 latencies,
              br_failures = bc_failures k\<rparr>, st')))"

section \<open>Lemmas\<close>

lemma round_half_even_mono:
  assumes "x \<le> y"
  shows "round_half_even x \<le> round_half_even y"
proof -
  have f: "\<lfloor>x\<rfloor> \<le> \<lfloor>y\<rfloor>" using assms by (rule floor_mono)
  show ?thesis
  proof (cases "\<lfloor>x\<rfloor> = \<lfloor>y\<rfloor>")
    case True
    with assms show ?thesis by (auto simp: round_half_even_def Let_def)
  next
    case False
    with f show ?thesis by (auto simp: round_half_even_def Let_def)
  qed
qed

lemma round_half_even_int [simp]: "round_half_even (of_int k) = k"
  by (simp add: round_half_even_def)

lemma round4_mono: "x \<le> y \<Longrightarrow> round4 x \<le> round4 y"
  unfolding round4_def by (intro divide_right_mono) (auto intro: round_half_even_mono)

lemma round4_01: "round4 0 = 0" "round4 1 = 1"
  using round_half_even_int [of 0] round_half_even_int [of 10000] by (simp_all add: round4_def)

lemma ratio_mono: "a \<le> b \<Longrightarrow> ratio a n \<le> ratio b n"
  by (auto simp: ratio_def intro!: round4_mono divide_right_mono)

lemma ratio_bounds: "0 \<le> a \<Longrightarrow> a \<le> real n \<Longrightarrow> 0 \<le> ratio a n \<and> ratio a n \<le> 1"
proof (cases "n = 0")
  case False
  assume "0 \<le> a" "a \<le> real n"
  with False have "0 \<le> a / real n" "a / real n \<le> 1" by simp_all
  with False round4_mono [of 0 "a / real n"] round4_mono [of "a / real n" 1] show ?thesis
    by (simp add: ratio_def round4_01)
qed (simp add: ratio_def)

lemma first_rank_pos: "first_rank relevant returned = Some i \<Longrightarrow> 1 \<le> i \<and> i \<le> length returned"
  by (auto simp: first_rank_def find_Some_iff in_set_enumerate_eq nth_enumerate_eq)

text \<open>What the counters of a run are bounded by.\<close>

definition counts_ok :: "nat \<Rightarrow> nat \<Rightarrow> case_counts \<Rightarrow> bool" where
  "counts_ok a n k \<longleftrightarrow> cc_recalled k \<le> a \<and> cc_refusals k \<le> n \<and> cc_citation_hits k = cc_recalled k
     \<and> 0 \<le> cc_reciprocal k \<and> cc_reciprocal k \<le> real (cc_recalled k)"

lemma count_case_ok:
  assumes "counts_ok a n k"
  shows "counts_ok (a + (if gc_answerable g then 1 else 0)) (n + (if gc_answerable g then 0 else 1))
    (count_case g r k)"
proof (cases "first_rank (gc_relevant g) (map ci_key (rr_citations r))")
  case None
  with assms show ?thesis by (auto simp: counts_ok_def count_case_def)
next
  case (Some i)
  from first_rank_pos [OF Some] have "0 \<le> 1 / real i" "1 / real i \<le> 1" by auto
  with assms Some show ?thesis by (auto simp: counts_ok_def count_case_def)
qed

lemma count_cases_ok:
  "count_cases S t mode gs k st = (Inr k', st') \<Longrightarrow> counts_ok a n k
     \<Longrightarrow> counts_ok (a + count_if gc_answerable (map fst gs))
           (n + count_if (\<lambda>g. \<not> gc_answerable g) (map fst gs)) k'"
proof (induction S t mode gs k st arbitrary: a n rule: count_cases.induct)
  case (1 S t mode k st)
  then show ?case by (simp add: count_if_def)
next
  case (2 S t mode g clock gs k st)
  then obtain r st1 where r: "retrieve S clock t (gc_question g) mode (Some 5) st = (Inr r, st1)"
    "count_cases S t mode gs (count_case g r k) st1 = (Inr k', st')"
    by (auto split: prod.splits sum.splits)
  from 2(1) [OF r(1) [symmetric] refl r(2) count_case_ok [OF 2(3), of g r]]
  show ?case by (auto simp: count_if_def)
qed

section \<open>Property\<close>

text \<open>
  The report of a mode is sound: its cases are the answerable and the refusal cases, all four
  measures are between 0 and 1, the mean reciprocal rank is at most the recall, and the citation
  hit rate is the recall.
\<close>

theorem evaluation_measures_are_bounded:
  assumes "evaluate_mode S t gs mode st = (Inr r, st')"
  shows "mr_total r = length gs \<and> mr_answerable r + mr_refusal r = mr_total r
    \<and> 0 \<le> mr_mrr r \<and> mr_mrr r \<le> mr_recall r \<and> mr_recall r \<le> 1
    \<and> mr_citation_hit_rate r = mr_recall r
    \<and> 0 \<le> mr_refusal_accuracy r \<and> mr_refusal_accuracy r \<le> 1"
proof -
  from assms obtain k where k: "count_cases S t mode gs no_counts st = (Inr k, st')"
    and r: "r = report_of mode (map fst gs) k"
    by (auto simp: evaluate_mode_def split: prod.splits sum.splits)
  have "counts_ok 0 0 no_counts" by (simp add: counts_ok_def no_counts_def)
  from count_cases_ok [OF k this]
  have ok: "counts_ok (count_if gc_answerable (map fst gs)) (count_if (\<lambda>g. \<not> gc_answerable g) (map fst gs)) k"
    by simp
  have split: "count_if gc_answerable xs + count_if (\<lambda>g. \<not> gc_answerable g) xs = length xs" for xs
    unfolding count_if_def by (rule sum_length_filter_compl)
  define a where "a = count_if gc_answerable (map fst gs)"
  define n where "n = count_if (\<lambda>g. \<not> gc_answerable g) (map fst gs)"
  have b: "real (cc_recalled k) \<le> real a" "real (cc_refusals k) \<le> real n"
    "cc_citation_hits k = cc_recalled k" "0 \<le> cc_reciprocal k" "cc_reciprocal k \<le> real (cc_recalled k)"
    using ok by (simp_all add: counts_ok_def a_def n_def)
  have "a + n = length gs" using split [of "map fst gs"] by (simp add: a_def n_def)
  moreover have "0 \<le> ratio (cc_reciprocal k) a"
    using ratio_bounds [OF b(4)] b(1,5) by (meson order_trans)
  moreover have "ratio (cc_reciprocal k) a \<le> ratio (real (cc_recalled k)) a" by (rule ratio_mono [OF b(5)])
  moreover have "ratio (real (cc_recalled k)) a \<le> 1" using ratio_bounds [OF _ b(1)] by simp
  moreover have "0 \<le> ratio (real (cc_refusals k)) n \<and> ratio (real (cc_refusals k)) n \<le> 1"
    by (rule ratio_bounds [OF _ b(2)]) simp
  ultimately show ?thesis
    unfolding r report_of_def Let_def a_def [symmetric] n_def [symmetric]
    by (simp add: b(3))
qed

section \<open>Witness\<close>

definition refusal_case :: gold_case where
  "refusal_case = \<lparr>gc_id = lit ''r1'', gc_question = lit ''weather'', gc_relevant = [], gc_answerable = False\<rparr>"

theorem evaluation_measures_are_bounded_witness:
  "\<exists>r st'. evaluate_mode sample_retrieval 7 [(refusal_case, 0, 0)] Lexical_Mode
       (new_service sample_settings empty_store fresh_provider) = (Inr r, st')
     \<and> mr_total r = 1 \<and> mr_refusal_accuracy r \<le> 1"
proof -
  let ?st = "new_service sample_settings empty_store fresh_provider"
  have sq: "squash (lit ''weather'') = lit ''weather''" by code_simp
  have "\<exists>x st'. retrieve sample_retrieval (0, 0) 7 (lit ''weather'') Lexical_Mode (Some 5) ?st = (Inr x, st')"
    by (simp add: retrieve_def checked_query_def sq create_retrieval_def sample_env_def memory_repo_def
        memory_revision_def new_service_def cache_get_def ranked_answer_def lexical_part_def
        memory_lexical_def tenant_chunks_def empty_store_def vector_part_def rank_hits_def
        rank_order_def List.map_filter_def rerank_part_def mk_result_def by_rank_def upto_slice_def)
  then obtain x st' where "retrieve sample_retrieval (0, 0) 7 (lit ''weather'') Lexical_Mode (Some 5) ?st = (Inr x, st')"
    by blast
  then obtain r where run: "evaluate_mode sample_retrieval 7 [(refusal_case, 0, 0)] Lexical_Mode ?st = (Inr r, st')"
    by (simp add: evaluate_mode_def refusal_case_def)
  from evaluation_measures_are_bounded [OF run] run show ?thesis by auto
qed

end
