(* ===== verification/Evaluation.thy ===== *)
theory Evaluation
  imports NL2SQL Retrieval_Evaluation
begin

text \<open>
  The end-to-end evaluation: its models and datasets (\<open>evaluation/models.py\<close>,
  \<open>evaluation/datasets.py\<close>) and its runner (\<open>evaluation/runner.py\<close>): every gold case through the
  NL2SQL service and through a second safe query service, every dangerous question through the
  question guard, and the measures over the case results. Clocks, fresh identifiers and the
  reading of a JSON line are arguments.
\<close>

section \<open>Models\<close>

datatype failure_category = Dataset_Failure | Model_Failure | Schema_Selection_Failure | Safety_Failure
  | Execution_Failure | Result_Mismatch | Unknown_Failure

fun failure_category_text :: "failure_category \<Rightarrow> pystr" where
  "failure_category_text Dataset_Failure = lit ''dataset''"
| "failure_category_text Model_Failure = lit ''model''"
| "failure_category_text Schema_Selection_Failure = lit ''schema_selection''"
| "failure_category_text Safety_Failure = lit ''safety''"
| "failure_category_text Execution_Failure = lit ''execution''"
| "failure_category_text Result_Mismatch = lit ''result_mismatch''"
| "failure_category_text Unknown_Failure = lit ''unknown''"

datatype case_kind = NL2SQL_Case | Dangerous_Case

record nl2sql_gold_case =
  ng_id :: pystr
  ng_question :: pystr
  ng_sql :: pystr
  ng_columns :: "pystr list"
  ng_tags :: "pystr list"

text \<open>\<open>^nw[0-9]{3}$\<close> and \<open>^dq[0-9]{3}$\<close> in pydantic's engine, where the dollar is the end of the text.\<close>

definition case_id_ok :: "string \<Rightarrow> pystr \<Rightarrow> bool" where
  "case_id_ok pre s \<longleftrightarrow> length s = 5 \<and> take 2 s = lit pre \<and> list_all ascii_digit (drop 2 s)"

definition read_only_start :: "unidata \<Rightarrow> pystr \<Rightarrow> bool" where
  "read_only_start U sql = (let s = u_upper U (lstrip sql) in
     starts_with (lit ''SELECT'') s \<or> starts_with (lit ''WITH'') s)"

definition mk_gold_sql_case :: "unidata \<Rightarrow> nl2sql_gold_case \<Rightarrow> exn + nl2sql_gold_case" where
  "mk_gold_sql_case U c =
     (if case_id_ok ''nw'' (ng_id c) \<and> 1 \<le> length (ng_question c) \<and> length (ng_question c) \<le> 4000
         \<and> 1 \<le> length (ng_sql c) \<and> length (ng_sql c) \<le> 50000
         \<and> 1 \<le> length (ng_columns c) \<and> length (ng_columns c) \<le> 50
         \<and> 1 \<le> length (ng_tags c) \<and> length (ng_tags c) \<le> 20
         \<and> read_only_start U (ng_sql c) \<and> \<not> has_duplicates (ng_columns c) \<and> \<not> has_duplicates (ng_tags c)
      then Inr c else Inl (validation_error ''NL2SQLGoldCase''))"

record dangerous_case =
  dq_id :: pystr
  dq_question :: pystr
  dq_reason :: pystr
  dq_tags :: "pystr list"

definition ascii_upper_letter :: "nat \<Rightarrow> bool" where
  "ascii_upper_letter c \<longleftrightarrow> 65 \<le> c \<and> c \<le> 90"

text \<open>\<open>^[A-Z][A-Z0-9_]+$\<close>\<close>

definition reason_code_ok :: "pystr \<Rightarrow> bool" where
  "reason_code_ok s \<longleftrightarrow> 2 \<le> length s \<and> ascii_upper_letter (hd s)
     \<and> list_all (\<lambda>c. ascii_upper_letter c \<or> ascii_digit c \<or> c = 95) (tl s)"

definition mk_dangerous_case :: "dangerous_case \<Rightarrow> exn + dangerous_case" where
  "mk_dangerous_case c =
     (if case_id_ok ''dq'' (dq_id c) \<and> 1 \<le> length (dq_question c) \<and> length (dq_question c) \<le> 4000
         \<and> reason_code_ok (dq_reason c) \<and> 1 \<le> length (dq_tags c) \<and> length (dq_tags c) \<le> 20
      then Inr c else Inl (validation_error ''DangerousQuestionCase''))"

record case_result =
  ec_case_id :: pystr
  ec_kind :: case_kind
  ec_passed :: bool
  ec_correct :: "bool option"
  ec_safe :: "bool option"
  ec_blocked :: "bool option"
  ec_first_pass :: "bool option"
  ec_repairs :: "int option"
  ec_latency :: int
  ec_input_tokens :: "int option"
  ec_output_tokens :: "int option"
  ec_total_tokens :: "int option"
  ec_cost :: "real option"
  ec_category :: "failure_category option"
  ec_code :: "pystr option"

definition at_least_zero :: "'a::{zero, ord} option \<Rightarrow> bool" where
  "at_least_zero x = (case x of None \<Rightarrow> True | Some v \<Rightarrow> 0 \<le> v)"

definition mk_case_result :: "case_result \<Rightarrow> exn + case_result" where
  "mk_case_result c =
     (if (case ec_repairs c of None \<Rightarrow> True | Some n \<Rightarrow> 0 \<le> n \<and> n \<le> 2) \<and> 0 \<le> ec_latency c
         \<and> at_least_zero (ec_input_tokens c) \<and> at_least_zero (ec_output_tokens c)
         \<and> at_least_zero (ec_total_tokens c) \<and> at_least_zero (ec_cost c)
      then Inr c else Inl (validation_error ''EvaluationCaseResult''))"

section \<open>Datasets\<close>

text \<open>\<open>_load_jsonl\<close>: \<open>read\<close> validates one line; a blank line is skipped.\<close>

fun read_lines :: "(pystr \<Rightarrow> 'c option) \<Rightarrow> pystr \<Rightarrow> nat \<Rightarrow> pystr list \<Rightarrow> exn + 'c list" where
  "read_lines read path n [] = Inr []"
| "read_lines read path n (l # ls) =
     (if strip l = [] then read_lines read path (Suc n) ls
      else (case read l of
          None \<Rightarrow> Inl (Py (ValueError (lit ''invalid evaluation case at '' @ path @ lit '':'' @ str_nat n)))
        | Some c \<Rightarrow> res_bind (read_lines read path (Suc n) ls) (\<lambda>cs. Inr (c # cs))))"

text \<open>The text of the file, where there is one.\<close>

definition load_dataset ::
  "(pystr \<Rightarrow> 'c option) \<Rightarrow> ('c \<Rightarrow> pystr) \<Rightarrow> pystr \<Rightarrow> pystr option \<Rightarrow> exn + 'c list" where
  "load_dataset read ident path text = (case text of
     None \<Rightarrow> Inl (Py (ValueError (lit ''evaluation dataset does not exist: '' @ path)))
   | Some t \<Rightarrow>
       (case read_lines read path 1 (splitlines t) of
          Inl e \<Rightarrow> Inl e
        | Inr cs \<Rightarrow>
            if cs = [] then Inl (Py (ValueError (lit ''evaluation dataset is empty: '' @ path)))
            else if has_duplicates (map ident cs)
            then Inl (Py (ValueError (lit ''evaluation case ids must be unique: '' @ path)))
            else Inr cs))"

section \<open>Failures\<close>

definition error_code :: "exn \<Rightarrow> pystr" where
  "error_code e = the (text_or (text_or (reason_code_attr e) (exn_code e)) (Some (exn_name_upper e)))"

fun classify_failure :: "exn \<Rightarrow> failure_category \<times> pystr" where
  "classify_failure (LLM e) = (Model_Failure, llm_code e)"
| "classify_failure (NL2SQL SchemaSelectionError) = (Schema_Selection_Failure, nl2sql_code SchemaSelectionError)"
| "classify_failure (NL2SQL (NL2SQLRepairExhaustedError last_code)) =
     (Execution_Failure, nl2sql_code (NL2SQLRepairExhaustedError last_code) @ lit '':'' @ last_code)"
| "classify_failure (NL2SQL (NL2SQLPolicyError reason)) = (Safety_Failure, reason)"
| "classify_failure (QuerySafety QueryExecutionError) = (Execution_Failure, query_safety_code QueryExecutionError)"
| "classify_failure (QuerySafety e) = (Safety_Failure, error_code (QuerySafety e))"
| "classify_failure e = (Unknown_Failure, exn_name_upper e)"

text \<open>\<open>max(0, (now - started) // 1_000_000)\<close>\<close>

definition elapsed_ms :: "int \<times> int \<Rightarrow> int" where
  "elapsed_ms clock = max 0 ((snd clock - fst clock) div 1000000)"

definition failed_case :: "pystr \<Rightarrow> int \<times> int \<Rightarrow> failure_category \<Rightarrow> pystr \<Rightarrow> case_result" where
  "failed_case i clock category code = \<lparr>ec_case_id = i, ec_kind = NL2SQL_Case, ec_passed = False,
     ec_correct = Some False, ec_safe = Some False, ec_blocked = None, ec_first_pass = Some False,
     ec_repairs = None, ec_latency = elapsed_ms clock, ec_input_tokens = None, ec_output_tokens = None,
     ec_total_tokens = None, ec_cost = None, ec_category = Some category, ec_code = Some code\<rparr>"

section \<open>Prices\<close>

definition validate_pricing :: "real option \<Rightarrow> real option \<Rightarrow> exn + unit" where
  "validate_pricing input_price output_price =
     (if (input_price = None) \<noteq> (output_price = None)
      then Inl (Py (ValueError (lit ''input and output prices must be supplied together'')))
      else (case (input_price, output_price) of
          (Some a, Some b) \<Rightarrow>
            if a < 0 \<or> b < 0 then Inl (Py (ValueError (lit ''model prices cannot be negative''))) else Inr ()
        | _ \<Rightarrow> Inr ()))"

text \<open>\<open>round(x, places)\<close>\<close>

definition round_places :: "nat \<Rightarrow> real \<Rightarrow> real" where
  "round_places k x = of_int (round_half_even (x * 10 ^ k)) / 10 ^ k"

definition model_cost :: "int option \<Rightarrow> int option \<Rightarrow> real option \<Rightarrow> real option \<Rightarrow> real option" where
  "model_cost input_tokens output_tokens input_price output_price =
     (case (input_tokens, output_tokens, input_price, output_price) of
        (Some i, Some k, Some a, Some b) \<Rightarrow>
          Some (round_places 8 (of_int i * a / 1000000 + of_int k * b / 1000000))
      | _ \<Rightarrow> None)"

section \<open>Cases\<close>

definition eval_trace_id :: "pystr \<Rightarrow> pystr" where
  "eval_trace_id i = take 64 (lit ''p10_'' @ filter (\<lambda>c. c \<noteq> 95) i @ lit ''_1234567890abcdef'')"

definition eval_context :: "uuid list \<Rightarrow> pystr \<Rightarrow> exn + query_context" where
  "eval_context fresh i = mk_context \<lparr>ctx_tenant_id = fresh ! 0, ctx_user_id = fresh ! 1,
     ctx_job_id = fresh ! 2, ctx_data_source_id = fresh ! 3, ctx_trace_id = eval_trace_id i\<rparr>"

text \<open>What one case reads from outside: the clock, fresh identifiers, the stamps of its queries.\<close>

record case_inputs =
  ci_clock :: "int \<times> int"
  ci_gold_ids :: "uuid list"
  ci_ids :: "uuid list"
  ci_stamp :: stamp
  ci_stamps :: "nat \<Rightarrow> stamp"

record ('p, 's, 't) eval_world =
  ew_llm :: 'p
  ew_candidate :: "'s safe_query_state"
  ew_expected :: "'t safe_query_state"

definition answered_case ::
  "nl2sql_gold_case \<Rightarrow> int \<times> int \<Rightarrow> real option \<times> real option \<Rightarrow> safe_query_outcome \<Rightarrow> nl2sql_result \<Rightarrow> case_result" where
  "answered_case c clock prices expected candidate =
     (let correct = execution_results_match (outcome_result (nr_outcome candidate)) (outcome_result expected);
          u = nr_usage candidate in
      \<lparr>ec_case_id = ng_id c, ec_kind = NL2SQL_Case, ec_passed = correct, ec_correct = Some correct,
       ec_safe = Some True, ec_blocked = None, ec_first_pass = Some (correct \<and> nr_repairs candidate = 0),
       ec_repairs = Some (nr_repairs candidate), ec_latency = elapsed_ms clock,
       ec_input_tokens = us_input u, ec_output_tokens = us_output u, ec_total_tokens = us_total u,
       ec_cost = model_cost (us_input u) (us_output u) (fst prices) (snd prices),
       ec_category = (if correct then None else Some Result_Mismatch),
       ec_code = (if correct then None else Some (lit ''EXECUTION_RESULT_MISMATCH''))\<rparr>)"

definition gold_outcome ::
  "'t safe_query_service \<Rightarrow> data_source_config \<Rightarrow> query_policy \<Rightarrow> case_inputs \<Rightarrow> nl2sql_gold_case
     \<Rightarrow> 't safe_query_state \<Rightarrow> (exn + safe_query_outcome) \<times> 't safe_query_state" where
  "gold_outcome X config policy inp c xs = (case eval_context (ci_gold_ids inp) (lit ''gold_'' @ ng_id c) of
     Inl e \<Rightarrow> (Inl e, xs)
   | Inr ctx \<Rightarrow> execute_fixed X (ci_stamp inp) (ng_sql c) ctx config policy xs)"

definition candidate_outcome ::
  "('p, 's) nl2sql_service \<Rightarrow> schema_snapshot \<Rightarrow> data_source_config \<Rightarrow> query_policy \<Rightarrow> case_inputs
     \<Rightarrow> nl2sql_gold_case \<Rightarrow> 'p \<Rightarrow> 's safe_query_state \<Rightarrow> (exn + nl2sql_result) \<times> 'p \<times> 's safe_query_state" where
  "candidate_outcome E snap config policy inp c p cs = (case eval_context (ci_ids inp) (ng_id c) of
     Inl e \<Rightarrow> (Inl e, p, cs)
   | Inr ctx \<Rightarrow> answer (E\<lparr>ns_stamps := ci_stamps inp\<rparr>) \<lparr>ca_question = ng_question c, ca_snapshot = snap,
       ca_source = config, ca_context = ctx, ca_policy = policy\<rparr> p cs)"

definition evaluate_nl2sql_case ::
  "('p, 's) nl2sql_service \<Rightarrow> 't safe_query_service \<Rightarrow> schema_snapshot \<Rightarrow> data_source_config \<Rightarrow> query_policy
     \<Rightarrow> real option \<times> real option \<Rightarrow> case_inputs \<Rightarrow> nl2sql_gold_case \<Rightarrow> ('p, 's, 't) eval_world
     \<Rightarrow> (exn + case_result) \<times> ('p, 's, 't) eval_world" where
  "evaluate_nl2sql_case E X snap config policy prices inp c w =
     (case gold_outcome X config policy inp c (ew_expected w) of
        (Inl e, xs) \<Rightarrow>
          (mk_case_result (failed_case (ng_id c) (ci_clock inp) Dataset_Failure (error_code e)), w\<lparr>ew_expected := xs\<rparr>)
      | (Inr expected, xs) \<Rightarrow>
          (case candidate_outcome E snap config policy inp c (ew_llm w) (ew_candidate w) of
             (Inl e, p, cs) \<Rightarrow>
               (mk_case_result (failed_case (ng_id c) (ci_clock inp) (fst (classify_failure e)) (snd (classify_failure e))),
                \<lparr>ew_llm = p, ew_candidate = cs, ew_expected = xs\<rparr>)
           | (Inr candidate, p, cs) \<Rightarrow>
               (mk_case_result (answered_case c (ci_clock inp) prices expected candidate),
                \<lparr>ew_llm = p, ew_candidate = cs, ew_expected = xs\<rparr>)))"

text \<open>Any other exception of the question guard would leave the evaluation; it raises none.\<close>

definition dangerous_result :: "pystr \<Rightarrow> int \<times> int \<Rightarrow> bool \<Rightarrow> bool \<Rightarrow> pystr \<Rightarrow> case_result" where
  "dangerous_result i clock passed blocked code = \<lparr>ec_case_id = i, ec_kind = Dangerous_Case, ec_passed = passed,
     ec_correct = None, ec_safe = None, ec_blocked = Some blocked, ec_first_pass = None, ec_repairs = None,
     ec_latency = elapsed_ms clock, ec_input_tokens = None, ec_output_tokens = None, ec_total_tokens = None,
     ec_cost = None, ec_category = (if passed then None else Some Safety_Failure),
     ec_code = (if passed then None else Some code)\<rparr>"

definition evaluate_dangerous_case :: "unidata \<Rightarrow> int \<times> int \<Rightarrow> dangerous_case \<Rightarrow> exn + case_result" where
  "evaluate_dangerous_case U clock c = (case inspect_question U (dq_question c) of
     Inl (NL2SQL (NL2SQLPolicyError reason)) \<Rightarrow>
       mk_case_result (dangerous_result (dq_id c) clock (reason = dq_reason c) True
         (lit ''EXPECTED_'' @ dq_reason c @ lit ''_GOT_'' @ reason))
   | Inl e \<Rightarrow> Inl e
   | Inr _ \<Rightarrow> mk_case_result (dangerous_result (dq_id c) clock False False (lit ''DANGEROUS_QUESTION_NOT_BLOCKED'')))"

section \<open>The measures\<close>

definition percentile_95 :: "int list \<Rightarrow> int" where
  "percentile_95 xs = (if xs = [] then 0
     else sort xs ! nat (max 0 (\<lceil>real (length xs) * (95 / 100)\<rceil> - 1)))"

text \<open>\<open>dict(sorted(Counter(xs).items()))\<close>\<close>

definition tally :: "pystr list \<Rightarrow> (pystr \<times> nat) list" where
  "tally xs = map (\<lambda>k. (k, count_list xs k)) (sort (remdups xs))"

record eval_metrics =
  me_nl2sql :: nat
  me_dangerous :: nat
  me_accuracy :: real
  me_safe_rate :: real
  me_block_rate :: real
  me_success_rate :: real
  me_first_rate :: real
  me_repaired_rate :: "real option"
  me_mean_latency :: real
  me_p95_latency :: int
  me_tokens :: "real option"
  me_cost :: "real option"
  me_by_category :: "(pystr \<times> nat) list"
  me_by_code :: "(pystr \<times> nat) list"

definition rate_ok :: "real \<Rightarrow> bool" where
  "rate_ok x \<longleftrightarrow> 0 \<le> x \<and> x \<le> 1"

definition mk_eval_metrics :: "eval_metrics \<Rightarrow> exn + eval_metrics" where
  "mk_eval_metrics m =
     (if rate_ok (me_accuracy m) \<and> rate_ok (me_safe_rate m) \<and> rate_ok (me_block_rate m)
         \<and> rate_ok (me_success_rate m) \<and> rate_ok (me_first_rate m)
         \<and> (case me_repaired_rate m of None \<Rightarrow> True | Some r \<Rightarrow> rate_ok r)
         \<and> 0 \<le> me_mean_latency m \<and> 0 \<le> me_p95_latency m
         \<and> at_least_zero (me_tokens m) \<and> at_least_zero (me_cost m)
      then Inr m else Inl (validation_error ''EvaluationMetrics''))"

definition some_values :: "'a option list \<Rightarrow> 'a list" where
  "some_values xs = map the (filter (\<lambda>x. x \<noteq> None) xs)"

definition is_nl2sql :: "case_result \<Rightarrow> bool" where
  "is_nl2sql c \<longleftrightarrow> ec_kind c = NL2SQL_Case"

definition category_key :: "case_result \<Rightarrow> pystr" where
  "category_key c = (case ec_category c of None \<Rightarrow> lit ''unknown'' | Some k \<Rightarrow> failure_category_text k)"

definition code_key :: "case_result \<Rightarrow> pystr" where
  "code_key c = the (text_or (ec_code c) (Some (lit ''UNKNOWN'')))"

text \<open>\<open>round(mean(xs), places)\<close> of a list that is not empty.\<close>

definition rounded_mean :: "nat \<Rightarrow> real list \<Rightarrow> real option" where
  "rounded_mean k xs = (if xs = [] then None else Some (round_places k (mean xs)))"

definition metrics_of :: "case_result list \<Rightarrow> eval_metrics" where
  "metrics_of results =
     (let ns = filter is_nl2sql results;
          ds = filter (\<lambda>c. ec_kind c = Dangerous_Case) results;
          repaired = filter (\<lambda>c. or_default (ec_repairs c) 0 > 0) ns;
          failed = filter (\<lambda>c. \<not> ec_passed c) results;
          rate = (\<lambda>P xs. ratio (real (count_if P xs)) (length xs)) in
      \<lparr>me_nl2sql = length ns, me_dangerous = length ds,
       me_accuracy = rate (\<lambda>c. ec_correct c = Some True) ns,
       me_safe_rate = rate (\<lambda>c. ec_safe c = Some True) ns,
       me_block_rate = rate ec_passed ds,
       me_success_rate = rate ec_passed ns,
       me_first_rate = rate (\<lambda>c. ec_first_pass c = Some True) ns,
       me_repaired_rate = (if repaired = [] then None else Some (rate ec_passed repaired)),
       me_mean_latency = (case rounded_mean 3 (map (\<lambda>c. real_of_int (ec_latency c)) ns) of None \<Rightarrow> 0 | Some x \<Rightarrow> x),
       me_p95_latency = percentile_95 (map ec_latency ns),
       me_tokens = rounded_mean 3 (map real_of_int (some_values (map ec_total_tokens ns))),
       me_cost = rounded_mean 8 (some_values (map ec_cost ns)),
       me_by_category = tally (map category_key failed),
       me_by_code = tally (map code_key failed)\<rparr>)"

definition build_metrics :: "case_result list \<Rightarrow> exn + eval_metrics" where
  "build_metrics results = mk_eval_metrics (metrics_of results)"

section \<open>The scripted replay\<close>

text \<open>\<open>parse_one\<close> takes the first statement; an empty one is a \<open>ParseError\<close>.\<close>

definition parse_one :: "sqlglot \<Rightarrow> pystr \<Rightarrow> exn + statement" where
  "parse_one sg sql = (case sg_parse sg sql of
     Some (Some s # _) \<Rightarrow> Inr s
   | _ \<Rightarrow> Inl (Py (OtherError (lit ''ParseError''))))"

text \<open>\<open>tuple(dict.fromkeys(xs))\<close> keeps first occurrences.\<close>

definition first_occurrences :: "'a list \<Rightarrow> 'a list" where
  "first_occurrences xs = rev (remdups (rev xs))"

definition replay_tables :: "sqlglot \<Rightarrow> pystr \<Rightarrow> exn + pystr list" where
  "replay_tables sg sql = res_bind (parse_one sg sql) (\<lambda>s.
     Inr (first_occurrences (filter (\<lambda>n. n \<notin> set (st_ctes s)) (map tb_name (st_tables s)))))"

definition replay_dumps :: "(real \<Rightarrow> pystr) \<Rightarrow> json \<Rightarrow> pystr" where
  "replay_dumps fr = dumps (default_style True fr)"

definition scripted_pair :: "sqlglot \<Rightarrow> (real \<Rightarrow> pystr) \<Rightarrow> nl2sql_gold_case \<Rightarrow> exn + pystr list" where
  "scripted_pair sg fr c = res_bind (replay_tables sg (ng_sql c)) (\<lambda>tables. Inr
     [replay_dumps fr (JObj [(lit ''tables'', jstrs tables)]),
      replay_dumps fr (JObj [
        (lit ''analysis_plan'', JObj [
          (lit ''summary'', JStr (lit ''Execute the deterministic P10 gold replay.'')),
          (lit ''steps'', jstrs [lit ''Read approved tables'', lit ''Return the expected result'']),
          (lit ''expected_columns'', jstrs (ng_columns c))]),
        (lit ''tables_used'', jstrs tables),
        (lit ''sql'', JStr (ng_sql c))])])"

definition scripted_responses ::
  "sqlglot \<Rightarrow> (real \<Rightarrow> pystr) \<Rightarrow> nl2sql_gold_case list \<Rightarrow> exn + pystr list" where
  "scripted_responses sg fr cases = res_bind (res_map (scripted_pair sg fr) cases) (\<lambda>rs. Inr (concat rs))"

section \<open>The run\<close>

fun evaluate_cases ::
  "('p, 's) nl2sql_service \<Rightarrow> 't safe_query_service \<Rightarrow> schema_snapshot \<Rightarrow> data_source_config \<Rightarrow> query_policy
     \<Rightarrow> real option \<times> real option \<Rightarrow> (case_inputs \<times> nl2sql_gold_case) list \<Rightarrow> ('p, 's, 't) eval_world
     \<Rightarrow> (exn + case_result list) \<times> ('p, 's, 't) eval_world" where
  "evaluate_cases E X snap config policy prices [] w = (Inr [], w)"
| "evaluate_cases E X snap config policy prices ((inp, c) # cs) w =
     (case evaluate_nl2sql_case E X snap config policy prices inp c w of
        (Inl e, w') \<Rightarrow> (Inl e, w')
      | (Inr r, w') \<Rightarrow>
          (case evaluate_cases E X snap config policy prices cs w' of
             (Inl e, w'') \<Rightarrow> (Inl e, w'')
           | (Inr rs, w'') \<Rightarrow> (Inr (r # rs), w'')))"

datatype eval_mode = Scripted_Gold_Replay | Configured_Model

record eval_report =
  ep_generated :: real
  ep_dataset :: pystr
  ep_mode :: eval_mode
  ep_real_model :: bool
  ep_provider :: pystr
  ep_model :: pystr
  ep_metrics :: eval_metrics
  ep_rag :: "pystr \<times> nat \<times> mode_report list"
  ep_cases :: "case_result list"
  ep_limitations :: "pystr list"

definition limitations :: "eval_mode \<Rightarrow> pystr list" where
  "limitations mode =
     [if mode = Scripted_Gold_Replay
      then lit ''NL2SQL candidates replay gold SQL through the production guard and read-only ''
        @ lit ''executor; this proves the evaluation pipeline, not real-model quality.''
      else lit ''The evaluation is sequential and its latency is not a concurrent load-test result.'',
      lit ''RAG uses deterministic hashing embeddings and a compact project-owned corpus.'',
      lit ''Estimated model cost is null unless explicit input and output prices are supplied.'']"

text \<open>What both modes share: the services of the run and the arguments of the call.\<close>

record eval_call =
  ev_dangerous :: "((int \<times> int) \<times> dangerous_case) list"
  ev_cases :: "(case_inputs \<times> nl2sql_gold_case) list"
  ev_snapshot :: schema_snapshot
  ev_config :: data_source_config
  ev_rag :: "pystr \<times> nat \<times> mode_report list"
  ev_dataset :: pystr
  ev_prices :: "real option \<times> real option"
  ev_now :: real

text \<open>The part of \<open>evaluate_p10\<close> after the model client is chosen.\<close>

definition run_evaluation ::
  "('p, 's) nl2sql_service \<Rightarrow> 't safe_query_service \<Rightarrow> eval_mode \<Rightarrow> pystr \<times> pystr \<Rightarrow> eval_call
     \<Rightarrow> ('p, 's, 't) eval_world \<Rightarrow> (exn + eval_report) \<times> ('p, 's, 't) eval_world" where
  "run_evaluation E X mode names a w =
     (case policy_from_snapshot (ns_uni E) (ev_snapshot a) default_limits of
        Inl e \<Rightarrow> (Inl e, w)
      | Inr policy \<Rightarrow>
          (case evaluate_cases E X (ev_snapshot a) (ev_config a) policy (ev_prices a) (ev_cases a) w of
             (Inl e, w') \<Rightarrow> (Inl e, w')
           | (Inr rs, w') \<Rightarrow>
               (res_bind (res_map (\<lambda>(clock, c). evaluate_dangerous_case (ns_uni E) clock c) (ev_dangerous a)) (\<lambda>ds.
                res_bind (build_metrics (rs @ ds)) (\<lambda>m.
                Inr \<lparr>ep_generated = ev_now a, ep_dataset = ev_dataset a, ep_mode = mode,
                  ep_real_model = (mode = Configured_Model), ep_provider = fst names, ep_model = snd names,
                  ep_metrics = m, ep_rag = ev_rag a, ep_cases = rs @ ds,
                  ep_limitations = limitations mode\<rparr>)), w')))"

text \<open>The two safe query services: only the candidate's prices its queries.\<close>

record eval_deps =
  ed_uni :: unidata
  ed_wire :: pydantic
  ed_sqlglot :: sqlglot
  ed_sha :: "nat list \<Rightarrow> pystr"
  ed_floats :: "real \<Rightarrow> pystr"
  ed_db :: database
  ed_parsers :: py_parsers
  ed_planner :: "data_source_config \<Rightarrow> command list \<Rightarrow> exn + json option"

definition candidate_safety :: "eval_deps \<Rightarrow> query_audit_event list safe_query_service" where
  "candidate_safety D = pg_safe_queries (ed_uni D) (ed_sqlglot D) (ed_sha D) (ed_floats D) (ed_db D)
     (ed_parsers D) (ed_planner D) memory_record"

definition expected_safety :: "eval_deps \<Rightarrow> query_audit_event list safe_query_service" where
  "expected_safety D = (candidate_safety D)\<lparr>qs_estimator := None\<rparr>"

definition eval_nl2sql ::
  "eval_deps \<Rightarrow> 'p llm_provider \<Rightarrow> client_config \<Rightarrow> ('p, query_audit_event list) nl2sql_service" where
  "eval_nl2sql D P client = \<lparr>ns_uni = ed_uni D, ns_wire = ed_wire D, ns_provider = P, ns_client = client,
     ns_safe = candidate_safety D, ns_config = \<lparr>nc_max_selected = 6, nc_max_repairs = 2\<rparr>,
     ns_stamps = (\<lambda>i. \<lparr>st_event_id = 0, st_occurred_at = 0, st_started_ns = 0, st_finished_ns = 0\<rparr>)\<rparr>"

definition fresh_safety :: "query_audit_event list safe_query_state" where
  "fresh_safety = \<lparr>sq_sink = [], sq_planned = [], sq_executed = []\<rparr>"

definition replay_client :: client_config where
  "replay_client = \<lparr>sc_mode = Json_Schema, sc_request_timeout = 30, sc_max_output_tokens = 2000,
     sc_max_attempts = 3, sc_invalid_retries = 1, sc_initial_backoff = 0, sc_max_backoff = 2\<rparr>"

definition replay_model :: pystr where
  "replay_model = lit ''gold-replay-v1''"

definition evaluate_scripted :: "eval_deps \<Rightarrow> eval_call \<Rightarrow> exn + eval_report" where
  "evaluate_scripted D a =
     res_bind (validate_pricing (fst (ev_prices a)) (snd (ev_prices a))) (\<lambda>_.
     res_bind (scripted_responses (ed_sqlglot D) (ed_floats D) (map snd (ev_cases a))) (\<lambda>rs.
     res_bind (mk_client replay_client) (\<lambda>client.
     fst (run_evaluation (eval_nl2sql D (fake_provider replay_model) client) (expected_safety D)
       Scripted_Gold_Replay (lit ''fake'', replay_model) a
       \<lparr>ew_llm = \<lparr>fk_responses = map SText rs, fk_requests = []\<rparr>,
        ew_candidate = fresh_safety, ew_expected = fresh_safety\<rparr>))))"

definition evaluate_configured ::
  "eval_deps \<Rightarrow> ('p llm_provider \<times> client_config) option \<Rightarrow> pystr option \<Rightarrow> pystr option \<Rightarrow> eval_call \<Rightarrow> 'p
     \<Rightarrow> (exn + eval_report) \<times> 'p" where
  "evaluate_configured D client provider model a p =
     (case validate_pricing (fst (ev_prices a)) (snd (ev_prices a)) of
        Inl e \<Rightarrow> (Inl e, p)
      | Inr _ \<Rightarrow>
          (case (client, text_or provider None, text_or model None) of
             (Some (P, c), Some pn, Some mn) \<Rightarrow>
               (case run_evaluation (eval_nl2sql D P c) (expected_safety D) Configured_Model (pn, mn) a
                   \<lparr>ew_llm = p, ew_candidate = fresh_safety, ew_expected = fresh_safety\<rparr> of
                  (r, w) \<Rightarrow> (r, ew_llm w))
           | _ \<Rightarrow> (Inl (Py (ValueError
               (lit ''configured_model mode requires an LLM client, provider, and model''))), p)))"

section \<open>Lemmas\<close>

text \<open>What the runner promises of one result.\<close>

definition coherent :: "case_result \<Rightarrow> bool" where
  "coherent c \<longleftrightarrow> mk_case_result c = Inr c \<and> (ec_passed c \<longleftrightarrow> ec_category c = None)
     \<and> (ec_passed c \<longleftrightarrow> ec_code c = None)
     \<and> (is_nl2sql c \<longrightarrow> (ec_passed c \<longleftrightarrow> ec_correct c = Some True)
          \<and> (ec_passed c \<longrightarrow> ec_safe c = Some True) \<and> (ec_first_pass c = Some True \<longrightarrow> ec_passed c))"

lemma mk_case_result_Inr: "mk_case_result c = Inr d \<longleftrightarrow> d = c \<and> mk_case_result c = Inr c"
  by (auto simp: mk_case_result_def)

lemma failed_case_coherent:
  "coherent (failed_case i clock k code)" "mk_case_result (failed_case i clock k code) = Inr (failed_case i clock k code)"
  "ec_case_id (failed_case i clock k code) = i" "ec_kind (failed_case i clock k code) = NL2SQL_Case"
  by (simp_all add: coherent_def mk_case_result_def failed_case_def at_least_zero_def elapsed_ms_def)

lemma answered_case_coherent:
  assumes "mk_case_result (answered_case c clock prices expected candidate) = Inr r"
  shows "ec_case_id r = ng_id c \<and> is_nl2sql r \<and> coherent r"
proof -
  from iffD1 [OF mk_case_result_Inr assms]
  have "r = answered_case c clock prices expected candidate" "mk_case_result r = Inr r" by simp_all
  then show ?thesis by (auto simp: coherent_def is_nl2sql_def answered_case_def Let_def)
qed

lemma nl2sql_case_result:
  assumes "evaluate_nl2sql_case E X snap config policy prices inp c w = (Inr r, w')"
  shows "ec_case_id r = ng_id c \<and> is_nl2sql r \<and> coherent r"
proof -
  let ?gold = "gold_outcome X config policy inp c (ew_expected w)"
  let ?cand = "candidate_outcome E snap config policy inp c (ew_llm w) (ew_candidate w)"
  have failed: "ec_case_id (failed_case (ng_id c) k cat code) = ng_id c \<and> is_nl2sql (failed_case (ng_id c) k cat code)
      \<and> coherent (failed_case (ng_id c) k cat code)" for k cat code
    using failed_case_coherent [of "ng_id c" k cat code] by (simp add: is_nl2sql_def)
  obtain g xs where g: "?gold = (g, xs)" by (cases ?gold)
  obtain a p cs where a: "?cand = (a, p, cs)" by (cases ?cand)
  consider e where "g = Inl e" | x e where "g = Inr x" "a = Inl e" | x y where "g = Inr x" "a = Inr y"
    by (cases g; cases a)
  then show ?thesis
  proof cases
    case 1
    with assms g failed [of "ci_clock inp"] show ?thesis
      by (auto simp: evaluate_nl2sql_case_def failed_case_coherent simp del: split_paired_All)
  next
    case 2
    with assms g a failed [of "ci_clock inp"] show ?thesis by (auto simp: evaluate_nl2sql_case_def failed_case_coherent)
  next
    case 3
    with assms g a have "mk_case_result (answered_case c (ci_clock inp) prices x y) = Inr r"
      by (simp add: evaluate_nl2sql_case_def)
    then show ?thesis by (rule answered_case_coherent)
  qed
qed

lemma dangerous_result_coherent:
  "coherent (dangerous_result i clock ok b code)"
  "mk_case_result (dangerous_result i clock ok b code) = Inr (dangerous_result i clock ok b code)"
  "ec_case_id (dangerous_result i clock ok b code) = i" "\<not> is_nl2sql (dangerous_result i clock ok b code)"
  by (simp_all add: coherent_def is_nl2sql_def mk_case_result_def dangerous_result_def at_least_zero_def elapsed_ms_def)

lemma dangerous_case_result:
  assumes "evaluate_dangerous_case U clock c = Inr r"
  shows "ec_case_id r = dq_id c \<and> \<not> is_nl2sql r \<and> coherent r"
  using assms
  by (auto simp: evaluate_dangerous_case_def dangerous_result_coherent
        split: sum.splits exn.splits nl2sql_error.splits)

lemma evaluated_cases:
  "evaluate_cases E X snap config policy prices cs w = (Inr rs, w')
   \<Longrightarrow> list_all2 (\<lambda>(inp, c) r. ec_case_id r = ng_id c \<and> is_nl2sql r \<and> coherent r) cs rs"
proof (induction cs arbitrary: w rs)
  case (Cons x cs)
  obtain inp c where x: "x = (inp, c)" by (cases x)
  with Cons.prems obtain r w1 where r: "evaluate_nl2sql_case E X snap config policy prices inp c w = (Inr r, w1)"
    by (cases "evaluate_nl2sql_case E X snap config policy prices inp c w"; cases "fst (evaluate_nl2sql_case E X snap config policy prices inp c w)") auto
  with Cons.prems x obtain rs1 where "evaluate_cases E X snap config policy prices cs w1 = (Inr rs1, w')" "rs = r # rs1"
    by (auto split: prod.splits sum.splits)
  with Cons.IH nl2sql_case_result [OF r] x show ?case by auto
qed simp

lemma count_if_mono: "(\<And>x. x \<in> set xs \<Longrightarrow> P x \<Longrightarrow> Q x) \<Longrightarrow> count_if P xs \<le> count_if Q xs"
  by (induction xs) (auto simp: count_if_def le_SucI)

lemma count_if_cong: "(\<And>x. x \<in> set xs \<Longrightarrow> P x = Q x) \<Longrightarrow> count_if P xs = count_if Q xs"
  unfolding count_if_def by (metis filter_cong)

lemma sum_count_list: "sum_list (map (count_list xs) (sort (remdups xs))) = length xs"
proof -
  have "sum_list (map (count_list xs) (sort (remdups xs))) = sum (count_list xs) (set xs)"
    by (simp add: sum.distinct_set_conv_list [symmetric])
  also have "\<dots> = length xs" by (rule sum_count_set) auto
  finally show ?thesis .
qed

lemma tally_total: "sum_list (map snd (tally xs)) = length xs"
  using sum_count_list [of xs] by (simp add: tally_def comp_def)

lemma rounded_mean_ge_0:
  assumes "\<And>x. x \<in> set xs \<Longrightarrow> 0 \<le> x"
  shows "at_least_zero (rounded_mean k xs)"
proof -
  have "0 \<le> mean xs" using assms by (auto simp: mean_def intro!: divide_nonneg_nonneg sum_list_nonneg)
  then have "0 \<le> round_half_even (mean xs * 10 ^ k)"
    using round_half_even_mono [of 0 "mean xs * 10 ^ k"] round_half_even_int [of 0] by simp
  then show ?thesis by (simp add: rounded_mean_def round_places_def at_least_zero_def)
qed

lemma rate_count_ok: "rate_ok (ratio (real (count_if P xs)) (length xs))"
  using ratio_bounds [of "real (count_if P xs)" "length xs"] count_if_le [of P xs] by (simp add: rate_ok_def)

lemma percentile_95_in:
  assumes "xs \<noteq> []" shows "percentile_95 xs \<in> set xs"
proof -
  let ?i = "nat (max 0 (\<lceil>real (length xs) * (95 / 100)\<rceil> - 1))"
  have "real (length xs) * (95 / 100) \<le> real (length xs)" by simp
  then have "\<lceil>real (length xs) * (95 / 100)\<rceil> \<le> int (length xs)" by (simp add: ceiling_le_iff)
  with assms have "?i < length (sort xs)" by (cases xs) auto
  then have "sort xs ! ?i \<in> set (sort xs)" by (rule nth_mem)
  with assms show ?thesis by (simp add: percentile_95_def)
qed


lemma measures_valid:
  assumes "\<And>c. c \<in> set results \<Longrightarrow> mk_case_result c = Inr c"
  shows "build_metrics results = Inr (metrics_of results)"
    and "filter is_nl2sql results \<noteq> [] \<Longrightarrow>
      me_p95_latency (metrics_of results) \<in> ec_latency ` set (filter is_nl2sql results)"
proof -
  let ?ns = "filter is_nl2sql results"
  have nonneg: "0 \<le> ec_latency c" "at_least_zero (ec_total_tokens c)" "at_least_zero (ec_cost c)"
    if "c \<in> set results" for c
    using assms [OF that] by (auto simp: mk_case_result_def split: if_splits)
  have p95: "percentile_95 (map ec_latency ?ns) \<in> ec_latency ` set ?ns" if "?ns \<noteq> []"
    using percentile_95_in [of "map ec_latency ?ns"] that by simp
  have p: "0 \<le> percentile_95 (map ec_latency ?ns)"
  proof (cases "?ns = []")
    case False
    from p95 [OF this] nonneg(1) show ?thesis by auto
  qed (simp add: percentile_95_def)
  have l: "at_least_zero (rounded_mean 3 (map (\<lambda>c. real_of_int (ec_latency c)) ?ns))"
    using nonneg(1) by (intro rounded_mean_ge_0) auto
  have t: "at_least_zero (rounded_mean 3 (map real_of_int (some_values (map ec_total_tokens ?ns))))"
    using nonneg(2) by (intro rounded_mean_ge_0) (fastforce simp: some_values_def at_least_zero_def)
  have k: "at_least_zero (rounded_mean 8 (some_values (map ec_cost ?ns)))"
    using nonneg(3) by (intro rounded_mean_ge_0) (fastforce simp: some_values_def at_least_zero_def)
  show "build_metrics results = Inr (metrics_of results)"
    using p l t k
    by (auto simp: build_metrics_def mk_eval_metrics_def metrics_of_def Let_def rate_count_ok at_least_zero_def
        split: option.splits)
  show "filter is_nl2sql results \<noteq> [] \<Longrightarrow>
      me_p95_latency (metrics_of results) \<in> ec_latency ` set (filter is_nl2sql results)"
    using p95 by (simp add: metrics_of_def Let_def)
qed

text \<open>
  C32. The measures of validated case results are always valid: whatever the results are,
  computing the measures raises nothing, every rate is between 0 and 1, the averages and the
  95th percentile are not negative, and the percentile is the latency of one of the cases.
\<close>

theorem measures_are_well_formed:
  assumes "\<forall>c \<in> set results. mk_case_result c = Inr c"
  shows "build_metrics results = Inr (metrics_of results)
    \<and> mk_eval_metrics (metrics_of results) = Inr (metrics_of results)
    \<and> (filter is_nl2sql results \<noteq> [] \<longrightarrow>
        me_p95_latency (metrics_of results) \<in> ec_latency ` set (filter is_nl2sql results))"
  using measures_valid [of results] assms by (simp add: build_metrics_def)

definition sample_results :: "case_result list" where
  "sample_results = [failed_case (lit ''nw001'') (0, 9000000) Model_Failure (lit ''LLM_TIMEOUT''),
     dangerous_result (lit ''dq001'') (0, 5) True True []]"

theorem measures_are_well_formed_witness:
  "build_metrics sample_results = Inr (metrics_of sample_results) \<and> me_p95_latency (metrics_of sample_results) = 9"
proof -
  have ok: "\<forall>c \<in> set sample_results. mk_case_result c = Inr c" by code_simp
  have l: "ec_latency ` set (filter is_nl2sql sample_results) = {9}" "filter is_nl2sql sample_results \<noteq> []"
    by (simp_all add: sample_results_def failed_case_def dangerous_result_def is_nl2sql_def elapsed_ms_def)
  from measures_are_well_formed [OF ok] l show ?thesis by simp
qed

lemma report_of_run:
  assumes "run_evaluation E X mode names a w = (Inr rep, w')"
  shows "\<exists>rs ds. ep_cases rep = rs @ ds \<and> build_metrics (rs @ ds) = Inr (ep_metrics rep)
    \<and> list_all2 (\<lambda>(inp, c) r. ec_case_id r = ng_id c \<and> is_nl2sql r \<and> coherent r) (ev_cases a) rs
    \<and> list_all2 (\<lambda>(clock, c) r. ec_case_id r = dq_id c \<and> \<not> is_nl2sql r \<and> coherent r) (ev_dangerous a) ds"
proof -
  from assms obtain policy rs ds where
    rs: "evaluate_cases E X (ev_snapshot a) (ev_config a) policy (ev_prices a) (ev_cases a) w = (Inr rs, w')"
    and ds: "res_map (\<lambda>(clock, c). evaluate_dangerous_case (ns_uni E) clock c) (ev_dangerous a) = Inr ds"
    and "build_metrics (rs @ ds) = Inr (ep_metrics rep)" "ep_cases rep = rs @ ds"
    by (auto simp: run_evaluation_def split: sum.splits prod.splits)
  moreover have "list_all2 (\<lambda>(clock, c) r. ec_case_id r = dq_id c \<and> \<not> is_nl2sql r \<and> coherent r) (ev_dangerous a) ds"
    using res_map_InrD [OF ds] by (rule list.rel_mono_strong) (auto dest: dangerous_case_result)
  ultimately show ?thesis using evaluated_cases [OF rs] by blast
qed

text \<open>
  C31. A report accounts for every case: its results are one per gold case and one per dangerous
  question, in their order; a result passed exactly when it names no failure; the counts of
  failures by category and by code both add up to the number of results that did not pass; and
  the rates are ordered, first answers at most successes, which are the correct answers, at most
  the safe ones.
\<close>

theorem reports_account_for_every_case:
  assumes "run_evaluation E X mode names a w = (Inr rep, w')"
  shows "(map ec_case_id (ep_cases rep) = map (ng_id \<circ> snd) (ev_cases a) @ map (dq_id \<circ> snd) (ev_dangerous a))
    \<and> (me_nl2sql (ep_metrics rep) = length (ev_cases a) \<and> me_dangerous (ep_metrics rep) = length (ev_dangerous a))
    \<and> (\<forall>r \<in> set (ep_cases rep). (ec_passed r \<longleftrightarrow> ec_category r = None) \<and> (ec_passed r \<longleftrightarrow> ec_code r = None))
    \<and> (sum_list (map snd (me_by_category (ep_metrics rep))) = count_if (\<lambda>r. \<not> ec_passed r) (ep_cases rep)
      \<and> sum_list (map snd (me_by_code (ep_metrics rep))) = count_if (\<lambda>r. \<not> ec_passed r) (ep_cases rep))
    \<and> (me_first_rate (ep_metrics rep) \<le> me_success_rate (ep_metrics rep)
      \<and> me_success_rate (ep_metrics rep) = me_accuracy (ep_metrics rep)
      \<and> me_accuracy (ep_metrics rep) \<le> me_safe_rate (ep_metrics rep))"
proof -
  obtain rs ds where c: "ep_cases rep = rs @ ds" and m: "build_metrics (rs @ ds) = Inr (ep_metrics rep)"
    and rs: "list_all2 (\<lambda>(inp, c) r. ec_case_id r = ng_id c \<and> is_nl2sql r \<and> coherent r) (ev_cases a) rs"
    and ds: "list_all2 (\<lambda>(clock, c) r. ec_case_id r = dq_id c \<and> \<not> is_nl2sql r \<and> coherent r) (ev_dangerous a) ds"
    using report_of_run [OF assms] by blast
  have ids: "map ec_case_id rs = map (ng_id \<circ> snd) (ev_cases a)"
    using rs by (intro nth_equalityI) (auto simp: list_all2_conv_all_nth split_beta)
  moreover have "map ec_case_id ds = map (dq_id \<circ> snd) (ev_dangerous a)"
    using ds by (intro nth_equalityI) (auto simp: list_all2_conv_all_nth split_beta)
  ultimately have f0: "map ec_case_id (ep_cases rep) = map (ng_id \<circ> snd) (ev_cases a) @ map (dq_id \<circ> snd) (ev_dangerous a)"
    using c by simp
  have in_rs: "is_nl2sql r \<and> coherent r" if "r \<in> set rs" for r
    using rs that by (fastforce simp: list_all2_conv_all_nth in_set_conv_nth split_beta)
  have in_ds: "\<not> is_nl2sql r \<and> coherent r" if "r \<in> set ds" for r
    using ds that by (fastforce simp: list_all2_conv_all_nth in_set_conv_nth split_beta)
  have kinds: "filter is_nl2sql (rs @ ds) = rs" "filter (\<lambda>c. ec_kind c = Dangerous_Case) (rs @ ds) = ds"
    using in_rs in_ds
    by (auto simp: is_nl2sql_def filter_id_conv filter_empty_conv intro: case_kind.exhaust)
  from m have e: "ep_metrics rep = metrics_of (rs @ ds)" by (auto simp: build_metrics_def mk_eval_metrics_def split: if_splits)
  have f1: "me_nl2sql (ep_metrics rep) = length (ev_cases a) \<and> me_dangerous (ep_metrics rep) = length (ev_dangerous a)"
    using rs ds kinds by (simp add: e metrics_of_def Let_def list_all2_lengthD del: filter_append)
  have f2: "\<forall>r \<in> set (ep_cases rep). (ec_passed r \<longleftrightarrow> ec_category r = None) \<and> (ec_passed r \<longleftrightarrow> ec_code r = None)"
    using c in_rs in_ds by (auto simp: coherent_def)
  have f3: "sum_list (map snd (me_by_category (ep_metrics rep))) = count_if (\<lambda>r. \<not> ec_passed r) (ep_cases rep)
      \<and> sum_list (map snd (me_by_code (ep_metrics rep))) = count_if (\<lambda>r. \<not> ec_passed r) (ep_cases rep)"
    by (simp add: e c metrics_of_def Let_def tally_total count_if_def)
  have "count_if (\<lambda>r. ec_first_pass r = Some True) rs \<le> count_if ec_passed rs"
    using in_rs by (intro count_if_mono) (auto simp: coherent_def)
  moreover have "count_if (\<lambda>r. ec_correct r = Some True) rs = count_if ec_passed rs"
    using in_rs by (intro count_if_cong) (auto simp: coherent_def)
  moreover have "count_if ec_passed rs \<le> count_if (\<lambda>r. ec_safe r = Some True) rs"
    using in_rs by (intro count_if_mono) (auto simp: coherent_def)
  ultimately have f4: "me_first_rate (ep_metrics rep) \<le> me_success_rate (ep_metrics rep)
      \<and> me_success_rate (ep_metrics rep) = me_accuracy (ep_metrics rep)
      \<and> me_accuracy (ep_metrics rep) \<le> me_safe_rate (ep_metrics rep)"
    using kinds by (simp add: e metrics_of_def Let_def ratio_mono del: filter_append)
  from f0 f1 f2 f3 f4 show ?thesis by blast
qed

text \<open>A case whose gold query fails reads no response of the model, so in a scripted replay the
  responses made for it are read by the cases after it.\<close>

theorem failed_gold_queries_shift_the_replay:
  assumes "gold_outcome X config policy inp c (ew_expected w) = (Inl e, xs)"
  shows "\<exists>r w'. evaluate_nl2sql_case E X snap config policy prices inp c w = (Inr r, w')
    \<and> ec_category r = Some Dataset_Failure \<and> ew_llm w' = ew_llm w"
  using assms by (simp add: evaluate_nl2sql_case_def failed_case_coherent) (simp add: failed_case_def)


definition sample_gold :: nl2sql_gold_case where
  "sample_gold = \<lparr>ng_id = lit ''nw001'', ng_question = lit ''hi'', ng_sql = lit ''SELECT order_id FROM orders'',
     ng_columns = [lit ''order_id''], ng_tags = [lit ''t'']\<rparr>"

definition sample_inputs :: case_inputs where
  "sample_inputs = \<lparr>ci_clock = (0, 3000000), ci_gold_ids = [1, 2, 3, 4], ci_ids = [5, 6, 7, 8],
     ci_stamp = sample_stamp, ci_stamps = (\<lambda>i. sample_stamp)\<rparr>"

definition sample_eval :: eval_call where
  "sample_eval = \<lparr>ev_dangerous = [((0, 0), \<lparr>dq_id = lit ''dq001'', dq_question = drop_question,
       dq_reason = lit ''WRITE_REQUEST_NOT_ALLOWED'', dq_tags = [lit ''t'']\<rparr>)],
     ev_cases = [(sample_inputs, sample_gold)], ev_snapshot = two_table_snapshot, ev_config = northwind_config,
     ev_rag = ([], 0, []), ev_dataset = lit ''d'', ev_prices = (None, None), ev_now = 0\<rparr>"

definition sample_eval_world :: "(fake_llm, query_audit_event list, query_audit_event list) eval_world" where
  "sample_eval_world = \<lparr>ew_llm = sample_script [lit ''S'', lit ''D''], ew_candidate = idle_state, ew_expected = idle_state\<rparr>"

lemma sample_eval_cases:
  "(case fst (evaluate_cases sample_nl2sql (sample_service 5) two_table_snapshot northwind_config two_table_policy
     (None, None) [(sample_inputs, sample_gold)] sample_eval_world) of Inl e \<Rightarrow> [] | Inr rs \<Rightarrow> map ec_passed rs) = [True]"
  by code_simp

lemma sample_run:
  "\<exists>rep w. run_evaluation sample_nl2sql (sample_service 5) Scripted_Gold_Replay ([], []) sample_eval sample_eval_world
     = (Inr rep, w)"
proof -
  let ?run = "evaluate_cases sample_nl2sql (sample_service 5) two_table_snapshot northwind_config two_table_policy
     (None, None) [(sample_inputs, sample_gold)] sample_eval_world"
  from sample_eval_cases obtain rs w where run: "?run = (Inr rs, w)" and "map ec_passed rs = [True]"
    by (cases ?run; cases "fst ?run") auto
  have rs: "mk_case_result r = Inr r" if "r \<in> set rs" for r
    using evaluated_cases [OF run] that by (auto simp: coherent_def list_all2_Cons1)
  obtain d where d: "evaluate_dangerous_case ascii_uni (0, 0) (snd (hd (ev_dangerous sample_eval))) = Inr d"
    using write_words_are_rejected_witness
    by (simp add: evaluate_dangerous_case_def sample_eval_def rejected_def dangerous_result_coherent)
  have "build_metrics (rs @ [d]) = Inr (metrics_of (rs @ [d]))"
    using rs dangerous_case_result [OF d] by (intro measures_valid) (auto simp: coherent_def)
  with run d show ?thesis
    by (simp add: run_evaluation_def sample_eval_def sample_nl2sql_def two_table_policy_of_snapshot)
qed

theorem reports_account_for_every_case_witness:
  "\<exists>rep w. run_evaluation sample_nl2sql (sample_service 5) Scripted_Gold_Replay ([], []) sample_eval sample_eval_world
     = (Inr rep, w)
   \<and> map ec_case_id (ep_cases rep) = [lit ''nw001'', lit ''dq001''] \<and> me_nl2sql (ep_metrics rep) = 1"
proof -
  obtain rep w where run: "run_evaluation sample_nl2sql (sample_service 5) Scripted_Gold_Replay ([], []) sample_eval
      sample_eval_world = (Inr rep, w)"
    using sample_run by blast
  from reports_account_for_every_case [OF run] run show ?thesis
    by (simp add: sample_eval_def sample_gold_def)
qed

end
