(* ===== verification/Graph_Neo4j.thy ===== *)
theory Graph_Neo4j
  imports Graph_Service
begin

text \<open>
  The Neo4j store of \<open>knowledge_graph/repository.py\<close>. The server is an argument: what it answers
  to one Cypher statement with its parameters, and its next state. What the development states
  is what this code contributes: the statements it sends, in which order and with which
  parameters, that a replacement is one write transaction, its bounds, and the reading of the
  answers. Matching and ordering happen inside Neo4j.
\<close>

section \<open>Statements and the driver\<close>

record cypher =
  cy_text :: pystr
  cy_timeout :: "real option"
  cy_params :: "(pystr \<times> json) list"

type_synonym cypher_row = "(pystr \<times> json) list"

text \<open>
  \<open>execute_write\<close> undoes what a failed function did, and runs it again after a transient error
  while its retry time lasts: \<open>nj_retries\<close> more times.
\<close>

record 'd neo4j =
  nj_run :: "cypher \<Rightarrow> 'd \<Rightarrow> (exn + cypher_row list) \<times> 'd"
  nj_transient :: "exn \<Rightarrow> bool"
  nj_retries :: nat

text \<open>How pydantic reads the values of a record: identifiers, numbers and times.\<close>

record graph_codec =
  gx_uuid :: "pystr \<Rightarrow> uuid option"
  gx_float :: "json \<Rightarrow> real option"
  gx_time_text :: "real \<Rightarrow> pystr"
  gx_time :: "pystr \<Rightarrow> real option"
  gx_casefold :: "pystr \<Rightarrow> pystr"

fun run_all :: "'d neo4j \<Rightarrow> cypher list \<Rightarrow> 'd \<Rightarrow> (exn + unit) \<times> 'd" where
  "run_all D [] d = (Inr (), d)"
| "run_all D (s # ss) d = (case nj_run D s d of
     (Inl e, d') \<Rightarrow> (Inl e, d')
   | (Inr _, d') \<Rightarrow> run_all D ss d')"

fun write_attempts :: "'d neo4j \<Rightarrow> nat \<Rightarrow> cypher list \<Rightarrow> 'd \<Rightarrow> (exn + unit) \<times> 'd" where
  "write_attempts D 0 ss d = (case run_all D ss d of (Inl e, _) \<Rightarrow> (Inl e, d) | (Inr _, d') \<Rightarrow> (Inr (), d'))"
| "write_attempts D (Suc n) ss d = (case run_all D ss d of
     (Inl e, _) \<Rightarrow> if nj_transient D e then write_attempts D n ss d else (Inl e, d)
   | (Inr _, d') \<Rightarrow> (Inr (), d'))"

definition execute_write :: "'d neo4j \<Rightarrow> cypher list \<Rightarrow> 'd \<Rightarrow> (exn + unit) \<times> 'd" where
  "execute_write D ss d = write_attempts D (nj_retries D) ss d"

section \<open>Records\<close>

text \<open>\<open>model_dump(mode="json")\<close>\<close>

definition node_json :: "graph_codec \<Rightarrow> graph_node \<Rightarrow> json" where
  "node_json X n = JObj [(lit ''id'', JStr (gn_id n)), (lit ''name'', JStr (gn_name n)),
     (lit ''kind'', JStr (entity_kind_text (gn_kind n))), (lit ''source_id'', JStr (uuid_str (gn_source_id n))),
     (lit ''source_name'', JStr (gn_source_name n)), (lit ''evidence'', JStr (gn_evidence n)),
     (lit ''confidence'', JFloat (gn_confidence n)), (lit ''extracted_at'', JStr (gx_time_text X (gn_extracted_at n)))]"

definition edge_json :: "graph_codec \<Rightarrow> graph_edge \<Rightarrow> json" where
  "edge_json X e = JObj [(lit ''id'', JStr (ge_id e)), (lit ''source'', JStr (ge_source e)),
     (lit ''target'', JStr (ge_target e)), (lit ''kind'', JStr (relation_kind_text (ge_kind e))),
     (lit ''source_id'', JStr (uuid_str (ge_source_id e))), (lit ''source_name'', JStr (ge_source_name e)),
     (lit ''evidence'', JStr (ge_evidence e)), (lit ''confidence'', JFloat (ge_confidence e)),
     (lit ''extracted_at'', JStr (gx_time_text X (ge_extracted_at e)))]"

text \<open>\<open>model_validate\<close>: other keys, such as the tenant, are ignored.\<close>

definition node_of_json :: "graph_codec \<Rightarrow> json \<Rightarrow> graph_node option" where
  "node_of_json X j = (case j of
     JObj kvs \<Rightarrow>
       (case (text_field ''id'' kvs, text_field ''name'' kvs, Option.bind (text_field ''kind'' kvs) entity_kind_of,
              Option.bind (text_field ''source_id'' kvs) (gx_uuid X), text_field ''source_name'' kvs) of
          (Some i, Some n, Some k, Some s, Some sn) \<Rightarrow>
            (case (text_field ''evidence'' kvs, Option.bind (map_of kvs (lit ''confidence'')) (gx_float X),
                   Option.bind (text_field ''extracted_at'' kvs) (gx_time X)) of
               (Some ev, Some c, Some t) \<Rightarrow> Some \<lparr>gn_id = i, gn_name = n, gn_kind = k, gn_source_id = s,
                 gn_source_name = sn, gn_evidence = ev, gn_confidence = c, gn_extracted_at = t\<rparr>
             | _ \<Rightarrow> None)
        | _ \<Rightarrow> None)
   | _ \<Rightarrow> None)"

definition edge_of_json :: "graph_codec \<Rightarrow> json \<Rightarrow> graph_edge option" where
  "edge_of_json X j = (case j of
     JObj kvs \<Rightarrow>
       (case (text_field ''id'' kvs, text_field ''source'' kvs, text_field ''target'' kvs,
              Option.bind (text_field ''kind'' kvs) relation_kind_of,
              Option.bind (text_field ''source_id'' kvs) (gx_uuid X), text_field ''source_name'' kvs) of
          (Some i, Some a, Some b, Some k, Some s, Some sn) \<Rightarrow>
            (case (text_field ''evidence'' kvs, Option.bind (map_of kvs (lit ''confidence'')) (gx_float X),
                   Option.bind (text_field ''extracted_at'' kvs) (gx_time X)) of
               (Some ev, Some c, Some t) \<Rightarrow> Some \<lparr>ge_id = i, ge_source = a, ge_target = b, ge_kind = k,
                 ge_source_id = s, ge_source_name = sn, ge_evidence = ev, ge_confidence = c, ge_extracted_at = t\<rparr>
             | _ \<Rightarrow> None)
        | _ \<Rightarrow> None)
   | _ \<Rightarrow> None)"

text \<open>\<open>Model.model_validate(r[key])\<close> of one row.\<close>

definition row_value :: "string \<Rightarrow> (json \<Rightarrow> 'a option) \<Rightarrow> cypher_row \<Rightarrow> exn + 'a" where
  "row_value key read r = (case map_of r (lit key) of
     None \<Rightarrow> Inl (Py KeyError)
   | Some j \<Rightarrow> (case read j of None \<Rightarrow> Inl (validation_error ''GraphRecord'') | Some x \<Rightarrow> Inr x))"

section \<open>Setup\<close>

definition plain_cypher :: "pystr \<Rightarrow> (pystr \<times> json) list \<Rightarrow> cypher" where
  "plain_cypher t ps = \<lparr>cy_text = t, cy_timeout = None, cy_params = ps\<rparr>"

definition setup_statements :: "cypher list" where
  "setup_statements = map (\<lambda>t. plain_cypher (lit t) [])
     [''CREATE CONSTRAINT graph_source_identity IF NOT EXISTS FOR (n:GraphSource) REQUIRE (n.tenant_id, n.id) IS UNIQUE'',
      ''CREATE CONSTRAINT entity_identity IF NOT EXISTS FOR (n:Entity) REQUIRE (n.tenant_id, n.id) IS UNIQUE'',
      ''CREATE INDEX entity_source IF NOT EXISTS FOR (n:Entity) ON (n.tenant_id, n.source_id)'']"

definition neo4j_setup :: "'d neo4j \<Rightarrow> 'd \<Rightarrow> (exn + unit) \<times> 'd" where
  "neo4j_setup D d = run_all D setup_statements d"

section \<open>Replacing a graph\<close>

definition lock_source :: pystr where
  "lock_source = lit ''MERGE (s:GraphSource {tenant_id:$tenant, id:$source}) SET s.updated_at=datetime()''"

definition delete_source :: pystr where
  "delete_source = lit ''MATCH (n:Entity {tenant_id:$tenant, source_id:$source}) DETACH DELETE n''"

definition create_nodes :: pystr where
  "create_nodes = lit ''UNWIND $nodes AS node CREATE (n:Entity) SET n = node, n.tenant_id = $tenant''"

definition create_edges :: pystr where
  "create_edges = lit ''UNWIND $edges AS edge MATCH (a:Entity {tenant_id:$tenant, id:edge.source}), ''
     @ lit ''(b:Entity {tenant_id:$tenant, id:edge.target}) CREATE (a)-[r:RELATION]->(b) SET r = edge, r.tenant_id = $tenant''"

definition tenant_param :: "uuid \<Rightarrow> pystr \<times> json" where
  "tenant_param t = (lit ''tenant'', JStr (uuid_str t))"

definition replace_statements :: "graph_codec \<Rightarrow> uuid \<Rightarrow> uuid \<Rightarrow> subgraph \<Rightarrow> cypher list" where
  "replace_statements X t s g =
     [plain_cypher lock_source [tenant_param t, (lit ''source'', JStr (uuid_str s))],
      plain_cypher delete_source [tenant_param t, (lit ''source'', JStr (uuid_str s))],
      plain_cypher create_nodes [tenant_param t, (lit ''nodes'', JList (map (node_json X) (su_nodes g)))],
      plain_cypher create_edges [tenant_param t, (lit ''edges'', JList (map (edge_json X) (su_edges g)))]]"

definition neo4j_replace ::
  "graph_codec \<Rightarrow> 'd neo4j \<Rightarrow> uuid \<Rightarrow> uuid \<Rightarrow> subgraph \<Rightarrow> 'd \<Rightarrow> (exn + unit) \<times> 'd" where
  "neo4j_replace X D t s g d = execute_write D (replace_statements X t s g) d"

section \<open>Reading\<close>

definition timed_cypher :: "pystr \<Rightarrow> (pystr \<times> json) list \<Rightarrow> cypher" where
  "timed_cypher t ps = \<lparr>cy_text = t, cy_timeout = Some 5, cy_params = ps\<rparr>"

definition nodes_text :: "int \<Rightarrow> pystr" where
  "nodes_text depth = lit ''MATCH (seed:Entity {tenant_id:$tenant}) WHERE $q = '' @ [39, 39] @ lit '' OR toLower(seed.name) CONTAINS $q OR $q CONTAINS toLower(seed.name) ''
     @ lit ''WITH seed ORDER BY seed.id LIMIT $seed_limit MATCH p=(seed)-[:RELATION*0..'' @ str_int depth @ lit '']-(n:Entity) ''
     @ lit ''WHERE all(x IN nodes(p) WHERE x.tenant_id=$tenant) AND all(r IN relationships(p) WHERE r.tenant_id=$tenant) ''
     @ lit ''RETURN DISTINCT properties(n) AS node ORDER BY node.id LIMIT $limit''"

definition edges_text :: pystr where
  "edges_text = lit ''MATCH (a:Entity {tenant_id:$tenant})-[r:RELATION {tenant_id:$tenant}]->(b:Entity {tenant_id:$tenant}) ''
     @ lit ''WHERE a.id IN $ids AND b.id IN $ids RETURN properties(r) AS edge ORDER BY edge.id LIMIT 201''"

definition nodes_statement :: "graph_codec \<Rightarrow> uuid \<Rightarrow> pystr \<Rightarrow> int \<Rightarrow> int \<Rightarrow> cypher" where
  "nodes_statement X t query depth n = timed_cypher (nodes_text depth)
     [tenant_param t, (lit ''q'', JStr (gx_casefold X query)), (lit ''limit'', JInt (n + 1)),
      (lit ''seed_limit'', JInt (if query = [] then n + 1 else min 10 (n + 1)))]"

definition edges_statement :: "uuid \<Rightarrow> pystr list \<Rightarrow> cypher" where
  "edges_statement t ids = timed_cypher edges_text [tenant_param t, (lit ''ids'', jstrs ids)]"

definition neo4j_subgraph ::
  "graph_codec \<Rightarrow> 'd neo4j \<Rightarrow> uuid \<Rightarrow> pystr \<Rightarrow> int \<Rightarrow> int \<Rightarrow> 'd \<Rightarrow> (exn + subgraph) \<times> 'd" where
  "neo4j_subgraph X D t query depth n d =
     (if \<not> (0 \<le> depth \<and> depth \<le> 3) \<or> \<not> (1 \<le> n \<and> n \<le> 100)
      then (Inl (Py (ValueError (lit ''invalid graph bounds''))), d)
      else (case nj_run D (nodes_statement X t query depth n) d of
          (Inl e, d') \<Rightarrow> (Inl e, d')
        | (Inr rows, d') \<Rightarrow>
            (case res_map (row_value ''node'' (node_of_json X)) rows of
               Inl e \<Rightarrow> (Inl e, d')
             | Inr nodes \<Rightarrow>
                 (let kept = take (nat n) nodes in
                  case nj_run D (edges_statement t (map gn_id kept)) d' of
                    (Inl e, d'') \<Rightarrow> (Inl e, d'')
                  | (Inr rows', d'') \<Rightarrow>
                      (res_bind (res_map (row_value ''edge'' (edge_of_json X)) rows') (\<lambda>edges.
                         Inr \<lparr>su_nodes = kept, su_edges = take 200 edges,
                           su_truncated = (int (length nodes) > n \<or> length edges > 200)\<rparr>), d'')))))"

definition path_text :: "int \<Rightarrow> pystr" where
  "path_text depth = lit ''MATCH (a:Entity {tenant_id:$tenant, id:$source}), (b:Entity {tenant_id:$tenant, id:$target}) ''
     @ lit ''MATCH p=shortestPath((a)-[:RELATION*..'' @ str_int depth @ lit '']-(b)) ''
     @ lit ''WHERE all(n IN nodes(p) WHERE n.tenant_id=$tenant) AND all(r IN relationships(p) WHERE r.tenant_id=$tenant) ''
     @ lit ''RETURN [n IN nodes(p) | properties(n)] AS nodes, [r IN relationships(p) | properties(r)] AS edges LIMIT 1''"

definition path_statement :: "uuid \<Rightarrow> pystr \<Rightarrow> pystr \<Rightarrow> int \<Rightarrow> cypher" where
  "path_statement t a b depth = timed_cypher (path_text depth)
     [tenant_param t, (lit ''source'', JStr a), (lit ''target'', JStr b)]"

text \<open>\<open>Subgraph.model_validate(dict(row))\<close>: lists that are missing are empty.\<close>

definition records_of :: "string \<Rightarrow> (json \<Rightarrow> 'a option) \<Rightarrow> cypher_row \<Rightarrow> 'a list option" where
  "records_of key read r = (case map_of r (lit key) of
     None \<Rightarrow> Some []
   | Some (JList xs) \<Rightarrow> opt_all (map read xs)
   | Some _ \<Rightarrow> None)"

definition subgraph_of_row :: "graph_codec \<Rightarrow> cypher_row \<Rightarrow> exn + subgraph" where
  "subgraph_of_row X r = (case (records_of ''nodes'' (node_of_json X) r, records_of ''edges'' (edge_of_json X) r) of
     (Some ns, Some es) \<Rightarrow> Inr \<lparr>su_nodes = ns, su_edges = es, su_truncated = False\<rparr>
   | _ \<Rightarrow> Inl (validation_error ''Subgraph''))"

text \<open>\<open>single()\<close> gives the first record, or nothing; an empty record is false too.\<close>

definition neo4j_path ::
  "graph_codec \<Rightarrow> 'd neo4j \<Rightarrow> uuid \<Rightarrow> pystr \<Rightarrow> pystr \<Rightarrow> int \<Rightarrow> 'd \<Rightarrow> (exn + subgraph) \<times> 'd" where
  "neo4j_path X D t a b depth d =
     (if \<not> (1 \<le> depth \<and> depth \<le> 3) then (Inl (Py (ValueError (lit ''invalid path depth''))), d)
      else (case nj_run D (path_statement t a b depth) d of
          (Inl e, d') \<Rightarrow> (Inl e, d')
        | (Inr rows, d') \<Rightarrow>
            (case rows of
               [] \<Rightarrow> (Inr no_graph, d')
             | r # _ \<Rightarrow> (if r = [] then Inr no_graph else subgraph_of_row X r, d'))))"

section \<open>Properties\<close>

text \<open>Every text the three operations of a tenant may send.\<close>

definition store_texts :: "pystr list" where
  "store_texts = [lock_source, delete_source, create_nodes, create_edges, edges_text]
     @ map nodes_text [0, 1, 2, 3] @ map path_text [1, 2, 3]"

definition tenant_statement :: "uuid \<Rightarrow> cypher \<Rightarrow> bool" where
  "tenant_statement t s \<longleftrightarrow> cy_text s \<in> set store_texts \<and> map_of (cy_params s) (lit ''tenant'') = Some (JStr (uuid_str t))"

lemma small_int_cases: "0 \<le> d \<Longrightarrow> d \<le> 3 \<Longrightarrow> d \<in> {0, 1, 2, 3 :: int}"
  by auto

lemma replace_statements_tenant: "s \<in> set (replace_statements X t x g) \<Longrightarrow> tenant_statement t s"
  by (auto simp: replace_statements_def tenant_statement_def store_texts_def plain_cypher_def tenant_param_def)

lemma nodes_statement_tenant: "0 \<le> depth \<Longrightarrow> depth \<le> 3 \<Longrightarrow> tenant_statement t (nodes_statement X t q depth n)"
  using small_int_cases [of depth]
  by (auto simp: nodes_statement_def timed_cypher_def tenant_statement_def store_texts_def tenant_param_def)

lemma edges_statement_tenant: "tenant_statement t (edges_statement t ids)"
  by (simp add: edges_statement_def timed_cypher_def tenant_statement_def store_texts_def tenant_param_def)

lemma path_statement_tenant: "1 \<le> depth \<Longrightarrow> depth \<le> 3 \<Longrightarrow> tenant_statement t (path_statement t a b depth)"
  using small_int_cases [of depth]
  by (auto simp: path_statement_def timed_cypher_def tenant_statement_def store_texts_def tenant_param_def)

lemma run_all_cong:
  "(\<And>s d. s \<in> set ss \<Longrightarrow> nj_run A s d = nj_run B s d) \<Longrightarrow> run_all A ss d = run_all B ss d"
  by (induction ss arbitrary: d) (auto split: prod.splits sum.splits)

lemma write_attempts_cong:
  "(\<And>d. run_all A ss d = run_all B ss d) \<Longrightarrow> nj_transient A = nj_transient B
   \<Longrightarrow> write_attempts A n ss d = write_attempts B n ss d"
  by (induction n) (simp_all split: prod.split sum.split)

text \<open>
  C19. Whatever a caller asks for, the store sends Neo4j only statements out of twelve fixed
  texts, with the tenant of the call as their tenant parameter: two servers that answer those
  statements alike, and may do anything for any other text or tenant, give the same results and
  end in the same states. No question, name or identifier becomes part of a statement.
\<close>

theorem statements_are_fixed_and_scoped:
  assumes "\<And>s d. tenant_statement t s \<Longrightarrow> nj_run A s d = nj_run B s d"
    and "nj_transient A = nj_transient B" and "nj_retries A = nj_retries B"
  shows "neo4j_replace X A t x g d = neo4j_replace X B t x g d
    \<and> neo4j_subgraph X A t q depth n d = neo4j_subgraph X B t q depth n d
    \<and> neo4j_path X A t a b depth d = neo4j_path X B t a b depth d"
proof (intro conjI)
  have "run_all A (replace_statements X t x g) d = run_all B (replace_statements X t x g) d" for d
    using assms(1) replace_statements_tenant by (intro run_all_cong) blast
  then show "neo4j_replace X A t x g d = neo4j_replace X B t x g d"
    using assms(2,3) write_attempts_cong [of A _ B] by (simp add: neo4j_replace_def execute_write_def)
  have nodes: "nj_run A (nodes_statement X t q depth n) d = nj_run B (nodes_statement X t q depth n) d"
    if "0 \<le> depth \<and> depth \<le> 3" using assms(1) nodes_statement_tenant that by blast
  have edges: "nj_run A (edges_statement t ids) d = nj_run B (edges_statement t ids) d" for ids d
    using assms(1) edges_statement_tenant by blast
  show "neo4j_subgraph X A t q depth n d = neo4j_subgraph X B t q depth n d"
    using nodes by (simp add: neo4j_subgraph_def edges Let_def split: prod.split sum.split)
  have "nj_run A (path_statement t a b depth) d = nj_run B (path_statement t a b depth) d"
    if "1 \<le> depth \<and> depth \<le> 3" using assms(1) path_statement_tenant that by blast
  then show "neo4j_path X A t a b depth d = neo4j_path X B t a b depth d"
    by (simp add: neo4j_path_def)
qed

text \<open>
  C37. What the store writes of a node or an edge it reads back unchanged, whatever further
  properties the database gives with it, such as the tenant.
\<close>

theorem records_read_back:
  assumes "gx_uuid X (uuid_str (gn_source_id v)) = Some (gn_source_id v)"
    and "gx_uuid X (uuid_str (ge_source_id e)) = Some (ge_source_id e)"
    and "gx_time X (gx_time_text X (gn_extracted_at v)) = Some (gn_extracted_at v)"
    and "gx_time X (gx_time_text X (ge_extracted_at e)) = Some (ge_extracted_at e)"
    and "gx_float X (JFloat (gn_confidence v)) = Some (gn_confidence v)"
    and "gx_float X (JFloat (ge_confidence e)) = Some (ge_confidence e)"
  shows "(\<exists>kvs. node_json X v = JObj kvs \<and> node_of_json X (JObj (kvs @ properties)) = Some v)
    \<and> (\<exists>kvs. edge_json X e = JObj kvs \<and> edge_of_json X (JObj (kvs @ properties)) = Some e)"
proof -
  have "entity_kind_of (entity_kind_text k) = Some k" for k
    by (cases k) (simp_all add: entity_kind_of_def entity_kinds_def)
  moreover have "relation_kind_of (relation_kind_text k) = Some k" for k
    by (cases k) (simp_all add: relation_kind_of_def relation_kinds_def)
  ultimately show ?thesis
    using assms by (simp add: node_json_def edge_json_def node_of_json_def edge_of_json_def text_field_def)
qed

text \<open>A replacement is one transaction: it runs its four statements to the end from the state
  before, or changes nothing.\<close>

lemma write_attempts_cases:
  "write_attempts D n ss d = (r, d') \<Longrightarrow>
     (r = Inr () \<and> run_all D ss d = (Inr (), d')) \<or> (\<exists>e. r = Inl e \<and> fst (run_all D ss d) = Inl e \<and> d' = d)"
  by (induction n) (auto split: prod.splits sum.splits if_splits)

theorem replacing_a_graph_is_atomic:
  assumes "neo4j_replace X D t x g d = (r, d')"
  shows "(r = Inr () \<and> run_all D (replace_statements X t x g) d = (Inr (), d')) \<or> (\<exists>e. r = Inl e \<and> d' = d)"
  using write_attempts_cases assms by (fastforce simp: neo4j_replace_def execute_write_def)

text \<open>A read keeps its bounds, whatever Neo4j answers, and reports what it left out.\<close>

theorem read_graphs_are_bounded:
  assumes "neo4j_subgraph X D t q depth n d = (Inr g, d')"
  shows "0 \<le> depth \<and> depth \<le> 3 \<and> 1 \<le> n \<and> n \<le> 100 \<and> int (length (su_nodes g)) \<le> n \<and> length (su_edges g) \<le> 200"
  using assms by (auto simp: neo4j_subgraph_def Let_def split: if_splits prod.splits sum.splits)

section \<open>Concrete instances\<close>

definition sample_codec :: graph_codec where
  "sample_codec = \<lparr>gx_uuid = (\<lambda>s. if s = uuid_str 5 then Some 5 else None),
     gx_float = (\<lambda>j. case j of JFloat x \<Rightarrow> Some x | _ \<Rightarrow> None),
     gx_time_text = (\<lambda>t. lit ''2024-01-01T00:00:00Z''), gx_time = (\<lambda>s. Some 0), gx_casefold = (\<lambda>s. s)\<rparr>"

text \<open>A server that knows one node, and one that raises for statements of other tenants and texts.\<close>

definition one_node_server :: "nat neo4j" where
  "one_node_server = \<lparr>nj_run = (\<lambda>s d. (Inr (if cy_text s = nodes_text 1
       then [[(lit ''node'', node_json sample_codec (sample_node ''a''))]] else []), Suc d)),
     nj_transient = (\<lambda>e. False), nj_retries = 0\<rparr>"

definition strict_server :: "uuid \<Rightarrow> nat neo4j" where
  "strict_server t = one_node_server\<lparr>nj_run := (\<lambda>s d. if tenant_statement t s then nj_run one_node_server s d
     else (Inl (Py (OtherError (lit ''Neo4jError''))), d))\<rparr>"

theorem statements_are_fixed_and_scoped_witness:
  "neo4j_subgraph sample_codec (strict_server 9) 9 (lit ''a'') 1 5 0
     = (Inr \<lparr>su_nodes = [sample_node ''a''], su_edges = [], su_truncated = False\<rparr>, 2)
   \<and> fst (neo4j_subgraph sample_codec (strict_server 9) 8 (lit ''a'') 1 5 0) = Inl (Py (OtherError (lit ''Neo4jError'')))"
proof -
  have same: "nj_run (strict_server 9) s d = nj_run one_node_server s d" if "tenant_statement 9 s" for s d
    using that by (simp add: strict_server_def)
  have "neo4j_subgraph sample_codec one_node_server 9 (lit ''a'') 1 5 0
      = (Inr \<lparr>su_nodes = [sample_node ''a''], su_edges = [], su_truncated = False\<rparr>, 2)"
    by code_simp
  moreover have "\<not> tenant_statement 9 (nodes_statement sample_codec 8 (lit ''a'') 1 5)" by code_simp
  ultimately show ?thesis
    using statements_are_fixed_and_scoped [OF same, where X = sample_codec and q = "lit ''a''" and depth = 1 and n = 5 and d = 0]
    by (simp add: strict_server_def one_node_server_def neo4j_subgraph_def)
qed

theorem records_read_back_witness:
  "node_of_json sample_codec (node_json sample_codec (sample_node ''a'')) = Some (sample_node ''a'')"
proof -
  have laws: "gx_uuid sample_codec (uuid_str 5) = Some 5" "gx_time sample_codec (gx_time_text sample_codec 0) = Some 0"
    "gx_float sample_codec (JFloat 1) = Some 1"
    by (simp_all add: sample_codec_def)
  from records_read_back [of sample_codec "sample_node ''a''" "sample_edge ''1'' ''a'' ''b''" "[]"] laws
  show ?thesis by (auto simp: sample_node_def sample_edge_def)
qed

end
