(* ===== verification/Operator_Commands.thy ===== *)
theory Operator_Commands
  imports Smoke_Test Evaluation Graph_Neo4j
begin

text \<open>
  The commands an operator runs: the evaluation of extractions (\<open>knowledge_graph/evaluation.py\<close>),
  the retrieval baseline and benchmark (\<open>retrieval/cli.py\<close>, \<open>retrieval/benchmark.py\<close>), the whole
  evaluation (\<open>evaluation/cli.py\<close>), the catalog import (\<open>knowledge_graph/cli.py\<close>), the snapshot
  check (\<open>metadata/cli.py\<close>), the plan comparison (\<open>evaluation/query_plans.py\<close>) and the entry of
  the smoke test. Reading a file gives its text as an argument; writing the report is the value
  returned. A command that \<open>argparse\<close> refuses ends in \<open>Usage_Error\<close>.
\<close>

section \<open>Evaluation of extractions\<close>

record graph_case =
  gk_id :: pystr
  gk_gold :: extraction
  gk_text :: pystr

text \<open>What a case takes from outside: two \<open>uuid4\<close> and the clock.\<close>

record graph_stamp =
  gz_source :: uuid
  gz_tenant :: uuid
  gz_now :: real

definition graph_case_score ::
  "('p, 's, 'h, 'g) graph_service \<Rightarrow> bool \<Rightarrow> graph_stamp \<Rightarrow> graph_case
     \<Rightarrow> ('p, 's, 'h, 'g) graph_world \<Rightarrow> (exn + extraction_score) \<times> ('p, 's, 'h, 'g) graph_world" where
  "graph_case_score G configured z k w =
     (case res_bind (mk_extraction (gs_uni G) (gk_gold k)) (\<lambda>gold.
        res_bind (mk_extract_request \<lparr>er_source_id = gz_source z, er_source_name = gk_id k, er_text = gk_text k\<rparr>)
          (\<lambda>req. Inr (gold, req))) of
        Inl e \<Rightarrow> (Inl e, w)
      | Inr (gold, req) \<Rightarrow> extraction_case G configured (gz_now z) (gz_tenant z) req gold w)"

fun graph_case_scores ::
  "('p, 's, 'h, 'g) graph_service \<Rightarrow> bool \<Rightarrow> (pystr \<Rightarrow> exn + graph_case) \<Rightarrow> (nat \<Rightarrow> graph_stamp) \<Rightarrow> nat
     \<Rightarrow> pystr list \<Rightarrow> ('p, 's, 'h, 'g) graph_world
     \<Rightarrow> (exn + (pystr \<times> extraction_score) list) \<times> ('p, 's, 'h, 'g) graph_world" where
  "graph_case_scores G configured read stamps n [] w = (Inr [], w)"
| "graph_case_scores G configured read stamps n (l # ls) w =
     (if strip l = [] then graph_case_scores G configured read stamps (Suc n) ls w
      else (case read l of
          Inl e \<Rightarrow> (Inl e, w)
        | Inr k \<Rightarrow>
            (case graph_case_score G configured (stamps n) k w of
               (Inl e, w') \<Rightarrow> (Inl e, w')
             | (Inr score, w') \<Rightarrow>
                 (case graph_case_scores G configured read stamps (Suc n) ls w' of
                    (Inl e, w'') \<Rightarrow> (Inl e, w'')
                  | (Inr scores, w'') \<Rightarrow> (Inr ((gk_id k, score) # scores), w'')))))"

record graph_report =
  gv_mode :: pystr
  gv_real_model :: bool
  gv_cases :: "(pystr \<times> extraction_score) list"
  gv_limitation :: pystr

definition evaluate_graphs ::
  "('p, 's, 'h, 'g) graph_service \<Rightarrow> bool \<Rightarrow> (pystr \<Rightarrow> exn + graph_case) \<Rightarrow> (nat \<Rightarrow> graph_stamp) \<Rightarrow> pystr
     \<Rightarrow> ('p, 's, 'h, 'g) graph_world \<Rightarrow> (exn + graph_report) \<times> ('p, 's, 'h, 'g) graph_world" where
  "evaluate_graphs G configured read stamps text w =
     (case graph_case_scores G configured read stamps 0 (splitlines text) w of
        (Inl e, w') \<Rightarrow> (Inl e, w')
      | (Inr scores, w') \<Rightarrow> (Inr
          \<lparr>gv_mode = (if configured then lit ''configured_model'' else lit ''gold_replay_schema_validation''),
           gv_real_model = configured, gv_cases = scores,
           gv_limitation = lit ''3 small fixtures; expand with real documents and Chinese examples''\<rparr>, w'))"

section \<open>The offline retrieval service\<close>

text \<open>\<open>MetricRetrievalService\<close> with its default arguments over the in-memory repository.\<close>

definition baseline_settings :: retrieval_settings where
  "baseline_settings = \<lparr>se_embedding = Hashing, se_dimensions = 64, se_embedding_url = [],
     se_embedding_key = [], se_embedding_model = [], se_reranker = No_Reranker, se_reranker_url = [],
     se_reranker_key = [], se_reranker_model = [], se_timeout = 20, se_attempts = 3, se_chunk_max = 1200,
     se_chunk_overlap = 120, se_result_limit = 5, se_rrf_k = 60, se_cache_ttl = 300,
     se_min_lexical = 8 / 100, se_min_vector = 26 / 100, se_limits =
       \<lparr>max_markdown_bytes = 2000000, max_pdf_bytes = 10000000, max_pdf_pages = 100\<rparr>\<rparr>"

definition baseline_service :: "retrieval_env \<Rightarrow> (memory_store, provider_state) retrieval_service" where
  "baseline_service E = create_retrieval E baseline_settings (memory_repo (re_uni E))"

definition baseline_title :: pystr where
  "baseline_title = lit ''Northwind '' @ [38646, 21806, 25351, 26631, 21475, 24452]"

record metric_document =
  md_name :: pystr
  md_bytes :: "nat list"

definition document_ingestion :: "uuid \<Rightarrow> pystr \<Rightarrow> metric_document \<Rightarrow> ingestion" where
  "document_ingestion t title d = \<lparr>in_tenant = t, in_title = title, in_source_name = md_name d,
     in_source_type = MARKDOWN, in_payload = md_bytes d\<rparr>"

definition timed_cases :: "(nat \<Rightarrow> real \<times> real) \<Rightarrow> gold_case list \<Rightarrow> (gold_case \<times> real \<times> real) list" where
  "timed_cases clock gs = map (\<lambda>(i, g). (g, clock i)) (enumerate 0 gs)"

text \<open>The report of \<open>evaluate_modes\<close>: the dataset, its size, one report per mode.\<close>

definition baseline_modes :: "retrieval_mode list" where
  "baseline_modes = [Lexical_Mode, Vector_Mode, Hybrid]"

definition baseline_report ::
  "('s, 'h) retrieval_service \<Rightarrow> uuid \<Rightarrow> (nat \<Rightarrow> real \<times> real) \<Rightarrow> pystr \<Rightarrow> gold_case list
     \<Rightarrow> ('s, 'h) retrieval_state \<Rightarrow> (exn + pystr \<times> nat \<times> mode_report list) \<times> ('s, 'h) retrieval_state" where
  "baseline_report S t clock version gs st =
     (case evaluate_modes S t (timed_cases clock gs) baseline_modes st of
        (Inl e, st') \<Rightarrow> (Inl e, st')
      | (Inr rs, st') \<Rightarrow> (Inr (version, length gs, rs), st'))"

text \<open>\<open>retrieval/cli.py\<close>\<close>

definition retrieval_command ::
  "retrieval_env \<Rightarrow> mint \<Rightarrow> (nat \<Rightarrow> real \<times> real) \<Rightarrow> provider_state \<Rightarrow> (pystr \<Rightarrow> exn + gold_case)
     \<Rightarrow> metric_document \<Rightarrow> pystr \<Rightarrow> pystr \<Rightarrow> tool_error + pystr \<times> nat \<times> mode_report list" where
  "retrieval_command E m clock h read document cases version =
     (let t = 6 in
      case ingest (baseline_service E) m (document_ingestion t baseline_title document)
          (new_service baseline_settings empty_store h) of
        (Inl e, _) \<Rightarrow> Inl (Raised e)
      | (Inr _, st) \<Rightarrow> raising (res_bind (load_cases read cases)
          (\<lambda>gs. fst (baseline_report (baseline_service E) t clock version gs st))))"

section \<open>The benchmark\<close>

definition benchmark_modes :: "retrieval_mode list" where
  "benchmark_modes = [Lexical_Mode, Vector_Mode, Hybrid, Hybrid_Rerank]"

fun benchmark_all ::
  "('s, provider_state) retrieval_service \<Rightarrow> retrieval_settings \<Rightarrow> real option \<Rightarrow> real option \<Rightarrow> uuid
     \<Rightarrow> (gold_case \<times> real \<times> real) list \<Rightarrow> (retrieval_mode \<times> real list) list
     \<Rightarrow> ('s, provider_state) retrieval_state
     \<Rightarrow> (exn + benchmark_report list) \<times> ('s, provider_state) retrieval_state" where
  "benchmark_all S c per_million per_thousand t gs [] st = (Inr [], st)"
| "benchmark_all S c per_million per_thousand t gs ((mode, latencies) # ms) st =
     (case benchmark_mode S c per_million per_thousand t gs latencies mode st of
        (Inl e, st') \<Rightarrow> (Inl e, st')
      | (Inr r, st') \<Rightarrow>
          (case benchmark_all S c per_million per_thousand t gs ms st' of
             (Inl e, st'') \<Rightarrow> (Inl e, st'')
           | (Inr rs, st'') \<Rightarrow> (Inr (r # rs), st'')))"

record benchmark_result =
  bm_reports :: "benchmark_report list"
  bm_answer_accuracy :: "real option"
  bm_answer_note :: pystr
  bm_cost :: "real option"
  bm_cost_note :: pystr

definition benchmark ::
  "('s, provider_state) retrieval_service \<Rightarrow> retrieval_settings \<Rightarrow> real option \<Rightarrow> real option \<Rightarrow> uuid
     \<Rightarrow> (gold_case \<times> real \<times> real) list \<Rightarrow> (retrieval_mode \<times> real list) list
     \<Rightarrow> ('s, provider_state) retrieval_state
     \<Rightarrow> (exn + benchmark_result) \<times> ('s, provider_state) retrieval_state" where
  "benchmark S c per_million per_thousand t gs ms st =
     (case benchmark_all S c per_million per_thousand t gs ms st of
        (Inl e, st') \<Rightarrow> (Inl e, st')
      | (Inr rs, st') \<Rightarrow> (Inr \<lparr>bm_reports = rs, bm_answer_accuracy = None,
          bm_answer_note = lit ''retrieval-only run; requires separate human/LLM answer grading'',
          bm_cost = None,
          bm_cost_note = lit ''per-mode estimates require observed usage and explicit provider pricing''\<rparr>, st'))"

text \<open>The offline profile: hashing vectors, the overlap reranker, everything else as configured.\<close>

definition offline_settings :: "retrieval_settings \<Rightarrow> retrieval_settings" where
  "offline_settings c = c\<lparr>se_embedding := Hashing, se_dimensions := 64, se_reranker := Overlap\<rparr>"

definition offline_profile :: "(pystr \<times> pystr) list" where
  "offline_profile = [(lit ''embedding'', lit ''hashing:64''), (lit ''reranker'', lit ''overlap-test-baseline''),
     (lit ''repository'', lit ''in-memory; not PostgreSQL performance evidence'')]"

text \<open>\<open>RetrievalSettings().model_dump(exclude=...)\<close>: \<open>dump\<close> are all fields with their texts.\<close>

definition configured_profile :: "(pystr \<times> pystr) list \<Rightarrow> (pystr \<times> pystr) list" where
  "configured_profile dump = filter (\<lambda>(k, v). \<not> contains (lit ''url'') k)
     (filter (\<lambda>(k, v). k \<notin> {lit ''embedding_api_key'', lit ''reranker_api_key''}) dump)"

text \<open>\<open>retrieval/benchmark.py\<close>, offline and with the configured providers.\<close>

definition measured ::
  "(pystr \<times> pystr) list \<Rightarrow> (exn + benchmark_result) \<times> 'st \<Rightarrow> tool_error + (pystr \<times> pystr) list \<times> benchmark_result" where
  "measured profile run = raising (res_bind (fst run) (\<lambda>b. Inr (profile, b)))"

definition benchmark_offline ::
  "retrieval_env \<Rightarrow> mint \<Rightarrow> (nat \<Rightarrow> real \<times> real) \<Rightarrow> provider_state \<Rightarrow> (exn + retrieval_settings) \<Rightarrow> (exn + gold_case list)
     \<Rightarrow> metric_document option \<Rightarrow> uuid \<Rightarrow> real option \<Rightarrow> real option \<Rightarrow> (retrieval_mode \<Rightarrow> real list)
     \<Rightarrow> tool_error + (pystr \<times> pystr) list \<times> benchmark_result" where
  "benchmark_offline E m clock h loaded cases document t per_million per_thousand latencies =
     (case document of
        None \<Rightarrow> Inl (Usage_Error (lit ''offline mode requires --document''))
      | Some d \<Rightarrow> res_bind (raising loaded) (\<lambda>c0.
          (let c = offline_settings c0; S = create_retrieval E c (memory_repo (re_uni E)) in
           case ingest S m (document_ingestion t (lit ''Northwind'') d) (new_service c empty_store h) of
             (Inl e, _) \<Rightarrow> Inl (Raised e)
           | (Inr _, st) \<Rightarrow> res_bind (raising cases) (\<lambda>gs. measured offline_profile
               (benchmark S c per_million per_thousand t (timed_cases clock gs)
                 (map (\<lambda>mode. (mode, latencies mode)) benchmark_modes) st)))))"

definition benchmark_configured ::
  "('s, provider_state) retrieval_service \<Rightarrow> retrieval_settings \<Rightarrow> (pystr \<times> pystr) list
     \<Rightarrow> (nat \<Rightarrow> real \<times> real) \<Rightarrow> (exn + gold_case list) \<Rightarrow> uuid \<Rightarrow> real option \<Rightarrow> real option
     \<Rightarrow> (retrieval_mode \<Rightarrow> real list) \<Rightarrow> ('s, provider_state) retrieval_state
     \<Rightarrow> tool_error + (pystr \<times> pystr) list \<times> benchmark_result" where
  "benchmark_configured S c dump clock cases t per_million per_thousand latencies st =
     res_bind (raising cases) (\<lambda>gs. measured (configured_profile dump)
       (benchmark S c per_million per_thousand t (timed_cases clock gs)
         (map (\<lambda>mode. (mode, latencies mode)) benchmark_modes) st))"

section \<open>The whole evaluation\<close>

record 'p evaluation_arguments =
  ea_mode :: eval_mode
  ea_external :: bool
  ea_prices :: "real option \<times> real option"
  ea_sql_cases :: "exn + nl2sql_gold_case list"
  ea_dangerous :: "exn + dangerous_case list"
  ea_rag_cases :: "exn + gold_case list"
  ea_document :: metric_document
  ea_snapshot :: "exn + schema_snapshot"
  ea_business :: "exn + business_settings"
  ea_client :: "exn + ('p llm_provider \<times> client_config)"
  ea_names :: "pystr \<times> pystr"

text \<open>Clocks, identifiers and stamps of the cases.\<close>

record evaluation_inputs =
  ei_mint :: mint
  ei_retrieval_clock :: "nat \<Rightarrow> real \<times> real"
  ei_provider :: provider_state
  ei_case :: "nat \<Rightarrow> case_inputs"
  ei_clock :: "nat \<Rightarrow> int \<times> int"
  ei_now :: real

definition usage :: "bool \<Rightarrow> string \<Rightarrow> tool_error + unit" where
  "usage refused m = (if refused then Inl (Usage_Error (lit m)) else Inr ())"

definition evaluation_call ::
  "retrieval_env \<Rightarrow> evaluation_inputs \<Rightarrow> 'p evaluation_arguments \<Rightarrow> tool_error + eval_call" where
  "evaluation_call E i a =
     res_bind (raising (ea_sql_cases a)) (\<lambda>cases.
     res_bind (raising (ea_dangerous a)) (\<lambda>dangerous.
     res_bind (usage (length cases < 50) ''P10 requires at least 50 NL2SQL cases'') (\<lambda>_.
     res_bind (raising (ea_rag_cases a)) (\<lambda>rag.
     res_bind (usage (length rag < 20) ''P10 requires at least 20 RAG cases'') (\<lambda>_.
     res_bind (usage (ea_mode a = Configured_Model \<and> \<not> ea_external a)
       ''configured_model requires --allow-external-model'') (\<lambda>_.
     (case ingest (baseline_service E) (ei_mint i) (document_ingestion 16 baseline_title (ea_document a))
         (new_service baseline_settings empty_store (ei_provider i)) of
        (Inl e, _) \<Rightarrow> Inl (Raised e)
      | (Inr _, st) \<Rightarrow>
          res_bind (raising (fst (baseline_report (baseline_service E) 16 (ei_retrieval_clock i)
            (lit ''northwind-rag-gold-v1'') rag st))) (\<lambda>report.
          res_bind (raising (ea_snapshot a)) (\<lambda>snapshot.
          res_bind (raising (res_bind (ea_business a) config_from_settings)) (\<lambda>config.
          Inr \<lparr>ev_dangerous = map (\<lambda>(n, c). (ei_clock i n, c)) (enumerate 0 dangerous),
            ev_cases = map (\<lambda>(n, c). (ei_case i n, c)) (enumerate 0 cases),
            ev_snapshot = snapshot, ev_config = config, ev_rag = report,
            ev_dataset = lit ''northwind-p10-v1'', ev_prices = ea_prices a, ev_now = ei_now i\<rparr>))))))))))"

definition evaluation_command ::
  "eval_deps \<Rightarrow> retrieval_env \<Rightarrow> evaluation_inputs \<Rightarrow> 'p evaluation_arguments \<Rightarrow> 'p
     \<Rightarrow> (tool_error + eval_report) \<times> 'p" where
  "evaluation_command D E i a p =
     (case evaluation_call E i a of
        Inl e \<Rightarrow> (Inl e, p)
      | Inr call \<Rightarrow>
          (if ea_mode a = Scripted_Gold_Replay then (raising (evaluate_scripted D call), p)
           else (case ea_client a of
               Inl e \<Rightarrow> (Inl (Raised e), p)
             | Inr client \<Rightarrow>
                 (case evaluate_configured D (Some client) (Some (fst (ea_names a))) (Some (snd (ea_names a))) call p of
                    (r, p') \<Rightarrow> (raising r, p')))))"

section \<open>The catalog import\<close>

record 'd import_events =
  im_server :: 'd
  im_closed :: nat

text \<open>The store is closed whether the import succeeds or not; reading the catalog comes before.\<close>

definition import_command ::
  "('p, 's, 'h, 'd) graph_service \<Rightarrow> graph_codec \<Rightarrow> 'd neo4j \<Rightarrow> real \<Rightarrow> (exn + schema_snapshot) \<Rightarrow> uuid
     \<Rightarrow> ('p, 's, 'h, 'd) graph_world \<Rightarrow> (exn + nat \<times> nat \<times> uuid) \<times> 'd import_events" where
  "import_command G X D now snapshot t w =
     (case res_bind snapshot (metadata_extraction (gs_uni G) (gs_uuid5 G) t) of
        Inl e \<Rightarrow> (Inl e, \<lparr>im_server = gw_graphs w, im_closed = 0\<rparr>)
      | Inr (req, x) \<Rightarrow>
          (case neo4j_setup D (gw_graphs w) of
             (Inl e, d) \<Rightarrow> (Inl e, \<lparr>im_server = d, im_closed = 1\<rparr>)
           | (Inr _, d) \<Rightarrow>
               (case persist (G\<lparr>gs_replace := neo4j_replace X D\<rparr>) now t req x (w\<lparr>gw_graphs := d\<rparr>) of
                  (r, w') \<Rightarrow> (res_bind r (\<lambda>g. Inr (length (su_nodes g), length (su_edges g), er_source_id req)),
                    \<lparr>im_server = gw_graphs w', im_closed = 1\<rparr>))))"

section \<open>The snapshot check\<close>

text \<open>With \<open>--check\<close> the stored JSON is compared; without, the rendered snapshot is printed.\<close>

datatype snapshot_outcome = Snapshot_Current | Snapshot_Printed json

definition snapshot_command ::
  "(exn + schema_snapshot) \<Rightarrow> (pystr \<times> (exn + json)) option \<Rightarrow> tool_error + snapshot_outcome" where
  "snapshot_command inspected check =
     res_bind (raising inspected) (\<lambda>snapshot. case check of
       None \<Rightarrow> Inr (Snapshot_Printed (snapshot_json snapshot))
     | Some (path, stored) \<Rightarrow> res_bind (raising stored) (\<lambda>expected.
         if \<not> py_eq expected (snapshot_json snapshot)
         then Inl (Exit_With (lit ''schema snapshot is stale: '' @ path)) else Inr Snapshot_Current))"

section \<open>The plan comparison\<close>

text \<open>
  \<open>pl_run\<close> is one \<open>execute\<close> with its parameters and the rows it fetches; the transaction is rolled
  back at the end, whatever happens.
\<close>

record 'd plan_database =
  pl_open :: "exn + unit"
  pl_run :: "pystr \<times> int list \<Rightarrow> 'd \<Rightarrow> (exn + json) \<times> 'd"

record plan_comparison =
  pc_rows :: int
  pc_scope :: pystr
  pc_before :: json
  pc_after :: json
  pc_delta :: real

definition plan_query :: pystr where
  "plan_query = lit ''EXPLAIN (ANALYZE, BUFFERS, FORMAT JSON) SELECT id, ''
     @ lit ''count(*) OVER () AS matching_rows FROM plan_jobs ''
     @ lit ''WHERE tenant = 1 AND owner_id = 1 ''
     @ lit ''ORDER BY created_at DESC, id DESC LIMIT 20''"

definition plan_setup :: "int \<Rightarrow> (pystr \<times> int list) list" where
  "plan_setup rows = [
     (lit ''SET LOCAL statement_timeout = '' @ [39] @ lit ''30s'' @ [39], []),
     (lit ''CREATE TEMP TABLE plan_jobs (id bigint, tenant int, owner_id int, ''
       @ lit ''status text, created_at timestamptz)'', []),
     (lit ''INSERT INTO plan_jobs SELECT n, n %% 20, n %% 200, ''
       @ lit ''CASE WHEN n %% 3 = 0 THEN '' @ [39] @ lit ''FAILED'' @ [39] @ lit '' ELSE '' @ [39] @ lit ''COMPLETED'' @ [39]
       @ lit '' END, '' @ lit ''now() - n * interval '' @ [39] @ lit ''1 second'' @ [39]
       @ lit '' FROM generate_series(1, %s) n'', [rows]),
     (lit ''ANALYZE plan_jobs'', [])]"

definition plan_index :: "(pystr \<times> int list) list" where
  "plan_index = [(lit ''CREATE INDEX ON plan_jobs (tenant, owner_id, created_at DESC, id DESC)'', []),
     (lit ''ANALYZE plan_jobs'', [])]"

definition plan_execute :: "'d plan_database \<Rightarrow> pystr \<times> int list \<Rightarrow> 'd \<Rightarrow> (tool_error + json) \<times> 'd" where
  "plan_execute D q d = (case pl_run D q d of (r, d') \<Rightarrow> (raising r, d'))"

fun plan_statements :: "'d plan_database \<Rightarrow> (pystr \<times> int list) list \<Rightarrow> 'd \<Rightarrow> (tool_error + unit) \<times> 'd" where
  "plan_statements D [] d = (Inr (), d)"
| "plan_statements D (q # qs) d = tool_bind (plan_execute D q) (\<lambda>_. plan_statements D qs) d"

text \<open>\<open>fetchone()[0][0]\<close>, and the difference of two numbers.\<close>

fun first_item :: "json \<Rightarrow> tool_error + json" where
  "first_item (JList (x # xs)) = Inr x"
| "first_item (JList []) = Inl (Raised (Py IndexError))"
| "first_item (JStr (c # cs)) = Inr (JStr [c])"
| "first_item (JStr []) = Inl (Raised (Py IndexError))"
| "first_item (JObj kvs) = Inl (Raised (Py KeyError))"
| "first_item _ = Inl (Raised (Py TypeError))"

definition fetched_plan :: "json \<Rightarrow> tool_error + json" where
  "fetched_plan rows = res_bind (case rows of JList (r # _) \<Rightarrow> first_item r | _ \<Rightarrow> Inl (Raised (Py TypeError))) first_item"

definition json_number :: "json \<Rightarrow> tool_error + real" where
  "json_number j = (case num_value j of None \<Rightarrow> Inl (Raised (Py TypeError)) | Some x \<Rightarrow> Inr x)"

definition plan_delta :: "json \<Rightarrow> json \<Rightarrow> tool_error + real" where
  "plan_delta before after =
     res_bind (subscript after ''Execution Time'') (\<lambda>a. res_bind (subscript before ''Execution Time'') (\<lambda>b.
     res_bind (json_number a) (\<lambda>x. res_bind (json_number b) (\<lambda>y. Inr (x - y)))))"

definition plan_body :: "'d plan_database \<Rightarrow> int \<Rightarrow> 'd \<Rightarrow> (tool_error + plan_comparison) \<times> 'd" where
  "plan_body D rows =
     tool_bind (plan_statements D (plan_setup rows)) (\<lambda>_.
     tool_bind (plan_execute D (plan_query, [])) (\<lambda>b. tool_bind (tool_lift (fetched_plan b)) (\<lambda>before.
     tool_bind (plan_statements D plan_index) (\<lambda>_.
     tool_bind (plan_execute D (plan_query, [])) (\<lambda>a. tool_bind (tool_lift (fetched_plan a)) (\<lambda>after.
     tool_lift (res_bind (plan_delta before after) (\<lambda>x. Inr \<lparr>pc_rows = rows,
       pc_scope = lit ''synthetic temporary tables; not production evidence'',
       pc_before = before, pc_after = after, pc_delta = x\<rparr>))))))))"

definition compare_plans :: "'d plan_database \<Rightarrow> int \<Rightarrow> 'd \<Rightarrow> (tool_error + plan_comparison) \<times> 'd" where
  "compare_plans D rows d =
     (case pl_open D of Inl e \<Rightarrow> (Inl (Raised e), d) | Inr _ \<Rightarrow> (fst (plan_body D rows d), d))"

definition plans_command :: "'d plan_database \<Rightarrow> int \<Rightarrow> 'd \<Rightarrow> (tool_error + plan_comparison) \<times> 'd" where
  "plans_command D rows d =
     (if \<not> (1000 \<le> rows \<and> rows \<le> 1000000)
      then (Inl (Usage_Error (lit ''rows must be between 1000 and 1000000'')), d)
      else compare_plans D rows d)"

section \<open>The smoke test's entry\<close>

definition smoke_command ::
  "'c smoke_client \<Rightarrow> pystr \<Rightarrow> pystr \<Rightarrow> env_file \<Rightarrow> 'c \<Rightarrow> (tool_error + smoke_report) \<times> 'c" where
  "smoke_command C base web config c = smoke C (rstrip_char 47 base) (rstrip_char 47 web) config c"

section \<open>Properties\<close>

lemma raising_Inr [simp]: "raising r = Inr x \<longleftrightarrow> r = Inr x"
  by (auto simp: raising_def split: sum.splits)

lemma usage_Inr [simp]: "usage refused m = Inr u \<longleftrightarrow> \<not> refused"
  by (simp add: usage_def)

text \<open>
  The evaluation runs at its full size and never calls an external model unasked: a prepared call
  has at least 50 questions and the 20 retrieval cases were there, and in \<open>configured_model\<close> mode
  the flag was given.
\<close>

lemma evaluation_call_full:
  assumes "evaluation_call E i a = Inr call"
  shows "50 \<le> length (ev_cases call) \<and> (\<exists>rag. ea_rag_cases a = Inr rag \<and> 20 \<le> length rag)
    \<and> (ea_mode a = Configured_Model \<longrightarrow> ea_external a) \<and> ev_prices call = ea_prices a"
proof -
  obtain r st where run: "ingest (baseline_service E) (ei_mint i) (document_ingestion 16 baseline_title (ea_document a))
      (new_service baseline_settings empty_store (ei_provider i)) = (r, st)" by fastforce
  from assms show ?thesis by (cases r) (auto simp: evaluation_call_def not_less run)
qed

theorem external_models_need_consent:
  assumes "\<not> ea_external a" and "ea_mode a = Configured_Model"
  shows "\<exists>e. evaluation_command D E i a p = (Inl e, p)"
proof (cases "evaluation_call E i a")
  case (Inr call)
  from evaluation_call_full [OF this] assms show ?thesis by simp
qed (simp add: evaluation_command_def)

text \<open>
  The replay of the gold extractions measures the validation and not a model: a case that is not
  refused scores all ones, or all zeros where the gold extraction has no relation.
\<close>

lemma finite_triples: "triples U x = Inr ts \<Longrightarrow> finite ts"
  by (auto simp: triples_eq)

lemma replayed_score:
  assumes "graph_case_score G False z k w = (Inr s, w')"
  shows "s \<in> {\<lparr>xs_precision = 1, xs_recall = 1, xs_f1 = 1\<rparr>, \<lparr>xs_precision = 0, xs_recall = 0, xs_f1 = 0\<rparr>}"
proof -
  from assms obtain gold ts where "triples (gs_uni G) gold = Inr ts" "s = extraction_score_of ts ts"
    by (auto simp: graph_case_score_def extraction_case_def split: sum.splits prod.splits)
  with finite_triples [of "gs_uni G" gold ts] show ?thesis
    by (auto simp: extraction_score_of_def Let_def)
qed

lemma replayed_scores:
  "graph_case_scores G False read stamps n ls w = (Inr scores, w') \<Longrightarrow> (i, s) \<in> set scores \<Longrightarrow>
     s \<in> {\<lparr>xs_precision = 1, xs_recall = 1, xs_f1 = 1\<rparr>, \<lparr>xs_precision = 0, xs_recall = 0, xs_f1 = 0\<rparr>}"
proof (induction ls arbitrary: n w scores)
  case (Cons l ls)
  show ?case
  proof (cases "strip l = []")
    case True
    with Cons.prems(1) have "graph_case_scores G False read stamps (Suc n) ls w = (Inr scores, w')" by simp
    from Cons.IH [OF this Cons.prems(2)] show ?thesis .
  next
    case False
    with Cons.prems(1) obtain k s1 w1 scores1 where
      one: "graph_case_score G False (stamps n) k w = (Inr s1, w1)" and
      rest: "graph_case_scores G False read stamps (Suc n) ls w1 = (Inr scores1, w')"
        "scores = (gk_id k, s1) # scores1"
      by (auto split: sum.splits prod.splits)
    from Cons.prems(2) consider "s = s1" | "(i, s) \<in> set scores1" unfolding rest(2) by auto
    then show ?thesis
      by cases (use replayed_score [OF one] Cons.IH [OF rest(1)] in auto)
  qed
qed simp

theorem gold_replays_score_trivially:
  assumes "evaluate_graphs G False read stamps text w = (Inr r, w')"
  shows "\<not> gv_real_model r \<and> gv_mode r = lit ''gold_replay_schema_validation''
    \<and> (\<forall>(i, s) \<in> set (gv_cases r). (xs_precision s, xs_recall s, xs_f1 s) \<in> {(1, 1, 1), (0, 0, 0)})"
proof -
  from assms obtain scores where run: "graph_case_scores G False read stamps 0 (splitlines text) w = (Inr scores, w')"
    and r: "\<not> gv_real_model r" "gv_mode r = lit ''gold_replay_schema_validation''" "gv_cases r = scores"
    by (auto simp: evaluate_graphs_def split: sum.splits prod.splits)
  from replayed_scores [OF run] r show ?thesis by fastforce
qed

text \<open>The plan comparison leaves the database as it was, and never starts outside its bounds.\<close>

theorem plans_leave_no_trace:
  "snd (plans_command D rows d) = d
   \<and> (fst (plans_command D rows d) = Inr r \<longrightarrow> 1000 \<le> rows \<and> rows \<le> 1000000 \<and> pc_rows r = rows)"
  by (auto simp: plans_command_def compare_plans_def plan_body_def tool_bind_def tool_lift_def
      split: sum.splits prod.splits)

text \<open>
  A catalog import closes the store it opened exactly once, whatever fails, and does not open it
  for a catalog that cannot be extracted; what it reports as imported is what it sent in one write
  transaction.
\<close>

theorem imports_close_their_store:
  assumes "import_command G X D now snapshot t w = (r, ev)"
  shows "im_closed ev = (if isl (res_bind snapshot (metadata_extraction (gs_uni G) (gs_uuid5 G) t)) then 0 else 1)
    \<and> (\<forall>n m s. r = Inr (n, m, s) \<longrightarrow> (\<exists>g d. neo4j_setup D (gw_graphs w) = (Inr (), d)
        \<and> neo4j_replace X D t s g d = (Inr (), im_server ev) \<and> n = length (su_nodes g) \<and> m = length (su_edges g)))"
proof (cases "res_bind snapshot (metadata_extraction (gs_uni G) (gs_uuid5 G) t)")
  case (Inl e)
  with assms show ?thesis by (auto simp: import_command_def)
next
  case (Inr y)
  obtain req x where y: "y = (req, x)" by (cases y)
  obtain u d where st: "neo4j_setup D (gw_graphs w) = (u, d)" by (cases "neo4j_setup D (gw_graphs w)")
  show ?thesis
  proof (cases u)
    case (Inl e)
    with assms Inr y st show ?thesis by (auto simp: import_command_def)
  next
    case ok: (Inr unit)
    let ?G = "G\<lparr>gs_replace := neo4j_replace X D\<rparr>"
    obtain z w' where run: "persist ?G now t req x (w\<lparr>gw_graphs := d\<rparr>) = (z, w')"
      by (cases "persist ?G now t req x (w\<lparr>gw_graphs := d\<rparr>)")
    with assms Inr y st ok have ev: "im_closed ev = 1" "im_server ev = gw_graphs w'"
      "r = res_bind z (\<lambda>g. Inr (length (su_nodes g), length (su_edges g), er_source_id req))"
      by (auto simp: import_command_def)
    have "neo4j_replace X D t (er_source_id req) g d = (Inr (), gw_graphs w')" if "z = Inr g" for g
      using run that by (auto simp: persist_def split: sum.splits prod.splits if_splits)
    with ev Inr ok st show ?thesis by auto
  qed
qed

end
