(* ===== verification/Portfolio_Evidence.thy ===== *)
theory Portfolio_Evidence
  imports Smoke_Test
begin

text \<open>
  The evidence check of \<open>scripts/verify-portfolio-evidence.py\<close>: the files that must exist, the
  thresholds on the two stored reports and the sections of the README. What the file system holds is
  an argument: whether a path is a file, its text, and \<open>json.loads\<close> of a text.
\<close>

section \<open>The evidence\<close>

definition required_files :: "pystr list" where
  "required_files = map lit [
     ''README.md'',
     ''docker-compose.full.yml'',
     ''platform-api/Dockerfile'',
     ''agent-service/Dockerfile'',
     ''web/Dockerfile'',
     ''performance/k6/p11-platform-and-sse.js'',
     ''docs/stage-11-observability-deployment.md'',
     ''docs/stage-12-portfolio-handoff.md'',
     ''docs/demo-script.md'',
     ''docs/resume-evidence.md'',
     ''docs/adr/0001-java-python-boundary.md'',
     ''docs/adr/0002-no-arbitrary-code-execution.md'',
     ''docs/adr/0003-hybrid-metric-retrieval.md'',
     ''evaluation/northwind/p10-offline-baseline.json'',
     ''evaluation/p11-local-performance.json'']"

definition required_headings :: "pystr list" where
  "required_headings = [
     lit ''## 30 '' @ [31186, 20171, 32461],
     lit ''## '' @ [26550, 26500, 19982, 35831, 27714, 26102, 24207],
     lit ''## '' @ [23433, 20840, 36793, 30028],
     lit ''## '' @ [21487, 22797, 29616, 35780, 27979],
     lit ''## '' @ [19977, 20010, 28436, 31034, 38382, 39064],
     lit ''## '' @ [24050, 30693, 38480, 21046],
     lit ''## '' @ [28789, 24863, 19982, 29420, 31435, 23454, 29616, 22768, 26126]]"

record evidence_tree =
  ev_is_file :: "pystr \<Rightarrow> bool"
  ev_text :: "pystr \<Rightarrow> exn + pystr"
  ev_loads :: "pystr \<Rightarrow> exn + json"

text \<open>The three counts the command prints.\<close>

record evidence_counts =
  vc_nl2sql :: json
  vc_dangerous :: json
  vc_rag :: json

section \<open>The checks\<close>

definition asserted :: "bool \<Rightarrow> tool_error + unit" where
  "asserted b = (if b then Inr () else Inl (Raised (Py AssertionError)))"

text \<open>\<open>j >= n\<close> and \<open>j > n\<close>: only numbers and booleans compare with an integer.\<close>

definition compared :: "(real \<Rightarrow> bool) \<Rightarrow> json \<Rightarrow> tool_error + bool" where
  "compared P j = (case num_value j of None \<Rightarrow> Inl (Raised (Py TypeError)) | Some x \<Rightarrow> Inr (P x))"

definition asserted_number :: "(real \<Rightarrow> bool) \<Rightarrow> json \<Rightarrow> tool_error + unit" where
  "asserted_number P j = res_bind (compared P j) asserted"

definition stored_json :: "evidence_tree \<Rightarrow> string \<Rightarrow> tool_error + json" where
  "stored_json T path = raising (res_bind (ev_text T (lit path)) (ev_loads T))"

text \<open>The offline report: scripted, no real model, enough cases of every kind.\<close>

definition report_counts :: "json \<Rightarrow> tool_error + evidence_counts" where
  "report_counts report =
     res_bind (subscript report ''metrics'') (\<lambda>metrics.
     res_bind (subscript report ''evaluation_mode'') (\<lambda>mode.
     res_bind (asserted (py_eq mode (JStr (lit ''scripted_gold_replay'')))) (\<lambda>_.
     res_bind (subscript report ''real_model_evaluation'') (\<lambda>real_model.
     res_bind (asserted (real_model = JBool False)) (\<lambda>_.
     res_bind (subscript metrics ''nl2sql_cases'') (\<lambda>n.
     res_bind (asserted_number (\<lambda>x. x \<ge> 50) n) (\<lambda>_.
     res_bind (subscript metrics ''dangerous_cases'') (\<lambda>d.
     res_bind (asserted_number (\<lambda>x. x \<ge> 20) d) (\<lambda>_.
     res_bind (subscript report ''rag'') (\<lambda>rag. res_bind (subscript rag ''cases'') (\<lambda>r.
     res_bind (asserted_number (\<lambda>x. x \<ge> 20) r) (\<lambda>_.
       Inr \<lparr>vc_nl2sql = n, vc_dangerous = d, vc_rag = r\<rparr>))))))))))))"

definition check_performance :: "json \<Rightarrow> tool_error + unit" where
  "check_performance performance =
     res_bind (subscript performance ''scenario'') (\<lambda>scenario.
     res_bind (subscript scenario ''external_model_calls'') (\<lambda>calls.
     res_bind (asserted (py_eq calls (JInt 0))) (\<lambda>_.
     res_bind (subscript scenario ''completed_iterations'') (\<lambda>iterations.
     res_bind (asserted_number (\<lambda>x. x > 0) iterations) (\<lambda>_.
     res_bind (subscript performance ''thresholds'') (\<lambda>thresholds.
     res_bind (subscript thresholds ''passed'') (\<lambda>passed. asserted (passed = JBool True))))))))"

fun check_headings :: "pystr \<Rightarrow> pystr list \<Rightarrow> tool_error + unit" where
  "check_headings readme [] = Inr ()"
| "check_headings readme (h # hs) =
     (if \<not> contains h readme then Inl (Exit_With (lit ''README is missing required section: '' @ h))
      else check_headings readme hs)"

definition verify_evidence :: "evidence_tree \<Rightarrow> tool_error + evidence_counts" where
  "verify_evidence T =
     (let missing = filter (\<lambda>path. \<not> ev_is_file T path) required_files in
      if missing \<noteq> [] then Inl (Exit_With (lit ''missing portfolio evidence: '' @ join (lit '', '') missing))
      else res_bind (stored_json T ''evaluation/northwind/p10-offline-baseline.json'') (\<lambda>report.
           res_bind (report_counts report) (\<lambda>counts.
           res_bind (stored_json T ''evaluation/p11-local-performance.json'') (\<lambda>performance.
           res_bind (check_performance performance) (\<lambda>_.
           res_bind (raising (ev_text T (lit ''README.md''))) (\<lambda>readme.
           res_bind (check_headings readme required_headings) (\<lambda>_. Inr counts)))))))"

section \<open>Properties\<close>

lemma asserted_Inr [simp]: "asserted b = Inr u \<longleftrightarrow> b"
  by (simp add: asserted_def)

lemma asserted_number_Inr [simp]:
  "asserted_number P j = Inr u \<longleftrightarrow> (\<exists>x. num_value j = Some x \<and> P x)"
  by (auto simp: asserted_number_def compared_def split: option.splits)

lemma check_headings_Inr [simp]: "check_headings readme hs = Inr u \<longleftrightarrow> (\<forall>h \<in> set hs. contains h readme)"
  by (induction hs) auto

lemma report_counts_Inr:
  assumes "report_counts report = Inr c"
  shows "\<exists>n d r. num_value (vc_nl2sql c) = Some n \<and> 50 \<le> n
    \<and> num_value (vc_dangerous c) = Some d \<and> 20 \<le> d \<and> num_value (vc_rag c) = Some r \<and> 20 \<le> r"
  using assms by (auto simp: report_counts_def)

text \<open>Evidence that is accepted is complete: every file is there, every section is in the README.\<close>

theorem accepted_evidence_is_complete:
  assumes "verify_evidence T = Inr c"
  shows "(\<forall>path \<in> set required_files. ev_is_file T path)
    \<and> (\<exists>readme. ev_text T (lit ''README.md'') = Inr readme \<and> (\<forall>h \<in> set required_headings. contains h readme))
    \<and> (\<exists>n d r. num_value (vc_nl2sql c) = Some n \<and> 50 \<le> n
         \<and> num_value (vc_dangerous c) = Some d \<and> 20 \<le> d \<and> num_value (vc_rag c) = Some r \<and> 20 \<le> r)"
proof -
  have files: "filter (\<lambda>path. \<not> ev_is_file T path) required_files = []"
    using assms by (auto simp: verify_evidence_def Let_def split: if_splits)
  from assms files obtain report readme where
      "report_counts report = Inr c"
      "raising (ev_text T (lit ''README.md'')) = Inr readme"
      "\<forall>h \<in> set required_headings. contains h readme"
    by (auto simp: verify_evidence_def Let_def)
  moreover from this(2) have "ev_text T (lit ''README.md'') = Inr readme"
    by (auto simp: raising_def split: sum.splits)
  ultimately show ?thesis using files report_counts_Inr [of report c] by (auto simp: filter_empty_conv)
qed

text \<open>A repository with no missing file, both reports and all sections.\<close>

definition sample_offline :: json where
  "sample_offline = JObj [(lit ''evaluation_mode'', JStr (lit ''scripted_gold_replay'')),
     (lit ''real_model_evaluation'', JBool False),
     (lit ''metrics'', JObj [(lit ''nl2sql_cases'', JInt 50), (lit ''dangerous_cases'', JInt 20)]),
     (lit ''rag'', JObj [(lit ''cases'', JInt 20)])]"

definition sample_performance :: json where
  "sample_performance = JObj [
     (lit ''scenario'', JObj [(lit ''external_model_calls'', JInt 0), (lit ''completed_iterations'', JInt 4)]),
     (lit ''thresholds'', JObj [(lit ''passed'', JBool True)])]"

definition sample_tree :: evidence_tree where
  "sample_tree = \<lparr>ev_is_file = (\<lambda>_. True),
     ev_text = (\<lambda>path. Inr (if path = lit ''README.md'' then concat required_headings else path)),
     ev_loads = (\<lambda>s. Inr (if contains (lit ''p10'') s then sample_offline else sample_performance))\<rparr>"

lemma sample_tree_verified:
  "verify_evidence sample_tree = Inr \<lparr>vc_nl2sql = JInt 50, vc_dangerous = JInt 20, vc_rag = JInt 20\<rparr>"
  by code_simp

lemma missing_files_are_named:
  "verify_evidence (sample_tree\<lparr>ev_is_file := (\<lambda>path. path \<noteq> lit ''README.md'')\<rparr>)
     = Inl (Exit_With (lit ''missing portfolio evidence: README.md''))"
  by code_simp

end
