(* ===== verification/Catalog_Reading.thy ===== *)
theory Catalog_Reading
  imports Metadata Data_Source
begin

text \<open>
  How \<open>PostgresSchemaIntrospector.inspect\<close> reads a catalog: one connection and four statements. The server's answers are arguments; the texts and parameters are the code's. In the
  texts below a back quote stands for an apostrophe, and the lines are joined by line feeds.
\<close>

definition sql_lines :: "string list \<Rightarrow> pystr" where
  "sql_lines ls = concat (map (\<lambda>l. 10 # replace_char 96 39 (lit l)) ls) @ [10]"

definition columns_sql :: pystr where
  "columns_sql = sql_lines
     [''SELECT'',
      ''    columns.table_name,'',
      ''    obj_description(classes.oid, `pg_class`) AS table_comment,'',
      ''    columns.column_name,'',
      ''    columns.ordinal_position,'',
      ''    CASE'',
      ''        WHEN columns.data_type = `USER-DEFINED` THEN columns.udt_name'',
      ''        ELSE columns.data_type'',
      ''    END AS data_type,'',
      ''    columns.is_nullable = `YES` AS nullable,'',
      ''    col_description(classes.oid, columns.ordinal_position) AS column_comment'',
      ''FROM information_schema.columns AS columns'',
      ''JOIN pg_namespace AS namespaces'',
      ''  ON namespaces.nspname = columns.table_schema'',
      ''JOIN pg_class AS classes'',
      ''  ON classes.relnamespace = namespaces.oid'',
      '' AND classes.relname = columns.table_name'',
      '' AND classes.relkind IN (`r`, `p`)'',
      ''WHERE columns.table_schema = %s'',
      ''  AND columns.table_name <> `dataset_manifest`'',
      ''ORDER BY columns.table_name, columns.ordinal_position'']"

definition primary_keys_sql :: pystr where
  "primary_keys_sql = sql_lines
     [''SELECT'',
      ''    tables.relname AS table_name,'',
      ''    constraints.conname AS constraint_name,'',
      ''    array_agg(columns.attname ORDER BY key_columns.ordinality) AS columns'',
      ''FROM pg_constraint AS constraints'',
      ''JOIN pg_class AS tables ON tables.oid = constraints.conrelid'',
      ''JOIN pg_namespace AS schemas ON schemas.oid = tables.relnamespace'',
      ''CROSS JOIN LATERAL unnest(constraints.conkey)'',
      ''  WITH ORDINALITY AS key_columns(attribute_number, ordinality)'',
      ''JOIN pg_attribute AS columns'',
      ''  ON columns.attrelid = tables.oid'',
      '' AND columns.attnum = key_columns.attribute_number'',
      ''WHERE schemas.nspname = %s'',
      ''  AND constraints.contype = `p`'',
      ''  AND tables.relname <> `dataset_manifest`'',
      ''GROUP BY tables.relname, constraints.conname'',
      ''ORDER BY tables.relname'']"

definition foreign_keys_sql :: pystr where
  "foreign_keys_sql = sql_lines
     [''SELECT'',
      ''    source_tables.relname AS table_name,'',
      ''    constraints.conname AS constraint_name,'',
      ''    array_agg(source_columns.attname ORDER BY source_keys.ordinality) AS columns,'',
      ''    MIN(target_schemas.nspname) AS referenced_schema,'',
      ''    MIN(target_tables.relname) AS referenced_table,'',
      ''    array_agg(target_columns.attname ORDER BY source_keys.ordinality) AS referenced_columns'',
      ''FROM pg_constraint AS constraints'',
      ''JOIN pg_class AS source_tables ON source_tables.oid = constraints.conrelid'',
      ''JOIN pg_namespace AS source_schemas ON source_schemas.oid = source_tables.relnamespace'',
      ''JOIN pg_class AS target_tables ON target_tables.oid = constraints.confrelid'',
      ''JOIN pg_namespace AS target_schemas ON target_schemas.oid = target_tables.relnamespace'',
      ''CROSS JOIN LATERAL unnest(constraints.conkey)'',
      ''  WITH ORDINALITY AS source_keys(attribute_number, ordinality)'',
      ''JOIN LATERAL unnest(constraints.confkey)'',
      ''  WITH ORDINALITY AS target_keys(attribute_number, ordinality)'',
      ''  ON target_keys.ordinality = source_keys.ordinality'',
      ''JOIN pg_attribute AS source_columns'',
      ''  ON source_columns.attrelid = source_tables.oid'',
      '' AND source_columns.attnum = source_keys.attribute_number'',
      ''JOIN pg_attribute AS target_columns'',
      ''  ON target_columns.attrelid = target_tables.oid'',
      '' AND target_columns.attnum = target_keys.attribute_number'',
      ''WHERE source_schemas.nspname = %s'',
      ''  AND constraints.contype = `f`'',
      ''GROUP BY source_tables.relname, constraints.conname'',
      ''ORDER BY source_tables.relname, constraints.conname'']"

text \<open>\<open>sql.Identifier\<close> quotes a name and doubles the quotes in it.\<close>

definition quoted_identifier :: "pystr \<Rightarrow> pystr" where
  "quoted_identifier s = 34 # concat (map (\<lambda>c. if c = 34 then [34, 34] else [c]) s) @ [34]"

definition version_sql :: "pystr \<Rightarrow> pystr" where
  "version_sql schema = lit ''SELECT dataset_version FROM '' @ quoted_identifier schema
     @ lit ''.dataset_manifest WHERE dataset_name = %s''"

type_synonym catalog_query = "pystr \<times> pystr list"

record catalog_server =
  cs_connect :: "(pystr \<times> param) list \<Rightarrow> exn + unit"
  cs_columns :: "catalog_query \<Rightarrow> exn + column_row list"
  cs_primary_keys :: "catalog_query \<Rightarrow> exn + key_row list"
  cs_foreign_keys :: "catalog_query \<Rightarrow> exn + reference_row list"
  cs_version :: "catalog_query \<Rightarrow> exn + pystr option"

definition read_catalog :: "catalog_server \<Rightarrow> data_source_config \<Rightarrow> pystr \<Rightarrow> exn + catalog" where
  "read_catalog S c schema =
     res_bind (ds_connect (cs_connect S) c) (\<lambda>_.
     res_bind (cs_columns S (columns_sql, [schema])) (\<lambda>columns.
     res_bind (cs_primary_keys S (primary_keys_sql, [schema])) (\<lambda>primary.
     res_bind (cs_foreign_keys S (foreign_keys_sql, [schema])) (\<lambda>foreign.
     res_bind (cs_version S (version_sql schema, [lit ''northwind''])) (\<lambda>version.
       Inr \<lparr>cat_columns = columns, cat_primary_keys = primary, cat_foreign_keys = foreign,
         cat_version = version\<rparr>)))))"

definition inspect_source ::
  "(nat list \<Rightarrow> pystr) \<Rightarrow> (real \<Rightarrow> pystr) \<Rightarrow> catalog_server \<Rightarrow> data_source_config \<Rightarrow> exn + schema_snapshot" where
  "inspect_source sha fr S c = inspect_schema sha fr (read_catalog S c) (ds_source_id c) (ds_allowed_schema c)"

section \<open>Properties\<close>

lemma identifier_chars: "is_pg_identifier s \<Longrightarrow> c \<in> set s \<Longrightarrow> ident_start c \<or> ascii_digit c"
  by (cases s) (auto simp: list_all_iff)

lemma quoted_plain: "34 \<notin> set s \<Longrightarrow> quoted_identifier s = 34 # s @ [34]"
  unfolding quoted_identifier_def by (induction s) auto

text \<open>
  The catalog of a checked configuration is read with fixed statements: the schema is a parameter
  of three of them, and in the fourth, where it is part of the text, the accepted names need no
  escaping, so the text has the schema between one pair of quotes and nothing else of it.
\<close>

theorem version_statement_is_plain:
  assumes "check_config c = Inr c'"
  shows "version_sql (ds_allowed_schema c') = lit ''SELECT dataset_version FROM '' @ [34] @ ds_allowed_schema c'
    @ [34] @ lit ''.dataset_manifest WHERE dataset_name = %s''"
proof -
  from assms have "is_pg_identifier (ds_allowed_schema c')" by (simp add: check_config_Inr)
  then have "34 \<notin> set (ds_allowed_schema c')"
    using identifier_chars by (fastforce simp: ident_start_def ascii_digit_def)
  then show ?thesis by (simp add: version_sql_def quoted_plain)
qed

text \<open>Nothing but the answers to these four statements reaches the snapshot.\<close>

theorem snapshots_come_from_four_queries:
  assumes "cs_connect S = cs_connect S'"
    and "cs_columns S (columns_sql, [ds_allowed_schema c]) = cs_columns S' (columns_sql, [ds_allowed_schema c])"
    and "cs_primary_keys S (primary_keys_sql, [ds_allowed_schema c])
      = cs_primary_keys S' (primary_keys_sql, [ds_allowed_schema c])"
    and "cs_foreign_keys S (foreign_keys_sql, [ds_allowed_schema c])
      = cs_foreign_keys S' (foreign_keys_sql, [ds_allowed_schema c])"
    and "cs_version S (version_sql (ds_allowed_schema c), [lit ''northwind''])
      = cs_version S' (version_sql (ds_allowed_schema c), [lit ''northwind''])"
  shows "inspect_source sha fr S c = inspect_source sha fr S' c"
  by (simp add: inspect_source_def inspect_schema_def read_catalog_def assms)

end
