(* ===== verification/Approval_Liveness.thy ===== *)
theory Approval_Liveness
  imports Agent_Actions
begin

text \<open>
  What lets an operator clear every run that waits (\<open>agent/service.py\<close>, \<open>agent/graph.py\<close>,
  \<open>agent/steps.py\<close> and \<open>agent/actions.py\<close> together): a waiting run of the production workflow
  answers a refusal by its tenant, as long as the platform accepts the posts of its steps.
\<close>

section \<open>A node that once asked can ask again\<close>

text \<open>What a pause tells about the state it stopped in.\<close>

lemma interrupted_state:
  assumes "run_node E Request_Approval resume s w = (Interrupted p, w')"
  shows "\<exists>inp run trace tid. state_summary (ag_sha E) s = Inr inp \<and> as_run_id s = Some run
    \<and> as_trace_id s = Some trace \<and> normalize_trace_id (ag_uni E) (ag_sha E) trace = Inr tid"
proof -
  from assms obtain inp trace tid w1 where
    t: "state_summary (ag_sha E) s = Inr inp" "as_trace_id s = Some trace"
      "normalize_trace_id (ag_uni E) (ag_sha E) trace = Inr tid"
    and op: "pause E resume s w = (Interrupted p, w1)"
    by (auto simp: run_node_def timed_step_def record_failure_def Let_def
        split: sum.splits option.splits prod.splits node_result.splits)
  from op have "\<exists>run. as_run_id s = Some run"
    by (auto simp: pause_def split: sum.splits option.splits prod.splits)
  with t show ?thesis by blast
qed

text \<open>A summary fails only for a text of SQL that cannot be encoded, so it depends on the SQL alone.\<close>

lemma summary_defined: "(\<exists>inp. state_summary sha s = Inr inp) \<longleftrightarrow>
    (case as_sql s of None \<Rightarrow> True | Some sql \<Rightarrow> sql = [] \<or> (\<exists>f. fingerprint sha sql = Inr f))"
  by (auto simp: state_summary_def Let_def split: option.splits sum.splits)

lemma summary_of_update:
  assumes "state_summary sha s = Inr inp" and "as_sql u = None"
  obtains out where "state_summary sha (merge_state s u) = Inr out"
proof -
  have "\<exists>out. state_summary sha (merge_state s u) = Inr out"
    using assms summary_defined [of sha s] by (simp add: summary_defined newer_def)
  then show thesis using that by blast
qed

definition refused :: agent_state where
  "refused = no_state\<lparr>as_decision := Some Rejected, as_error := Some (Some (lit ''APPROVAL_REJECTED''))\<rparr>"

text \<open>The platform accepts what the workflow posts.\<close>

definition accepting :: "'w agent_env \<Rightarrow> bool" where
  "accepting E \<longleftrightarrow> (\<forall>r w. fst (ag_record E r w) = Inr ())
     \<and> (\<forall>s w. as_run_id s \<noteq> None \<longrightarrow> as_trace_id s \<noteq> None \<longrightarrow> fst (ag_pending E s w) = Inr ())"

lemma refusal_updates:
  assumes E: "accepting E" and s: "state_summary (ag_sha E) s = Inr inp" "as_run_id s = Some run"
    "as_trace_id s = Some trace" "normalize_trace_id (ag_uni E) (ag_sha E) trace = Inr tid"
    and d: "decision_of reply = Some Rejected"
  shows "fst (run_node E Request_Approval (Some reply) s w) = Updated refused"
proof -
  obtain w1 where p: "ag_pending E s w = (Inr (), w1)"
    using E s by (cases "ag_pending E s w") (auto simp: accepting_def, metis fst_conv)
  have rec: "\<exists>v'. ag_record E r v = (Inr (), v')" for r v
    using E by (cases "ag_record E r v") (auto simp: accepting_def, metis fst_conv)
  obtain w2 where r1: "ag_record E (waiting_step E run s inp w1) w1 = (Inr (), w2)" using rec by blast
  have "as_sql refused = None" by (simp add: refused_def no_state_def)
  from summary_of_update [OF s(1) this] obtain out where o: "state_summary (ag_sha E) (merge_state s refused) = Inr out" .
  have pause: "pause E (Some reply) s w = (Updated refused, w2)"
    using p r1 s d by (simp add: pause_def refused_def)
  show ?thesis
    using s pause o rec by (auto simp: run_node_def timed_step_def split: prod.splits sum.splits, metis prod.inject sum.distinct(1))
qed

section \<open>Threads remember where they stopped\<close>

lemma run_from_stop:
  "run_from E fuel n resume s w = (Paused p, m, s', w') \<Longrightarrow> \<exists>v. run_node E m None s' v = (Interrupted p, w')"
proof (induction fuel arbitrary: n resume s w)
  case (Suc fuel)
  then show ?case
    by (auto split: prod.splits node_result.splits sum.splits option.splits dest: run_node_Interrupted)
       (metis run_node_Interrupted)
qed simp

context agent_actions
begin

lemma run_from_run_id:
  "run_from E fuel n resume s w = (z, m, s', w') \<Longrightarrow> as_run_id s' = as_run_id s"
proof (induction fuel arbitrary: n resume s w)
  case (Suc fuel)
  then show ?case
    by (auto split: prod.splits node_result.splits sum.splits option.splits
        dest: update_identity simp: no_identity_def newer_def)
qed simp

definition thread_stopped :: "pystr \<Rightarrow> thread \<Rightarrow> bool" where
  "thread_stopped run_id th \<longleftrightarrow> as_run_id (th_state th) = Some run_id
     \<and> (\<forall>p. th_end th = Paused p \<longrightarrow> (\<exists>v v'. run_node E (th_node th) None (th_state th) v = (Interrupted p, v')))"

definition threads_stopped :: "'w runtime \<Rightarrow> bool" where
  "threads_stopped g \<longleftrightarrow> (\<forall>run_id th. rt_threads g run_id = Some th \<longrightarrow> thread_stopped run_id th)"

lemma invoke_stopped:
  assumes "invoke E n resume s run_id g = (x, g')" and "as_run_id s = Some run_id" and "threads_stopped g"
  shows "threads_stopped g'"
proof -
  obtain z m s' w' where run: "run_from E 25 n resume s (rt_world g) = (z, m, s', w')"
    by (cases "run_from E 25 n resume s (rt_world g)") auto
  have "\<exists>v v'. run_node E m None s' v = (Interrupted p, v')" if "z = Paused p" for p
  proof -
    from run that have "run_from E 25 n resume s (rt_world g) = (Paused p, m, s', w')" by simp
    then obtain v where v: "run_node E m None s' v = (Interrupted p, w')" using run_from_stop by metis
    show ?thesis by (rule exI, rule exI, rule v)
  qed
  with run_from_run_id [OF run] assms(2) have "thread_stopped run_id \<lparr>th_state = s', th_node = m, th_end = z\<rparr>"
    by (simp add: thread_stopped_def)
  moreover have "rt_threads g' = (rt_threads g)(run_id \<mapsto> \<lparr>th_state = s', th_node = m, th_end = z\<rparr>)"
    using assms(1) run by (auto simp: invoke_def)
  ultimately show ?thesis using assms(3) by (auto simp: threads_stopped_def)
qed

lemma served_threads_stopped: "served E g \<Longrightarrow> threads_stopped g"
proof (induction rule: served.induct)
  case (start g r x g')
  from start_steps [OF start.hyps(2)] start.IH show ?case
    using invoke_stopped by (auto simp: initial_state_def)
next
  case (resume g run_id tenant a x g')
  from resume_steps [OF resume.hyps(2)] show ?case
  proof (elim disjE exE conjE)
    fix th p y
    assume th: "rt_threads g run_id = Some th"
      and inv: "invoke E (th_node th) (Some (resume_payload a)) (th_state th) run_id g = (y, g')"
    from th resume.IH have "as_run_id (th_state th) = Some run_id"
      unfolding threads_stopped_def thread_stopped_def by blast
    from invoke_stopped [OF inv this resume.IH] show ?thesis .
  qed (use resume.IH in simp)
qed (simp add: threads_stopped_def)

lemma waiting_runs_answer:
  assumes "served E g" and "accepting E" and "waiting (go_state (agent_runtime E) run_id g)"
    and "as_tenant_id (state_or_empty (go_state (agent_runtime E) run_id g)) = Some tenant"
    and "ar_decision a = Rejected"
  shows "\<exists>res g'. resume_workflow (agent_runtime E) run_id tenant a g = (Inr res, g')"
proof -
  from assms(3) obtain th p where th: "rt_threads g run_id = Some th" "th_end th = Paused p"
    by (auto simp: agent_runtime_def thread_snapshot_def waiting_def split: option.splits run_end.splits)
  from served_threads_stopped [OF assms(1)] th have stopped: "thread_stopped run_id th"
    unfolding threads_stopped_def by blast
  then have id: "as_run_id (th_state th) = Some run_id" by (simp add: thread_stopped_def)
  from stopped th(2) obtain v v' where stop: "run_node E (th_node th) None (th_state th) v = (Interrupted p, v')"
    unfolding thread_stopped_def by blast
  have node: "th_node th = Request_Approval" using run_node_Interrupted [OF stop] by simp
  from interrupted_state [OF stop [unfolded node]] obtain inp trace tid where
    s: "state_summary (ag_sha E) (th_state th) = Inr inp" "as_trace_id (th_state th) = Some trace"
      "normalize_trace_id (ag_uni E) (ag_sha E) trace = Inr tid" by blast
  have "decision_of (resume_payload a) = Some Rejected" using assms(5) by (simp add: resume_payload_def)
  from refusal_updates [OF assms(2) s(1) id s(2,3) this, of "rt_world g"] obtain w' where
    u: "run_node E Request_Approval (Some (resume_payload a)) (th_state th) (rt_world g) = (Updated refused, w')"
    by (cases "run_node E Request_Approval (Some (resume_payload a)) (th_state th) (rt_world g)") auto
  have "route E Request_Approval (merge_state (th_state th) refused) = Inr None"
    by (simp add: refused_def newer_def)
  with u have "run_from E 25 Request_Approval (Some (resume_payload a)) (th_state th) (rt_world g)
      = (Ended, Request_Approval, merge_state (th_state th) refused, w')"
    by (simp add: numeral_eq_Suc)
  then show ?thesis
    using th node id assms(3,4)
    by (simp add: resume_workflow_def agent_runtime_def thread_snapshot_def state_or_empty_def invoke_def Let_def)
qed

end

context agent_actions
begin

text \<open>A start that answers \<open>WAITING_APPROVAL\<close> leaves the run waiting, for the tenant that started it.\<close>

lemma started_runs_wait:
  assumes "start_workflow (agent_runtime E) r g = (Inr res, g')" and "rt_threads g (sr_run_id r) = None"
    and "wr_status res = Waiting_Approval"
  shows "waiting (go_state (agent_runtime E) (sr_run_id r) g')
    \<and> as_tenant_id (state_or_empty (go_state (agent_runtime E) (sr_run_id r) g')) = Some (sr_tenant_id r)"
proof -
  obtain z m s w where run: "run_from E 25 Classify None (initial_state r) (rt_world g) = (z, m, s, w)"
    by (cases "run_from E 25 Classify None (initial_state r) (rt_world g)") auto
  have g': "g' = \<lparr>rt_threads = (rt_threads g)(sr_run_id r \<mapsto> \<lparr>th_state = s, th_node = m, th_end = z\<rparr>), rt_world = w\<rparr>"
    using assms(1,2) run
    by (auto simp: start_workflow_def agent_runtime_def thread_snapshot_def invoke_def Let_def
        split: sum.splits if_splits)
  have "\<exists>p. z = Paused p"
    using assms run
    by (cases z) (auto simp: start_workflow_def agent_runtime_def thread_snapshot_def invoke_def Let_def
        snapshot_result_def result_of_def status_of_def split: if_splits)
  moreover have "as_tenant_id s = Some (sr_tenant_id r)"
    using run_from_identity [OF run] by (simp add: identity_of_def initial_state_def)
  ultimately show ?thesis
    using g' by (auto simp: agent_runtime_def thread_snapshot_def waiting_def state_or_empty_def)
qed

end

section \<open>The production workflow\<close>

text \<open>
  C9. A waiting run can always be cleared: whatever the service has served, if the platform
  accepts the posts of the workflow, resuming a run that waits for approval with a refusal, for
  the run's tenant, returns, and the run is rejected. No waiting run is stuck in an identity
  conflict, a missing field or an error of the summary.
\<close>

theorem waiting_runs_can_be_refused:
  assumes "served (production_env A P c) g" and "\<forall>post x. fst (pl_send P post x) = Inr 200"
    and "waiting (go_state (agent_runtime (production_env A P c)) run_id g)"
    and "as_tenant_id (state_or_empty (go_state (agent_runtime (production_env A P c)) run_id g)) = Some tenant"
    and "ar_decision a = Rejected"
  shows "\<exists>res g'. resume_workflow (agent_runtime (production_env A P c)) run_id tenant a g = (Inr res, g')
    \<and> wr_status res = Rejected_Run"
proof -
  have post: "fst (post_and_check (pl_send P) post x) = Inr ()" for post x
  proof -
    obtain y x' where y: "pl_send P post x = (y, x')" by (cases "pl_send P post x")
    from assms(2) have "fst (pl_send P post x) = Inr 200" by blast
    with y show ?thesis by (simp add: post_and_check_def)
  qed
  have platform: "fst (with_platform f w) = fst (f (aw_platform w))" for f w
    by (simp add: with_platform_def split: prod.split)
  have "accepting (production_env A P c)"
    unfolding accepting_def production_env_def
    by (simp add: platform post platform_step_def platform_ensure_pending_def platform_approval_post_def
        split: option.split)
  from production.waiting_runs_answer [OF assms(1) this assms(3,4,5)]
  obtain res g' where r: "resume_workflow (agent_runtime (production_env A P c)) run_id tenant a g = (Inr res, g')" by blast
  from production.rejection_settles [OF assms(1,5) this] r show ?thesis by blast
qed

definition waiting_runtime where
  "waiting_runtime = snd (start_workflow (agent_runtime (sample_workflow (1 / 4))) sample_start_run fresh_runtime)"

lemma sample_waiting:
  "waiting (go_state (agent_runtime (sample_workflow (1 / 4))) (lit ''run'') waiting_runtime)"
  "as_tenant_id (state_or_empty (go_state (agent_runtime (sample_workflow (1 / 4))) (lit ''run'') waiting_runtime))
     = Some (lit ''00000000-0000-0000-0000-000000000007'')"
proof -
  obtain x where x: "start_workflow (agent_runtime (sample_workflow (1 / 4))) sample_start_run fresh_runtime = (x, waiting_runtime)"
    unfolding waiting_runtime_def by (metis prod.collapse)
  with sample_waits obtain res where "x = Inr res" "wr_status res = Waiting_Approval" by (cases x) auto
  with production.started_runs_wait [of _ _ _ sample_start_run fresh_runtime res waiting_runtime] x
  show "waiting (go_state (agent_runtime (sample_workflow (1 / 4))) (lit ''run'') waiting_runtime)"
    "as_tenant_id (state_or_empty (go_state (agent_runtime (sample_workflow (1 / 4))) (lit ''run'') waiting_runtime))
       = Some (lit ''00000000-0000-0000-0000-000000000007'')"
    by (simp_all add: fresh_runtime_def sample_start_run_def)
qed

theorem waiting_runs_can_be_refused_witness:
  "\<exists>res g. resume_workflow (agent_runtime (sample_workflow (1 / 4))) (lit ''run'')
       (lit ''00000000-0000-0000-0000-000000000007'') refusal waiting_runtime = (Inr res, g)
     \<and> wr_status res = Rejected_Run"
proof -
  have s: "served (sample_workflow (1 / 4)) waiting_runtime"
    unfolding waiting_runtime_def
    by (rule served.start [where g = fresh_runtime, OF _ prod.collapse [symmetric]])
       (simp add: fresh_runtime_def served.fresh)
  have "\<forall>post x. fst (pl_send sample_platform post x) = Inr 200" by (simp add: sample_platform_def)
  moreover have "ar_decision refusal = Rejected" by (simp add: refusal_def)
  ultimately show ?thesis using waiting_runs_can_be_refused [OF s _ sample_waiting] by blast
qed

end
