(* ===== verification/Spec2Isabelle.thy ===== *)
theory Spec2Isabelle
  imports Application Operator_Commands Portfolio_Evidence Catalog_Reading Approval_Liveness
begin

text \<open>
  This development verifies the agent service of the enterprise data copilot, the Python package
  under \<open>src/agent-service/app\<close>, and the one Python script under \<open>src/scripts\<close>. The service answers
  business questions in natural language over a read-only PostgreSQL database, from a knowledge
  base of metric documents and from a knowledge graph. The Java platform and the web interface
  around it are not part of it.

  \<^bold>\<open>The program.\<close> A question enters over HTTP and becomes a run of a workflow graph with nine nodes:
  classify, retrieve metric definitions, select a schema, generate SQL with a language model,
  guard it, ask an administrator where the query is risky, execute it, verify and compose an
  answer. Every generated statement passes the SQL guard, a cost estimate and a bounded read-only
  executor, and every call of the safe query service leaves an audit event. Documents are parsed,
  cut into chunks, embedded and searched by words and by vectors. The knowledge graph is extracted
  by a language model, persisted with quotes of its source, searched, and asked for answers that
  cite evidence. Evaluations measure all of it.

  \<^bold>\<open>How Python is modelled.\<close>
  \<^item> \<open>CopilotPrelude\<close>: \<open>str\<close> is a list of Unicode code points (\<open>pystr\<close>), \<open>int\<close> is \<open>int\<close>, \<open>float\<close> is
    \<open>real\<close>, so rounding errors are outside the model, a UUID is its number. A function that can
    raise returns \<open>exn + 'a\<close>; \<open>res_bind\<close> and \<open>res_map\<close> are the propagation of exceptions.
  \<^item> \<open>Errors\<close>: one datatype per module of exception classes, their codes and names, the library
    exceptions the code distinguishes, and their sum \<open>exn\<close>.
  \<^item> \<open>PyText\<close>, \<open>PyJson\<close>, \<open>Py_Decimal\<close>: the operations of \<open>str\<close>, UTF-8, \<open>uuid\<close>, \<open>json.dumps\<close> and
    \<open>decimal\<close> that the code uses. The Unicode tables are the argument \<open>unidata\<close>.
  \<^item> State is passed explicitly, as records. Effects of the outside are arguments: HTTP, language
    models behind HTTP, PostgreSQL, Neo4j, sqlglot's parser and optimiser, pypdf, hashes, clocks,
    fresh identifiers, the reading of numbers, URLs and times by pydantic. Where a theorem needs
    documented behaviour of one, it is a hypothesis of that theorem, with a concrete instance.

  \<^bold>\<open>The theories\<close>, in the order of the imports.
  \<^item> \<open>Expiring_Store\<close>: the contract of a cache with a time to live, as a locale; \<open>Metadata\<close>
    (\<open>metadata/models.py\<close>, \<open>introspection.py\<close>, \<open>cache.py\<close>) and \<open>Metric_Retrieval\<close>
    (\<open>retrieval/cache.py\<close>) interpret it on their caches. \<open>Catalog_Reading\<close>: the statements that
    read the catalog.
  \<^item> \<open>Data_Source\<close> (\<open>data_sources/\<close>): the validated configuration of the database, its redacted
    representation, the classification of connection errors.
  \<^item> \<open>Query_Policy\<close>, \<open>Sql_Guard\<close>, \<open>Query_Executor\<close>, \<open>Safe_Query\<close> (\<open>query_safety/\<close>): the policy and
    its restriction to selected tables, the guard with its checks in order, the bounded executor
    and the cost estimator, the service that prices, executes and audits. The sink of audit events
    is the locale \<open>audit_sink\<close>, interpreted on both sinks.
  \<^item> \<open>Language_Model\<close> (\<open>llm/\<close>): requests, the OpenAI-compatible adapter, the scripted provider, and
    the structured client with its retries.
  \<^item> \<open>Question_Guard\<close> and \<open>NL2SQL\<close> (\<open>nl2sql/\<close>): the deny list with the part of regular expressions it
    needs, the prompts, the selection of tables, the drafts and their repair.
  \<^item> \<open>Agent_State\<close>, \<open>Observability\<close>, \<open>Agent_Graph\<close>, \<open>Agent_Service\<close> (\<open>agent/state.py\<close>, \<open>steps.py\<close>,
    \<open>models.py\<close>, \<open>graph.py\<close>, \<open>demo.py\<close>, \<open>service.py\<close>): the state dictionary, redacted step records,
    the nodes, edges and the approval pause as a step relation, and the service over the runtime.
    The locale \<open>agent_actions\<close> is what the graph asks of its actions, \<open>durable_graph\<close> what the
    service asks of the runtime; the runtime itself, LangGraph, is modelled by its documented rules.
  \<^item> \<open>Retrieval_Text\<close>, \<open>Embeddings\<close>, \<open>Metric_Store\<close>, \<open>Metric_Postgres\<close>, \<open>Retrieval_Providers\<close>,
    \<open>Metric_Retrieval\<close>, \<open>Retrieval_Evaluation\<close> (\<open>retrieval/\<close>): parsing and chunking, tokens and the
    hashing embedding, the repository in memory and the one in PostgreSQL, the HTTP embeddings and
    rerankers, the service with ranking, fusion and cache, both evaluations.
  \<^item> \<open>Answering\<close> and \<open>Agent_Actions\<close> (\<open>agent/answering.py\<close>, \<open>charting.py\<close>, \<open>actions.py\<close>, \<open>factory.py\<close>):
    how a result is described and charted, every action of the production workflow, and the
    interpretation of \<open>agent_actions\<close> on them.
  \<^item> \<open>Graph_Store\<close>, \<open>Graph_Service\<close>, \<open>Graph_Neo4j\<close> (\<open>knowledge_graph/\<close>): models and the store in
    memory, an interpretation of the locale \<open>graph_store\<close>; extraction, persistence, answers with
    citations, the import of a catalog, the measures of an extraction; the Neo4j store.
  \<^item> \<open>Service_Api\<close> (\<open>agent/api.py\<close>, \<open>retrieval/api.py\<close>, \<open>knowledge_graph/api.py\<close>, \<open>mcp_server.py\<close>): every
    route and every MCP tool, with the dependencies in the order in which the framework runs them.
  \<^item> \<open>Evaluation\<close> (\<open>evaluation/\<close>): datasets, the run over gold cases and dangerous questions in both
    modes, and the measures.
  \<^item> \<open>Smoke_Test\<close> and \<open>Operator_Commands\<close> (\<open>evaluation/upgrade_smoke.py\<close>, \<open>evaluation/query_plans.py\<close>, the
    \<open>cli.py\<close> of four packages, \<open>retrieval/benchmark.py\<close>, \<open>knowledge_graph/evaluation.py\<close>): what an
    operator's commands do with their parsed arguments and the texts of their files.
    \<open>Portfolio_Evidence\<close> is the check of the repository's evidence, \<open>scripts/verify-portfolio-evidence.py\<close>.
  \<^item> \<open>Telemetry\<close> and \<open>Configuration\<close> (\<open>observability.py\<close>, \<open>settings.py\<close>, \<open>main.py\<close>,
    \<open>agent/checkpoint.py\<close>): metrics by their
    labels, spans, every settings class with its variables, defaults and bounds, the life of the
    application and of the checkpointer's connection.
  \<^item> \<open>Production_Retrieval\<close> (\<open>retrieval/factory.py\<close>) and \<open>Application\<close> (\<open>main.py\<close>): the retrieval service
    over PostgreSQL built from the settings, with the profile that keeps vectors of different models
    apart (\<open>profiles_identify_the_model\<close>); the services the application holds, against what the
    routes ask for.
  \<^item> \<open>Approval_Liveness\<close>: the workflow service, the graph, the step wrapper and the production actions
    together.

  \<^bold>\<open>What the theorems show.\<close> Each property stands under its number, \<open>C1\<close> to \<open>C40\<close>, in the theory of the
  component it is about.
  \<^item> Nothing runs unchecked: the guard accepts exactly what passes every check (\<open>guard_accepts_exactly\<close>),
    an accepted query is bounded and refers to allowed tables only, save unqualified references
    that bear the name of one of its CTEs (\<open>reads_within\<close>), the service executes only the guarded text,
    within both cost limits where it has a planner, and releases nothing it has not audited, the
    workflow executes only queries guarded under the state's policy that are harmless or approved.
    A request without the exact credential does nothing on any route.
  \<^item> Runs behave: no run is cut off by the step limit, starting is idempotent, a rejection is final,
    and a waiting run can always be refused. These rest on invariants of the reachable positions of
    the graph, by rule induction, and of the threads the service has made.
  \<^item> Results are what they say: byte counts and the truncation flag are exact, described changes read
    back exactly within 28 digits, a short Markdown line that is no heading reaches a chunk, the
    hybrid ranking is reciprocal rank fusion, and paths are shortest.
  \<^item> Answers are grounded: retrieval cites active documents of the tenant, graphs hold exact quotes,
    graph answers cite only the evidence sent, in full, and that evidence keeps to its budget.
  \<^item> Tenants stay apart: searches, graphs, Neo4j statements and the cache keep to the tenant.
  \<^item> Nothing leaks: step summaries, prompts, route labels and the configuration's representation
    depend on no row values, hidden tables, identifiers or passwords.
  \<^item> Bounds and schedules: attempts, delays, model calls, evidence, settings; and the errors each
    component can raise.
  \<^item> Operating it is safe: the smoke test sends one fixed list of requests and its credentials once
    (\<open>smoke_sends_the_plan\<close>), external models need the operator's consent
    (\<open>external_models_need_consent\<close>), the plan experiment leaves no trace.

  \<^bold>\<open>Bounds and fuel.\<close> Every loop of the source is structural recursion or carries a measure, except the
  run of the workflow, \<open>run_from\<close>, which takes the runtime's own limit of 25 steps as fuel: from
  every reachable position 19 steps are enough, so \<open>Out_of_steps\<close> never shows (\<open>every_run_settles\<close>).
  \<open>draft_loop\<close>, \<open>attempts_from\<close>, \<open>post_loop\<close> and \<open>write_attempts\<close> count down the configured number of
  attempts. The matcher of the question guard recurses on the pattern. The path search ends because
  each path weighs more than its extensions together.

  \<^bold>\<open>Findings.\<close> Where modelling showed a defect, a theorem states it where it could be stated:
  \<open>cte_name_hides_table\<close> in \<open>Sql_Guard\<close>, \<open>longest_draft_cannot_be_repaired\<close> in \<open>NL2SQL\<close>,
  \<open>long_texts_cannot_be_extracted\<close> and \<open>control_questions_do_not_fit\<close> in \<open>Graph_Service\<close>, \<open>credential_outcomes\<close> and
  \<open>empty_identity_is_not_classified\<close> in \<open>Service_Api\<close>,
  \<open>failed_gold_queries_shift_the_replay\<close> in \<open>Evaluation\<close> and
  \<open>accepted_settings_can_disable_ingestion\<close> in \<open>Configuration\<close>.

  \<^bold>\<open>Not modelled.\<close> \<open>argparse\<close>, reading and writing files and printing around the commands; what the
  PostgreSQL checkpointer stores, which is the runtime's; the mounting of routers in \<open>main.py\<close>;
  package exports; a connection lost while PostgreSQL commits. Rounding of
  floating-point numbers, threads and concurrent requests are outside the model: each operation is
  one step, and what two interleaved calls of different components do is their order of steps.
\<close>

end
